(* ===== verification/Prelude.thy ===== *)
theory Prelude
  imports Main "HOL-Library.Word" "HOL-Library.Signed_Division"
begin

text \<open>
  What every component of the development shares: the names of the machine integers, byte
  arrays with a \<open>memcpy\<close> in and out (\<open>slice\<close>, \<open>patch\<close>), little-endian encoding of
  the on-disk integers, the faults that stand for C's undefined behaviour, and the
  state-and-fault monad in which the driver's functions are written.
\<close>

unbundle bit_operations_syntax

section \<open>Machine integers\<close>

type_synonym u8 = "8 word"
type_synonym u16 = "16 word"
type_synonym u32 = "32 word"
type_synonym u64 = "64 word"

named_theorems cm_simps "evaluation of the state-and-fault monad"
named_theorems le_simps "little-endian encoding of integers"
named_theorems slice_simps "slices of patched byte arrays"

text \<open>C's \<open>int\<close> is kept as a HOL \<open>int\<close>; the conversions that can change a value are explicit.\<close>

definition to_int32 :: "int \<Rightarrow> int" where
  "to_int32 x = signed_take_bit 31 x"

lemma to_int32_id: "- (2 ^ 31) \<le> x \<Longrightarrow> x < 2 ^ 31 \<Longrightarrow> to_int32 x = x"
  by (simp add: to_int32_def signed_take_bit_int_eq_self)

lemma to_int32_less: "to_int32 x < 2 ^ 31"
  unfolding to_int32_def by (rule signed_take_bit_int_less_exp)

lemma sdiv_nonneg: "0 \<le> (a::int) \<Longrightarrow> 0 < b \<Longrightarrow> a sdiv b = a div b"
  by (cases "a = 0") (simp_all add: signed_divide_int_def)

lemma smod_nonneg: "0 \<le> (a::int) \<Longrightarrow> 0 < b \<Longrightarrow> a smod b = a mod b"
  by (cases "a = 0") (simp_all add: signed_modulo_int_def sdiv_nonneg minus_div_mult_eq_mod)

text \<open>32-bit arithmetic on values that are known to fit.\<close>

named_theorems w32 "32-bit arithmetic on small naturals"

lemma unat_of_nat32 [w32]: "a < 4294967296 \<Longrightarrow> unat (of_nat a :: u32) = a"
  by (simp only: unat_of_nat) simp

lemma w32_less [w32]:
  "a < 4294967296 \<Longrightarrow> b < 4294967296 \<Longrightarrow> (of_nat a < (of_nat b :: u32)) = (a < b)"
  by (simp only: word_less_nat_alt unat_of_nat32)

lemma w32_eq [w32]:
  "a < 4294967296 \<Longrightarrow> b < 4294967296 \<Longrightarrow> (of_nat a = (of_nat b :: u32)) = (a = b)"
  by (metis unat_of_nat32)

lemma w32_sub [w32]: "b \<le> a \<Longrightarrow> of_nat a - (of_nat b :: u32) = of_nat (a - b)"
  by (metis of_nat_diff)

lemma w32_div [w32]:
  "a < 4294967296 \<Longrightarrow> b < 4294967296 \<Longrightarrow> of_nat a div (of_nat b :: u32) = of_nat (a div b)"
  by (simp only: word_arith_nat_div unat_of_nat32)

lemma w32_mod [w32]:
  "a < 4294967296 \<Longrightarrow> b < 4294967296 \<Longrightarrow> of_nat a mod (of_nat b :: u32) = of_nat (a mod b)"
  by (simp only: word_arith_nat_mod unat_of_nat32)

text \<open>\<open>unat\<close> of sums, differences, products, shifts and conversions that do not wrap.\<close>

lemma unat_add32: "unat (a :: u32) + unat b < 4294967296 \<Longrightarrow> unat (a + b) = unat a + unat b"
  by (simp add: unat_word_ariths(1))

lemma unat_sub32: "unat (b :: u32) \<le> unat a \<Longrightarrow> unat (a - b) = unat a - unat b"
  by (rule unat_sub) (simp add: word_le_nat_alt)

lemma unat_mult32: "unat (a :: u32) * unat b < 4294967296 \<Longrightarrow> unat (a * b) = unat a * unat b"
  by (simp add: unat_word_ariths(2))

lemma unat_shift32: "unat x * 2 ^ n < 4294967296 \<Longrightarrow> unat (push_bit n x :: u32) = unat x * 2 ^ n"
  by (simp only: unsigned_push_bit_eq) (simp add: push_bit_eq_mult take_bit_nat_eq_self)

lemma unat_ucast16: "unat (ucast (x :: u16) :: u32) = unat x"
  by (simp only: unsigned_ucast_eq) (simp add: take_bit_nat_eq_self less_le_trans [OF unsigned_less])

lemma unat_ucast64: "unat (ucast (x :: u32) :: u64) = unat x"
  by (simp only: unsigned_ucast_eq) (simp add: take_bit_nat_eq_self less_le_trans [OF unsigned_less])

section \<open>Byte arrays\<close>

text \<open>\<open>slice k n xs\<close> is what \<open>memcpy(dst, xs + k, n)\<close> copies, \<open>patch k ys xs\<close> is
  \<open>xs\<close> after \<open>memcpy(xs + k, ys, length ys)\<close>.\<close>

definition slice :: "nat \<Rightarrow> nat \<Rightarrow> 'a list \<Rightarrow> 'a list" where
  "slice k n xs = take n (drop k xs)"

definition patch :: "nat \<Rightarrow> 'a list \<Rightarrow> 'a list \<Rightarrow> 'a list" where
  "patch k ys xs = take k xs @ ys @ drop (k + length ys) xs"

lemma length_slice [simp]: "length (slice k n xs) = min n (length xs - k)"
  by (simp add: slice_def)

lemma length_patch [simp]: "k + length ys \<le> length xs \<Longrightarrow> length (patch k ys xs) = length xs"
  by (simp add: patch_def)

lemma slice_nth: "k + i < length xs \<Longrightarrow> i < n \<Longrightarrow> slice k n xs ! i = xs ! (k + i)"
  by (simp add: slice_def)

lemma slice_all [simp]: "n = length xs \<Longrightarrow> slice 0 n xs = xs"
  by (simp add: slice_def)

lemma patch_nth:
  assumes "k + length ys \<le> length xs" and "i < length xs"
  shows "patch k ys xs ! i = (if k \<le> i \<and> i < k + length ys then ys ! (i - k) else xs ! i)"
  using assms by (auto simp: patch_def nth_append)

lemma slice_patch_same [slice_simps]:
  "k + length ys \<le> length xs \<Longrightarrow> n = length ys \<Longrightarrow> slice k n (patch k ys xs) = ys"
  by (simp add: slice_def patch_def)

lemma slice_patch_disjoint [slice_simps]:
  assumes "k + length ys \<le> length xs" and "j + n \<le> k \<or> k + length ys \<le> j" and "j + n \<le> length xs"
  shows "slice j n (patch k ys xs) = slice j n xs"
  using assms by (intro nth_equalityI) (auto simp: slice_nth patch_nth)

lemma patch_slice_id [slice_simps]: "k + n \<le> length xs \<Longrightarrow> patch k (slice k n xs) xs = xs"
  by (intro nth_equalityI) (auto simp: slice_nth patch_nth)

lemma patch_patch_same [slice_simps]:
  "k + length ys \<le> length xs \<Longrightarrow> length zs = length ys \<Longrightarrow> patch k zs (patch k ys xs) = patch k zs xs"
  by (intro nth_equalityI) (auto simp: patch_nth)

lemma patch_Nil [simp]: "patch k [] xs = xs"
  by (simp add: patch_def)

lemma slice_append_left [slice_simps]: "k + n \<le> length xs \<Longrightarrow> slice k n (xs @ ys) = slice k n xs"
  by (simp add: slice_def)

lemma slice_append_right [slice_simps]:
  "length xs \<le> k \<Longrightarrow> slice k n (xs @ ys) = slice (k - length xs) n ys"
  by (simp add: slice_def)

lemma slice_slice: "j + m \<le> n \<Longrightarrow> slice j m (slice k n xs) = slice (k + j) m xs"
  by (simp add: slice_def drop_take min_def add.commute)

section \<open>Little-endian integers\<close>

text \<open>Both targets of the driver (x86 and Cortex-M3) are little-endian, and the packed structs are
  copied to and from the disk as they are in memory.\<close>

definition le2 :: "u16 \<Rightarrow> u8 list" where
  "le2 w = [ucast w, ucast (drop_bit 8 w)]"

definition le4 :: "u32 \<Rightarrow> u8 list" where
  "le4 w = [ucast w, ucast (drop_bit 8 w), ucast (drop_bit 16 w), ucast (drop_bit 24 w)]"

definition rd2 :: "u8 list \<Rightarrow> nat \<Rightarrow> u16" where
  "rd2 bs k = of_nat (unat (bs ! k) + 256 * unat (bs ! (k + 1)))"

definition rd4 :: "u8 list \<Rightarrow> nat \<Rightarrow> u32" where
  "rd4 bs k = of_nat (unat (bs ! k) + 256 * unat (bs ! (k + 1)) + 65536 * unat (bs ! (k + 2))
                      + 16777216 * unat (bs ! (k + 3)))"

lemma length_le2 [simp]: "length (le2 w) = 2"
  by (simp add: le2_def)

lemma length_le4 [simp]: "length (le4 w) = 4"
  by (simp add: le4_def)

lemma unat_byte: "unat (b :: u8) < 256"
  by (rule less_le_trans [OF unsigned_less]) simp

lemma unat_ucast_drop8: "unat (ucast (drop_bit n (w :: 'a::len word)) :: u8) = unat w div 2 ^ n mod 256"
  by (simp add: unsigned_ucast_eq unat_drop_bit_eq take_bit_eq_mod) (simp add: drop_bit_eq_div)

lemma le2_bytes: "map unat (le2 w) = [unat w mod 256, unat w div 256 mod 256]"
  using unat_ucast_drop8 [of 0 w] unat_ucast_drop8 [of 8 w] by (simp add: le2_def)

lemma le4_bytes:
  "map unat (le4 w) = [unat w mod 256, unat w div 256 mod 256, unat w div 65536 mod 256,
                       unat w div 16777216 mod 256]"
  using unat_ucast_drop8 [of 0 w] unat_ucast_drop8 [of 8 w] unat_ucast_drop8 [of 16 w]
    unat_ucast_drop8 [of 24 w]
  by (simp add: le4_def)

lemma unat_lt16: "unat (w :: u16) < 65536"
  by (rule less_le_trans [OF unsigned_less]) simp

lemma unat_lt32: "unat (w :: u32) < 4294967296"
  by (rule less_le_trans [OF unsigned_less]) simp

lemma digit_sum:
  "(r0::nat) + 256 * q1 = n \<Longrightarrow> r1 + 256 * q2 = q1 \<Longrightarrow> r2 + 256 * q3 = q2
   \<Longrightarrow> r0 + 256 * r1 + 65536 * r2 + 16777216 * q3 = n"
  by simp

lemma le4_digits:
  assumes "n < (4294967296::nat)"
  shows "n mod 256 + 256 * (n div 256 mod 256) + 65536 * (n div 65536 mod 256)
         + 16777216 * (n div 16777216 mod 256) = n"
proof -
  have d: "n div 65536 = n div 256 div 256" "n div 16777216 = n div 256 div 256 div 256"
    by (simp_all flip: div_mult2_eq)
  have "n div 256 div 256 div 256 < 256"
    using assms by (simp flip: div_mult2_eq)
  then have "n div 256 div 256 div 256 mod 256 = n div 256 div 256 div 256"
    by simp
  with d show ?thesis
    by (simp only: digit_sum [OF mod_mult_div_eq mod_mult_div_eq mod_mult_div_eq])
qed

lemma unat_rd2: "unat (rd2 bs k) = unat (bs ! k) + 256 * unat (bs ! (k + 1))"
  using unat_byte [of "bs ! k"] unat_byte [of "bs ! (k + 1)"]
  unfolding rd2_def by (subst unat_of_nat) simp

lemma unat_rd4:
  "unat (rd4 bs k) = unat (bs ! k) + 256 * unat (bs ! (k + 1)) + 65536 * unat (bs ! (k + 2))
                     + 16777216 * unat (bs ! (k + 3))"
  using unat_byte [of "bs ! k"] unat_byte [of "bs ! (k + 1)"] unat_byte [of "bs ! (k + 2)"]
    unat_byte [of "bs ! (k + 3)"]
  unfolding rd4_def by (subst unat_of_nat) simp

lemma rd2_le2 [simp]: "rd2 (le2 w) 0 = w"
proof -
  have "unat w mod 256 + 256 * (unat w div 256 mod 256) = unat w"
    using unat_lt16 [of w] by simp
  moreover have "unat (le2 w ! 0) = unat w mod 256" "unat (le2 w ! 1) = unat w div 256 mod 256"
    using le2_bytes [of w] by (simp_all add: le2_def)
  ultimately show ?thesis
    by (simp only: word_unat_eq_iff unat_rd2 add_0)
qed

lemma rd4_le4 [simp]: "rd4 (le4 w) 0 = w"
proof -
  note d = le4_digits [OF unat_lt32 [of w]]
  have "unat (le4 w ! 0) = unat w mod 256" "unat (le4 w ! 1) = unat w div 256 mod 256"
    "unat (le4 w ! 2) = unat w div 65536 mod 256" "unat (le4 w ! 3) = unat w div 16777216 mod 256"
    using le4_bytes [of w] by (simp_all add: le4_def)
  with d show ?thesis
    by (simp only: word_unat_eq_iff unat_rd4 add_0)
qed

lemma rd2_slice: "k + 2 \<le> length bs \<Longrightarrow> rd2 bs k = rd2 (slice k 2 bs) 0"
  by (simp add: rd2_def slice_nth numeral_2_eq_2)

lemma rd4_slice: "k + 4 \<le> length bs \<Longrightarrow> rd4 bs k = rd4 (slice k 4 bs) 0"
  by (simp add: rd4_def slice_nth)

lemma map_unat_eqD: "map unat xs = map unat (ys :: u8 list) \<Longrightarrow> xs = ys"
  by (metis inj_map_eq_map inj_unsigned)

lemma byte_div: "(r::nat) < 256 \<Longrightarrow> (r + 256 * q) div 256 = q"
  by simp

lemma byte_mod: "(r::nat) < 256 \<Longrightarrow> (r + 256 * q) mod 256 = r"
  by simp

lemma le2_rd2:
  assumes "length bs = 2"
  shows "le2 (rd2 bs 0) = bs"
proof -
  obtain a b where bs: "bs = [a, b]"
    using assms by (auto simp: length_Suc_conv numeral_2_eq_2)
  have u: "unat (rd2 bs 0) = unat a + 256 * unat b"
    by (simp add: unat_rd2 bs)
  have "map unat (le2 (rd2 bs 0)) = map unat bs"
    unfolding le2_bytes u using unat_byte [of a] unat_byte [of b] by (simp add: bs)
  then show ?thesis
    by (rule map_unat_eqD)
qed

lemma le4_rd4:
  assumes "length bs = 4"
  shows "le4 (rd4 bs 0) = bs"
proof -
  obtain a b c d where bs: "bs = [a, b, c, d]"
    using assms by (auto simp: length_Suc_conv numeral_eq_Suc)
  let ?n = "unat a + 256 * (unat b + 256 * (unat c + 256 * unat d))"
  have lt: "unat a < 256" "unat b < 256" "unat c < 256" "unat d < 256"
    by (simp_all add: unat_byte)
  have u: "unat (rd4 bs 0) = ?n"
    by (simp add: unat_rd4 bs)
  have "?n div 65536 = ?n div 256 div 256" "?n div 16777216 = ?n div 256 div 256 div 256"
    by (simp_all flip: div_mult2_eq)
  then have "map unat (le4 (rd4 bs 0)) = map unat bs"
    unfolding le4_bytes u using lt by (simp only: byte_div byte_mod bs list.map mod_less)
  then show ?thesis
    by (rule map_unat_eqD)
qed

end
