(* ===== verification/Cmonad.thy ===== *)
theory Cmonad
  imports Prelude
begin

text \<open>
  The setting in which the C functions are written down. A computation takes the state and
  either ends in a \<open>fault\<close> (undefined behaviour of C, or a loop that used up its fuel) or
  returns a value and the new state. \<open>bnd m (\<lambda>x. k)\<close> is \<open>x = m; k\<close>. The locale
  \<open>frame\<close> is the contract by which a two-state relation (nothing outside a given part of the
  state changes) is proved along a whole function body.
\<close>

section \<open>Faults and computations\<close>

datatype fault =
    Overrun          \<comment> \<open>a \<open>memcpy\<close> or index beyond the array it works on\<close>
  | Div_zero         \<comment> \<open>integer division or remainder by zero\<close>
  | Bad_shift        \<comment> \<open>a shift by at least the width, or a signed left shift that overflows\<close>
  | Uninit           \<comment> \<open>a read of an indeterminate value\<close>
  | Null_deref       \<comment> \<open>a dereference of \<open>NULL\<close>\<close>
  | Dangling_deref   \<comment> \<open>a use of memory that was freed\<close>
  | Diverges         \<comment> \<open>a loop that never ends\<close>
  | Out_of_fuel      \<comment> \<open>a loop bound given by the caller was used up\<close>

type_synonym ('s, 'a) cm = "'s \<Rightarrow> fault + ('a \<times> 's)"

definition ret :: "'a \<Rightarrow> ('s, 'a) cm" where
  "ret x = (\<lambda>s. Inr (x, s))"

definition fail :: "fault \<Rightarrow> ('s, 'a) cm" where
  "fail e = (\<lambda>s. Inl e)"

definition bnd :: "('s, 'a) cm \<Rightarrow> ('a \<Rightarrow> ('s, 'b) cm) \<Rightarrow> ('s, 'b) cm" where
  "bnd m k = (\<lambda>s. case m s of Inl e \<Rightarrow> Inl e | Inr (x, t) \<Rightarrow> k x t)"

definition seq :: "('s, unit) cm \<Rightarrow> ('s, 'b) cm \<Rightarrow> ('s, 'b) cm" where
  "seq m n = bnd m (\<lambda>_. n)"

definition gets :: "('s \<Rightarrow> 'a) \<Rightarrow> ('s, 'a) cm" where
  "gets f = (\<lambda>s. Inr (f s, s))"

definition upd :: "('s \<Rightarrow> 's) \<Rightarrow> ('s, unit) cm" where
  "upd f = (\<lambda>s. Inr ((), f s))"

definition require :: "fault \<Rightarrow> bool \<Rightarrow> ('s, unit) cm" where
  "require e b = (if b then ret () else fail e)"

definition the_init :: "'a option \<Rightarrow> ('s, 'a) cm" where
  "the_init x = (case x of None \<Rightarrow> fail Uninit | Some v \<Rightarrow> ret v)"

text \<open>Division and shifts of unsigned 32-bit values, with C's undefined cases as faults.\<close>

definition c_div :: "u32 \<Rightarrow> u32 \<Rightarrow> ('s, u32) cm" where
  "c_div a b = (if b = 0 then fail Div_zero else ret (a div b))"

definition c_mod :: "u32 \<Rightarrow> u32 \<Rightarrow> ('s, u32) cm" where
  "c_mod a b = (if b = 0 then fail Div_zero else ret (a mod b))"

definition c_shl :: "u32 \<Rightarrow> u32 \<Rightarrow> ('s, u32) cm" where
  "c_shl a n = (if unat n < 32 then ret (push_bit (unat n) a) else fail Bad_shift)"

text \<open>Loops with a known number of rounds. The body of \<open>for_break\<close> returns whether it
  left the loop by \<open>break\<close>.\<close>

primrec for_each :: "'i list \<Rightarrow> ('i \<Rightarrow> ('s, unit) cm) \<Rightarrow> ('s, unit) cm" where
  "for_each [] f = ret ()"
| "for_each (i # xs) f = seq (f i) (for_each xs f)"

primrec for_break :: "'i list \<Rightarrow> ('i \<Rightarrow> ('s, bool) cm) \<Rightarrow> ('s, unit) cm" where
  "for_break [] f = ret ()"
| "for_break (i # xs) f = bnd (f i) (\<lambda>b. if b then ret () else for_break xs f)"

primrec for_fold :: "'i list \<Rightarrow> ('i \<Rightarrow> 'a \<Rightarrow> ('s, 'a) cm) \<Rightarrow> 'a \<Rightarrow> ('s, 'a) cm" where
  "for_fold [] f a = ret a"
| "for_fold (i # xs) f a = bnd (f i a) (for_fold xs f)"

section \<open>Evaluation\<close>

lemma ret_run [simp]: "ret x s = Inr (x, s)"
  by (simp add: ret_def)

lemma fail_run [simp]: "fail e s = Inl e"
  by (simp add: fail_def)

lemma gets_run [simp]: "gets f s = Inr (f s, s)"
  by (simp add: gets_def)

lemma upd_run [simp]: "upd f s = Inr ((), f s)"
  by (simp add: upd_def)

lemma bnd_Inr [cm_simps]: "m s = Inr (x, t) \<Longrightarrow> bnd m k s = k x t"
  by (simp add: bnd_def)

lemma bnd_Inl [cm_simps]: "m s = Inl e \<Longrightarrow> bnd m k s = Inl e"
  by (simp add: bnd_def)

lemma seq_Inr [cm_simps]: "m s = Inr (x, t) \<Longrightarrow> seq m n s = n t"
  by (simp add: seq_def bnd_def)

lemma seq_Inl [cm_simps]: "m s = Inl e \<Longrightarrow> seq m n s = Inl e"
  by (simp add: seq_def bnd_def)

lemma bnd_ret [simp]: "bnd (ret x) k s = k x s"
  by (simp add: bnd_def)

lemma bnd_fail [simp]: "bnd (fail e) k s = Inl e"
  by (simp add: bnd_def)

lemma bnd_gets [simp]: "bnd (gets f) k s = k (f s) s"
  by (simp add: bnd_def)

lemma bnd_upd [simp]: "bnd (upd f) k s = k () (f s)"
  by (simp add: bnd_def)

lemma seq_upd [simp]: "seq (upd f) n s = n (f s)"
  by (simp add: seq_def)

lemma seq_ret [simp]: "seq (ret ()) n s = n s"
  by (simp add: seq_def)

lemma seq_fail [simp]: "seq (fail e) n s = Inl e"
  by (simp add: seq_def)

lemma require_run [simp]:
  "b \<Longrightarrow> require e b s = Inr ((), s)"
  "\<not> b \<Longrightarrow> require e b s = Inl e"
  "b \<Longrightarrow> seq (require e b) n s = n s"
  "\<not> b \<Longrightarrow> seq (require e b) n s = Inl e"
  by (simp_all add: require_def seq_def bnd_def)

lemma the_init_run [simp]:
  "the_init (Some v) s = Inr (v, s)"
  "the_init None s = Inl Uninit"
  "bnd (the_init (Some v)) k s = k v s"
  by (simp_all add: the_init_def bnd_def)

lemma c_div_run [cm_simps]: "b \<noteq> 0 \<Longrightarrow> c_div a b s = Inr (a div b, s)"
  by (simp add: c_div_def)

lemma c_mod_run [cm_simps]: "b \<noteq> 0 \<Longrightarrow> c_mod a b s = Inr (a mod b, s)"
  by (simp add: c_mod_def)

lemma c_shl_run [cm_simps]: "unat n < 32 \<Longrightarrow> c_shl a n s = Inr (push_bit (unat n) a, s)"
  by (simp add: c_shl_def)

lemma bnd_assoc [simp]: "bnd (bnd m f) g = bnd m (\<lambda>x. bnd (f x) g)"
  by (auto simp: bnd_def fun_eq_iff split: sum.splits)

lemma bnd_eq_Inr:
  "bnd m k s = Inr (y, u) \<longleftrightarrow> (\<exists>x t. m s = Inr (x, t) \<and> k x t = Inr (y, u))"
  by (auto simp: bnd_def split: sum.splits prod.splits)

lemma seq_eq_Inr: "seq m n s = Inr (y, u) \<longleftrightarrow> (\<exists>t. m s = Inr ((), t) \<and> n t = Inr (y, u))"
  by (auto simp: seq_def bnd_eq_Inr)

section \<open>Frames: two-state relations kept by a computation\<close>

text \<open>\<open>keeps R m\<close>: whenever \<open>m\<close> returns, its end state is related by \<open>R\<close> to its start.\<close>

definition keeps :: "('s \<Rightarrow> 's \<Rightarrow> bool) \<Rightarrow> ('s, 'a) cm \<Rightarrow> bool" where
  "keeps R m \<longleftrightarrow> (\<forall>s x t. m s = Inr (x, t) \<longrightarrow> R s t)"

lemma keepsI: "(\<And>s x t. m s = Inr (x, t) \<Longrightarrow> R s t) \<Longrightarrow> keeps R m"
  by (simp add: keeps_def)

lemma keepsD: "keeps R m \<Longrightarrow> m s = Inr (x, t) \<Longrightarrow> R s t"
  by (simp add: keeps_def)

locale frame =
  fixes R :: "'s \<Rightarrow> 's \<Rightarrow> bool"
  assumes R_refl: "R s s"
    and R_trans: "R s t \<Longrightarrow> R t u \<Longrightarrow> R s u"
begin

lemma keeps_ret: "keeps R (ret x)"
  by (simp add: keeps_def ret_def R_refl)

lemma keeps_fail: "keeps R (fail e)"
  by (simp add: keeps_def fail_def)

lemma keeps_gets: "keeps R (gets f)"
  by (simp add: keeps_def gets_def R_refl)

lemma keeps_upd: "(\<And>s. R s (f s)) \<Longrightarrow> keeps R (upd f)"
  by (simp add: keeps_def upd_def)

lemma keeps_bnd: "keeps R m \<Longrightarrow> (\<And>x. keeps R (k x)) \<Longrightarrow> keeps R (bnd m k)"
  unfolding keeps_def bnd_eq_Inr by (blast intro: R_trans)

lemma keeps_seq: "keeps R m \<Longrightarrow> keeps R n \<Longrightarrow> keeps R (seq m n)"
  unfolding keeps_def seq_eq_Inr by (blast intro: R_trans)

lemma keeps_require: "keeps R (require e b)"
  by (simp add: require_def keeps_ret keeps_fail)

lemma keeps_the_init: "keeps R (the_init x)"
  by (simp add: the_init_def keeps_ret keeps_fail split: option.split)

lemma keeps_c_div: "keeps R (c_div a b)"
  by (simp add: c_div_def keeps_ret keeps_fail)

lemma keeps_c_mod: "keeps R (c_mod a b)"
  by (simp add: c_mod_def keeps_ret keeps_fail)

lemma keeps_c_shl: "keeps R (c_shl a b)"
  by (simp add: c_shl_def keeps_ret keeps_fail)

lemma keeps_if: "(b \<Longrightarrow> keeps R m) \<Longrightarrow> (\<not> b \<Longrightarrow> keeps R n) \<Longrightarrow> keeps R (if b then m else n)"
  by simp

lemma keeps_let: "(\<And>y. keeps R (f y)) \<Longrightarrow> keeps R (let y = x in f y)"
  by (simp add: Let_def)

lemma keeps_case_option:
  "keeps R m \<Longrightarrow> (\<And>y. keeps R (f y)) \<Longrightarrow> keeps R (case x of None \<Rightarrow> m | Some y \<Rightarrow> f y)"
  by (cases x) simp_all

lemma keeps_case_prod: "(\<And>a b. keeps R (f a b)) \<Longrightarrow> keeps R (case p of (a, b) \<Rightarrow> f a b)"
  by (cases p) simp

lemma keeps_for_each: "(\<And>i. keeps R (f i)) \<Longrightarrow> keeps R (for_each xs f)"
  by (induction xs) (auto intro: keeps_ret keeps_seq)

lemma keeps_for_break: "(\<And>i. keeps R (f i)) \<Longrightarrow> keeps R (for_break xs f)"
  by (induction xs) (auto intro!: keeps_ret keeps_bnd keeps_if)

lemma keeps_for_fold: "(\<And>i a. keeps R (f i a)) \<Longrightarrow> keeps R (for_fold xs f a)"
  by (induction xs arbitrary: a) (auto intro: keeps_ret keeps_bnd)

lemmas keeps_intros =
  keeps_ret keeps_fail keeps_gets keeps_bnd keeps_seq keeps_require keeps_the_init keeps_c_div
  keeps_c_mod keeps_c_shl keeps_if keeps_let keeps_case_option keeps_case_prod keeps_for_each
  keeps_for_break keeps_for_fold

end

end
