(* ===== verification/Block_Device.thy ===== *)
theory Block_Device
  imports Cmonad
begin

text \<open>
  The interface of \<open>block.h\<close>: what the filesystem relies on from whichever block driver it is
  linked with. \<open>sector\<close> is the driver-independent view of the volume, \<open>valid\<close> the block
  numbers it holds, \<open>inv\<close> the driver's own well-formedness. The locale's lemmas are the facts
  the filesystem layer uses; \<open>Block_Pc\<close> proves the contract for the PC driver.
\<close>

definition BLOCK_SIZE :: nat where
  "BLOCK_SIZE = 512"

locale block_device =
  fixes inv :: "'d \<Rightarrow> bool"
    and valid :: "'d \<Rightarrow> u32 \<Rightarrow> bool"
    and sector :: "'d \<Rightarrow> u32 \<Rightarrow> u8 list"
    and bread :: "u32 \<Rightarrow> u8 list \<Rightarrow> ('d, int \<times> u8 list) cm"
    and bwrite :: "u32 \<Rightarrow> u8 list \<Rightarrow> ('d, int) cm"
  assumes sector_length: "inv d \<Longrightarrow> valid d b \<Longrightarrow> length (sector d b) = BLOCK_SIZE"
    and bread_ok: "inv d \<Longrightarrow> valid d b \<Longrightarrow> bread b buf d = Inr ((0, sector d b), d)"
    and bwrite_ok: "inv d \<Longrightarrow> valid d b \<Longrightarrow> length buf = BLOCK_SIZE
      \<Longrightarrow> \<exists>d'. bwrite b buf d = Inr (0, d') \<and> inv d' \<and> valid d' = valid d
            \<and> (\<forall>c. valid d c \<longrightarrow> sector d' c = (if c = b then buf else sector d c))"
begin

text \<open>Reading a block just written gives back what was written, and nothing else changed.\<close>

lemma write_read:
  assumes "inv d" "valid d b" "valid d c" "length buf = BLOCK_SIZE"
  shows "bnd (bwrite b buf) (\<lambda>_. bread c old) d
         = (case bwrite b buf d of Inl e \<Rightarrow> Inl e
            | Inr (r, d') \<Rightarrow> Inr ((0, if c = b then buf else sector d c), d'))"
proof -
  obtain d' where w: "bwrite b buf d = Inr (0, d')" and d': "inv d'" "valid d' = valid d"
    and s: "\<forall>c. valid d c \<longrightarrow> sector d' c = (if c = b then buf else sector d c)"
    using bwrite_ok [OF assms(1,2,4)] by blast
  have "bread c old d' = Inr ((0, sector d' c), d')"
    using d' assms(3) by (intro bread_ok) simp_all
  with w s assms(3) show ?thesis
    by (simp add: bnd_Inr)
qed

text \<open>A second write of the same block hides the first.\<close>

lemma write_write:
  assumes "inv d" "valid d b" "valid d c" "length x = BLOCK_SIZE" "length y = BLOCK_SIZE"
  shows "\<exists>d1 d2. bwrite b x d = Inr (0, d1) \<and> bwrite b y d1 = Inr (0, d2)
           \<and> inv d2 \<and> sector d2 c = (if c = b then y else sector d c)"
proof -
  obtain d1 where w1: "bwrite b x d = Inr (0, d1)" and d1: "inv d1" "valid d1 = valid d"
    and s1: "\<forall>c. valid d c \<longrightarrow> sector d1 c = (if c = b then x else sector d c)"
    using bwrite_ok [OF assms(1,2,4)] by blast
  have "valid d1 b"
    using d1 assms(2) by simp
  then obtain d2 where w2: "bwrite b y d1 = Inr (0, d2)" "inv d2"
    and s2: "\<forall>c. valid d1 c \<longrightarrow> sector d2 c = (if c = b then y else sector d1 c)"
    using bwrite_ok [OF d1(1) _ assms(5)] by blast
  from s1 s2 d1 assms(3) have "sector d2 c = (if c = b then y else sector d c)"
    by simp
  with w1 w2 show ?thesis by blast
qed

end

end
