(* ===== verification/Block_Pc.thy ===== *)
theory Block_Pc
  imports Block_Device
begin

text \<open>
  \<open>src/src/block_drivers/block_pc.c\<close>, the block driver of the host build: the volume is an
  image file read into one heap array. \<open>pc_dev\<close> holds the driver's static variables. Block
  numbers are \<open>uint32_t\<close> and the products with \<open>BLOCK_SIZE\<close> wrap as they do in C, while the
  comparison with \<open>block_fs_size\<close> is in 64 bits.
\<close>

section \<open>State\<close>

text \<open>The pointer \<open>blocks\<close>: \<open>NULL\<close>, an array from \<open>malloc\<close>, or one that was freed.\<close>

datatype pc_mem = Null | Freed | Mem "u8 list"

record pc_dev =
  block_fs_size :: u64
  blocks :: pc_mem
  block_ro :: int
  image_name :: "string option"

definition pc_initial :: pc_dev where
  "pc_initial = \<lparr>block_fs_size = 0, blocks = Null, block_ro = 0, image_name = None\<rparr>"

text \<open>\<open>memcpy\<close> out of and into the array behind \<open>blocks\<close>.\<close>

definition pc_copy_out :: "nat \<Rightarrow> nat \<Rightarrow> (pc_dev, u8 list) cm" where
  "pc_copy_out k n = bnd (gets blocks) (\<lambda>p. case p of
     Null \<Rightarrow> fail Null_deref
   | Freed \<Rightarrow> fail Dangling_deref
   | Mem bs \<Rightarrow> if k + n \<le> length bs then ret (slice k n bs) else fail Overrun)"

definition pc_copy_in :: "nat \<Rightarrow> u8 list \<Rightarrow> (pc_dev, unit) cm" where
  "pc_copy_in k xs = bnd (gets blocks) (\<lambda>p. case p of
     Null \<Rightarrow> fail Null_deref
   | Freed \<Rightarrow> fail Dangling_deref
   | Mem bs \<Rightarrow> if k + length xs \<le> length bs then upd (blocks_update (\<lambda>_. Mem (patch k xs bs)))
              else fail Overrun)"

section \<open>Operations\<close>

definition block_pc_set_image_name :: "string \<Rightarrow> pc_dev \<Rightarrow> pc_dev" where
  "block_pc_set_image_name filename d = d\<lparr>image_name := Some filename\<rparr>"

text \<open>\<open>block_init\<close>: \<open>files\<close> says which images can be opened and what they hold, \<open>malloc_ok\<close>
  whether the allocation succeeds and \<open>nread\<close> how many bytes \<open>fread\<close> delivers.\<close>

definition block_init :: "(string \<Rightarrow> u8 list option) \<Rightarrow> bool \<Rightarrow> nat \<Rightarrow> (pc_dev, int) cm" where
  "block_init files malloc_ok nread =
     bnd (gets image_name) (\<lambda>name.
     bnd (case name of None \<Rightarrow> fail Null_deref | Some f \<Rightarrow> ret (files f)) (\<lambda>image.
     case image of
       None \<Rightarrow> ret (-1)
     | Some bs \<Rightarrow>
         seq (upd (block_fs_size_update (\<lambda>_. of_nat (length bs))))
         (bnd (gets block_fs_size) (\<lambda>size.
         if \<not> size < 2048 * 1024 * 1024 then ret (-1)
         else if \<not> malloc_ok then seq (upd (blocks_update (\<lambda>_. Null))) (ret (-1))
         else if of_nat nread < size then seq (upd (blocks_update (\<lambda>_. Freed))) (ret (-1))
         else seq (upd (blocks_update (\<lambda>_. Mem bs))) (ret 0)))))"

definition block_halt :: "(pc_dev, int) cm" where
  "block_halt = bnd (gets blocks) (\<lambda>p. case p of
     Null \<Rightarrow> ret 0
   | Freed \<Rightarrow> fail Dangling_deref
   | Mem _ \<Rightarrow> seq (upd (blocks_update (\<lambda>_. Freed))) (ret 0))"

text \<open>The bounds check shared by both transfers: \<open>(block + 1) * BLOCK_SIZE - 1 > block_fs_size\<close>,
  the left side an unsigned 32-bit value.\<close>

definition pc_past_end :: "u32 \<Rightarrow> u64 \<Rightarrow> bool" where
  "pc_past_end block sz = (ucast ((block + 1) * 512 - 1 :: u32) > sz)"

definition block_read :: "u32 \<Rightarrow> u8 list \<Rightarrow> (pc_dev, int \<times> u8 list) cm" where
  "block_read block buffer =
     bnd (gets block_fs_size) (\<lambda>size.
     if pc_past_end block size then ret (-1, buffer)
     else bnd (pc_copy_out (unat (block * 512)) BLOCK_SIZE) (\<lambda>bs. ret (0, bs)))"

definition block_write :: "u32 \<Rightarrow> u8 list \<Rightarrow> (pc_dev, int) cm" where
  "block_write block buffer =
     bnd (gets block_fs_size) (\<lambda>size.
     if pc_past_end block size then ret (-1)
     else seq (pc_copy_in (unat (block * 512)) buffer) (ret 0))"

definition block_get_volume_size :: "pc_dev \<Rightarrow> u32" where
  "block_get_volume_size d = ucast (block_fs_size d div 512)"

definition block_get_block_size :: u32 where
  "block_get_block_size = 512"

definition block_get_device_read_only :: "pc_dev \<Rightarrow> int" where
  "block_get_device_read_only d = block_ro d"

definition block_pc_set_ro :: "pc_dev \<Rightarrow> pc_dev" where
  "block_pc_set_ro d = d\<lparr>block_ro := - 1\<rparr>"

definition block_pc_set_rw :: "pc_dev \<Rightarrow> pc_dev" where
  "block_pc_set_rw d = d\<lparr>block_ro := 0\<rparr>"

text \<open>The snapshot functions return what they write to the file, if it can be created.\<close>

definition block_pc_snapshot :: "bool \<Rightarrow> u64 \<Rightarrow> u64 \<Rightarrow> (pc_dev, int \<times> u8 list) cm" where
  "block_pc_snapshot fopen_ok start len =
     (if \<not> fopen_ok then ret (-1, [])
      else bnd (pc_copy_out (unat start) (unat len)) (\<lambda>bs. ret (0, bs)))"

definition block_pc_snapshot_all :: "bool \<Rightarrow> (pc_dev, int \<times> u8 list) cm" where
  "block_pc_snapshot_all fopen_ok =
     bnd (gets block_fs_size) (\<lambda>size. block_pc_snapshot fopen_ok 0 size)"

section \<open>The block contract\<close>

definition pc_ok :: "pc_dev \<Rightarrow> bool" where
  "pc_ok d = (case blocks d of
     Mem bs \<Rightarrow> length bs = unat (block_fs_size d) \<and> unat (block_fs_size d) < 2 ^ 31
   | _ \<Rightarrow> False)"

definition pc_valid :: "pc_dev \<Rightarrow> u32 \<Rightarrow> bool" where
  "pc_valid d b = ((unat b + 1) * BLOCK_SIZE \<le> unat (block_fs_size d))"

definition pc_sector :: "pc_dev \<Rightarrow> u32 \<Rightarrow> u8 list" where
  "pc_sector d b = (case blocks d of Mem bs \<Rightarrow> slice (unat b * BLOCK_SIZE) BLOCK_SIZE bs | _ \<Rightarrow> [])"

lemma pc_okE:
  assumes "pc_ok d"
  obtains bs where "blocks d = Mem bs" "length bs = unat (block_fs_size d)" "unat (block_fs_size d) < 2 ^ 31"
  using assms by (cases "blocks d") (auto simp: pc_ok_def)

lemma block_end_unat:
  assumes "unat (b :: u32) < 2 ^ 23"
  shows "unat ((b + 1) * 512 - 1) = (unat b + 1) * 512 - 1"
proof -
  have "(b + 1) * 512 - 1 = of_nat ((unat b + 1) * 512 - 1)"
    by (subst of_nat_diff) (simp_all add: ucast_id)
  then have "unat ((b + 1) * 512 - 1) = ((unat b + 1) * 512 - 1) mod 2 ^ 32"
    by (simp only: unat_of_nat) simp
  with assms show ?thesis
    by simp
qed

lemma block_start_unat:
  assumes "unat (b :: u32) < 2 ^ 23"
  shows "unat (b * 512) = unat b * 512"
  using assms by (simp add: unat_word_ariths(2))

lemma pc_valid_bound: "pc_ok d \<Longrightarrow> pc_valid d b \<Longrightarrow> unat b < 2 ^ 22"
  by (auto simp: pc_valid_def BLOCK_SIZE_def elim!: pc_okE)

lemma pc_past_end_iff:
  assumes "unat b < 2 ^ 23"
  shows "pc_past_end b sz \<longleftrightarrow> unat sz + 1 < (unat b + 1) * BLOCK_SIZE"
proof -
  let ?e = "(b + 1) * 512 - 1 :: u32"
  have "unat (ucast ?e :: u64) = unat ?e"
    by (simp only: unsigned_ucast_eq) (simp add: take_bit_nat_eq_self less_le_trans [OF unsigned_less])
  then show ?thesis
    unfolding pc_past_end_def word_less_nat_alt block_end_unat [OF assms] BLOCK_SIZE_def by auto
qed

lemma block_read_exact:
  assumes "blocks d = Mem bs" and "length bs = unat (block_fs_size d)" and "unat b < 2 ^ 23"
  shows "block_read b buf d =
    (if unat (block_fs_size d) + 1 < (unat b + 1) * BLOCK_SIZE then Inr ((-1, buf), d)
     else if (unat b + 1) * BLOCK_SIZE \<le> unat (block_fs_size d) then Inr ((0, pc_sector d b), d)
     else Inl Overrun)"
  using assms(1,2)
  by (auto simp: block_read_def pc_past_end_iff [OF assms(3)] block_start_unat [OF assms(3)] BLOCK_SIZE_def
        pc_copy_out_def pc_sector_def bnd_def)

lemma block_write_exact:
  assumes "blocks d = Mem bs" and "length bs = unat (block_fs_size d)" and "unat b < 2 ^ 23"
    and "length buf = BLOCK_SIZE"
  shows "block_write b buf d =
    (if unat (block_fs_size d) + 1 < (unat b + 1) * BLOCK_SIZE then Inr (-1, d)
     else if (unat b + 1) * BLOCK_SIZE \<le> unat (block_fs_size d)
     then Inr (0, d\<lparr>blocks := Mem (patch (unat b * BLOCK_SIZE) buf bs)\<rparr>)
     else Inl Overrun)"
  using assms(1,2,4)
  by (auto simp: block_write_def pc_past_end_iff [OF assms(3)] block_start_unat [OF assms(3)] BLOCK_SIZE_def
        pc_copy_in_def bnd_def seq_def)

lemma pc_sector_length: "pc_ok d \<Longrightarrow> pc_valid d b \<Longrightarrow> length (pc_sector d b) = BLOCK_SIZE"
  by (auto simp: pc_sector_def pc_valid_def BLOCK_SIZE_def elim!: pc_okE)

lemma block_read_ok: "pc_ok d \<Longrightarrow> pc_valid d b \<Longrightarrow> block_read b buf d = Inr ((0, pc_sector d b), d)"
  using pc_valid_bound [of d b] by (auto simp: block_read_exact pc_valid_def elim!: pc_okE)

lemma sectors_disjoint: "b \<noteq> (c :: nat) \<Longrightarrow> b * 512 + 512 \<le> c * 512 \<or> c * 512 + 512 \<le> b * 512"
  by linarith

text \<open>The device after a transfer into block \<open>b\<close>, and its sectors.\<close>

definition pc_put :: "u32 \<Rightarrow> u8 list \<Rightarrow> pc_dev \<Rightarrow> pc_dev" where
  "pc_put b buf d = (case blocks d of
     Mem bs \<Rightarrow> d\<lparr>blocks := Mem (patch (unat b * BLOCK_SIZE) buf bs)\<rparr> | _ \<Rightarrow> d)"

lemma block_write_put:
  assumes "pc_ok d" "pc_valid d b" "length buf = BLOCK_SIZE"
  shows "block_write b buf d = Inr (0, pc_put b buf d)"
proof -
  obtain bs where bs: "blocks d = Mem bs" "length bs = unat (block_fs_size d)" "unat (block_fs_size d) < 2 ^ 31"
    using assms(1) by (rule pc_okE)
  then show ?thesis
    using pc_valid_bound [OF assms(1,2)] assms(2,3)
    by (simp add: block_write_exact [OF bs(1,2)] pc_valid_def pc_put_def)
qed

lemma pc_put_fields [simp]:
  "block_fs_size (pc_put b x d) = block_fs_size d"
  "block_ro (pc_put b x d) = block_ro d"
  "image_name (pc_put b x d) = image_name d"
  by (simp_all add: pc_put_def split: pc_mem.split)

lemma pc_valid_put [simp]: "pc_valid (pc_put b x d) = pc_valid d"
  by (simp add: pc_valid_def fun_eq_iff)

lemma pc_ok_put: "pc_ok d \<Longrightarrow> pc_valid d b \<Longrightarrow> length x = BLOCK_SIZE \<Longrightarrow> pc_ok (pc_put b x d)"
  by (auto simp: pc_ok_def pc_put_def pc_valid_def BLOCK_SIZE_def split: pc_mem.splits)

lemma pc_sector_put:
  assumes "pc_ok d" "pc_valid d b" "pc_valid d c" "length x = BLOCK_SIZE"
  shows "pc_sector (pc_put b x d) c = (if c = b then x else pc_sector d c)"
proof -
  obtain bs where bs: "blocks d = Mem bs" "length bs = unat (block_fs_size d)"
    using assms(1) by (rule pc_okE)
  have len: "unat b * 512 + 512 \<le> length bs" "unat c * 512 + 512 \<le> length bs" "length x = 512"
    using assms bs by (simp_all add: pc_valid_def BLOCK_SIZE_def)
  show ?thesis
  proof (cases "c = b")
    case True
    with bs len show ?thesis
      by (simp add: pc_sector_def pc_put_def BLOCK_SIZE_def slice_simps)
  next
    case False
    then have "unat c * 512 + 512 \<le> unat b * 512 \<or> unat b * 512 + 512 \<le> unat c * 512"
      by (metis sectors_disjoint word_unat_eq_iff)
    with False len bs show ?thesis
      by (simp add: pc_sector_def pc_put_def BLOCK_SIZE_def slice_simps)
  qed
qed

lemma block_write_ok:
  "pc_ok d \<Longrightarrow> pc_valid d b \<Longrightarrow> length buf = BLOCK_SIZE
   \<Longrightarrow> \<exists>d'. block_write b buf d = Inr (0, d') \<and> pc_ok d' \<and> pc_valid d' = pc_valid d
        \<and> (\<forall>c. pc_valid d c \<longrightarrow> pc_sector d' c = (if c = b then buf else pc_sector d c))"
  by (simp add: block_write_put pc_ok_put pc_sector_put)

interpretation pc: block_device pc_ok pc_valid pc_sector block_read block_write
  by unfold_locales (simp_all add: pc_sector_length block_read_ok block_write_ok)

text \<open>The operations that change the driver's state keep its shape.\<close>

definition same_volume :: "pc_dev \<Rightarrow> pc_dev \<Rightarrow> bool" where
  "same_volume d e \<longleftrightarrow> block_fs_size e = block_fs_size d \<and> block_ro e = block_ro d
     \<and> image_name e = image_name d
     \<and> (case (blocks d, blocks e) of
          (Mem bs, Mem cs) \<Rightarrow> length bs = length cs
        | (p, q) \<Rightarrow> p = q)"

interpretation pc_frame: frame same_volume
  by unfold_locales (auto simp: same_volume_def split: pc_mem.splits)

lemma pc_copy_out_id: "pc_copy_out k n d = Inr (x, e) \<Longrightarrow> e = d"
  by (auto simp: pc_copy_out_def split: pc_mem.splits if_splits)

lemma block_read_id: "block_read b buf d = Inr (x, e) \<Longrightarrow> e = d"
  by (auto simp: block_read_def bnd_eq_Inr split: if_splits dest: pc_copy_out_id)

lemma block_write_same_volume: "keeps same_volume (block_write b buf)"
  by (auto simp: keeps_def block_write_def pc_copy_in_def bnd_eq_Inr seq_eq_Inr same_volume_def
        split: if_splits pc_mem.splits)

lemma same_volume_ok: "same_volume d e \<Longrightarrow> pc_ok d \<Longrightarrow> pc_ok e"
  by (auto simp: same_volume_def pc_ok_def split: pc_mem.splits)

lemma same_volume_valid: "same_volume d e \<Longrightarrow> pc_valid e = pc_valid d"
  by (simp add: same_volume_def pc_valid_def fun_eq_iff)

lemma block_init_ok:
  "(\<And>f bs. files f = Some bs \<Longrightarrow> length bs < 2 ^ 63) \<Longrightarrow> block_init files m n d = Inr (0, e)
   \<Longrightarrow> pc_ok e"
  by (fastforce simp: block_init_def bnd_eq_Inr seq_eq_Inr pc_ok_def unat_of_nat word_less_nat_alt
        split: option.splits if_splits)

section \<open>The properties\<close>

text \<open>A device with an image of four blocks.\<close>

definition pc_demo :: pc_dev where
  "pc_demo = \<lparr>block_fs_size = 2048, blocks = Mem (replicate 2048 3), block_ro = 0, image_name = None\<rparr>"

lemma pc_demo_ok [simp]: "pc_ok pc_demo" "pc_valid pc_demo 0" "pc_valid pc_demo 1"
  by (simp_all add: pc_demo_def pc_ok_def pc_valid_def BLOCK_SIZE_def)

text \<open>C25: a block that was written is read back, and a write of one block leaves every other block of the
  volume as it was.\<close>

theorem block_write_then_read:
  assumes "pc_ok d" "pc_valid d b" "pc_valid d c" "length buf = 512"
  shows "\<exists>d'. bnd (block_write b buf) (\<lambda>_. block_read c old) d
      = Inr ((0, if c = b then buf else pc_sector d c), d') \<and> pc_ok d' \<and> same_volume d d'"
  using pc.write_read [OF assms(1,2,3), of buf old] block_write_put [OF assms(1,2), of buf]
    pc_ok_put [OF assms(1,2), of buf] keepsD [OF block_write_same_volume, of b buf d] assms(4)
  by (simp add: BLOCK_SIZE_def)

lemma block_write_then_read_witness:
  "\<exists>d'. bnd (block_write 1 (replicate 512 5)) (\<lambda>_. block_read 1 []) pc_demo = Inr ((0, replicate 512 5), d')"
  using block_write_then_read [of pc_demo 1 1 "replicate 512 5" "[]"] by auto

text \<open>What a transfer does for every block number below \<open>2 ^ 23\<close>: blocks inside the image succeed,
  those whose last byte is beyond it are refused, and the one block whose last byte would be the
  first byte after the image slips through the check and overruns the array.\<close>

theorem block_read_total:
  assumes "pc_ok d" "unat b < 2 ^ 23"
  shows "block_read b buf d =
    (if pc_valid d b then Inr ((0, pc_sector d b), d)
     else if (unat b + 1) * 512 = unat (block_fs_size d) + 1 then Inl Overrun
     else Inr ((-1, buf), d))"
proof -
  obtain bs where "blocks d = Mem bs" "length bs = unat (block_fs_size d)"
    using assms(1) by (rule pc_okE)
  then show ?thesis
    using block_read_exact [of d bs b buf] assms(2) by (auto simp: pc_valid_def BLOCK_SIZE_def)
qed

lemma block_read_total_witness:
  "block_read 4 [] pc_demo = Inr ((-1, []), pc_demo) \<and> block_read 0 [] pc_demo = Inr ((0, pc_sector pc_demo 0), pc_demo)"
  using block_read_total [of pc_demo 4 "[]"] block_read_total [of pc_demo 0 "[]"]
  by (simp add: pc_valid_def BLOCK_SIZE_def) (simp add: pc_demo_def)

text \<open>The product of a block number with 512 wraps at 32 bits, so a block number plus \<open>2 ^ 23\<close> is never
  refused for being beyond the image: it reads and writes the same block.\<close>

theorem block_numbers_alias:
  "block_read (b + 0x800000) buf d = block_read b buf d \<and> block_write (b + 0x800000) buf d = block_write b buf d"
proof -
  have w: "(b + 0x800000) * 512 = b * 512" "(b + 0x800000 + 1) * 512 - 1 = (b + 1) * 512 - (1 :: u32)"
    by (simp_all add: distrib_right)
  show ?thesis
    by (simp only: block_read_def block_write_def pc_past_end_def w simp_thms)
qed

end
