(* ===== verification/Ext2_Layout.thy ===== *)
theory Ext2_Layout
  imports Prelude
begin

text \<open>
  The packed on-disk structures of \<open>src/src/embext.h\<close> and \<open>embext_directory.h\<close> as records,
  with the \<open>memcpy\<close> between a struct and its bytes as a decoder and an encoder (little-endian,
  no padding). \<open>wf_*\<close> says that the array members have their declared lengths; the lemmas show
  the sizes the code relies on and that the two directions are inverse to each other.
\<close>

section \<open>\<open>struct superblock\<close>\<close>

record superblock =
  s_inodes_count :: u32
  s_blocks_count :: u32
  s_r_blocks_count :: u32
  s_free_blocks_count :: u32
  s_free_inodes_count :: u32
  s_first_data_block :: u32
  s_log_block_size :: u32
  s_log_frag_size :: u32
  s_blocks_per_group :: u32
  s_frags_per_group :: u32
  s_inodes_per_group :: u32
  s_mtime :: u32
  s_wtime :: u32
  s_mnt_count :: u16
  s_max_mnt_count :: u16
  s_magic :: u16
  s_state :: u16
  s_errors :: u16
  s_minor_rev_level :: u16
  s_lastcheck :: u32
  s_checkinterval :: u32
  s_creator_os :: u32
  s_rev_level :: u32
  s_def_resuid :: u16
  s_def_resgid :: u16
  s_first_ino :: u32
  s_inode_size :: u16
  s_block_group_nr :: u16
  s_feature_compat :: u32
  s_feature_incompat :: u32
  s_feature_ro_compat :: u32
  s_uuid :: "u8 list"
  s_volume_name :: "u8 list"
  s_last_mounted :: "u8 list"
  s_algo_bitmap :: u32
  s_prealloc_blocks :: u8
  s_prealloc_dir_blocks :: u8
  alignment1 :: "u8 list"
  s_journal_uuid :: "u8 list"
  s_journal_inum :: u32
  s_journal_dev :: u32
  s_last_orphan :: u32
  s_hash_seed :: "u32 list"
  s_def_hash_version :: u8
  alignment2 :: "u8 list"
  s_default_mount_options :: u32
  s_first_meta_bg :: u32

definition decode_superblock :: "u8 list \<Rightarrow> superblock" where
  "decode_superblock bs = \<lparr>
     s_inodes_count = rd4 bs 0,
     s_blocks_count = rd4 bs 4,
     s_r_blocks_count = rd4 bs 8,
     s_free_blocks_count = rd4 bs 12,
     s_free_inodes_count = rd4 bs 16,
     s_first_data_block = rd4 bs 20,
     s_log_block_size = rd4 bs 24,
     s_log_frag_size = rd4 bs 28,
     s_blocks_per_group = rd4 bs 32,
     s_frags_per_group = rd4 bs 36,
     s_inodes_per_group = rd4 bs 40,
     s_mtime = rd4 bs 44,
     s_wtime = rd4 bs 48,
     s_mnt_count = rd2 bs 52,
     s_max_mnt_count = rd2 bs 54,
     s_magic = rd2 bs 56,
     s_state = rd2 bs 58,
     s_errors = rd2 bs 60,
     s_minor_rev_level = rd2 bs 62,
     s_lastcheck = rd4 bs 64,
     s_checkinterval = rd4 bs 68,
     s_creator_os = rd4 bs 72,
     s_rev_level = rd4 bs 76,
     s_def_resuid = rd2 bs 80,
     s_def_resgid = rd2 bs 82,
     s_first_ino = rd4 bs 84,
     s_inode_size = rd2 bs 88,
     s_block_group_nr = rd2 bs 90,
     s_feature_compat = rd4 bs 92,
     s_feature_incompat = rd4 bs 96,
     s_feature_ro_compat = rd4 bs 100,
     s_uuid = slice 104 16 bs,
     s_volume_name = slice 120 16 bs,
     s_last_mounted = slice 136 64 bs,
     s_algo_bitmap = rd4 bs 200,
     s_prealloc_blocks = bs ! 204,
     s_prealloc_dir_blocks = bs ! 205,
     alignment1 = slice 206 2 bs,
     s_journal_uuid = slice 208 16 bs,
     s_journal_inum = rd4 bs 224,
     s_journal_dev = rd4 bs 228,
     s_last_orphan = rd4 bs 232,
     s_hash_seed = map (\<lambda>i. rd4 bs (236 + 4 * i)) [0..<4],
     s_def_hash_version = bs ! 252,
     alignment2 = slice 253 3 bs,
     s_default_mount_options = rd4 bs 256,
     s_first_meta_bg = rd4 bs 260\<rparr>"

definition encode_superblock :: "superblock \<Rightarrow> u8 list" where
  "encode_superblock r =
     le4 (s_inodes_count r) @
     le4 (s_blocks_count r) @
     le4 (s_r_blocks_count r) @
     le4 (s_free_blocks_count r) @
     le4 (s_free_inodes_count r) @
     le4 (s_first_data_block r) @
     le4 (s_log_block_size r) @
     le4 (s_log_frag_size r) @
     le4 (s_blocks_per_group r) @
     le4 (s_frags_per_group r) @
     le4 (s_inodes_per_group r) @
     le4 (s_mtime r) @
     le4 (s_wtime r) @
     le2 (s_mnt_count r) @
     le2 (s_max_mnt_count r) @
     le2 (s_magic r) @
     le2 (s_state r) @
     le2 (s_errors r) @
     le2 (s_minor_rev_level r) @
     le4 (s_lastcheck r) @
     le4 (s_checkinterval r) @
     le4 (s_creator_os r) @
     le4 (s_rev_level r) @
     le2 (s_def_resuid r) @
     le2 (s_def_resgid r) @
     le4 (s_first_ino r) @
     le2 (s_inode_size r) @
     le2 (s_block_group_nr r) @
     le4 (s_feature_compat r) @
     le4 (s_feature_incompat r) @
     le4 (s_feature_ro_compat r) @
     s_uuid r @
     s_volume_name r @
     s_last_mounted r @
     le4 (s_algo_bitmap r) @
     [s_prealloc_blocks r] @
     [s_prealloc_dir_blocks r] @
     alignment1 r @
     s_journal_uuid r @
     le4 (s_journal_inum r) @
     le4 (s_journal_dev r) @
     le4 (s_last_orphan r) @
     concat (map le4 (s_hash_seed r)) @
     [s_def_hash_version r] @
     alignment2 r @
     le4 (s_default_mount_options r) @
     le4 (s_first_meta_bg r)"

definition wf_superblock :: "superblock \<Rightarrow> bool" where
  "wf_superblock r \<longleftrightarrow> length (s_uuid r) = 16
     \<and> length (s_volume_name r) = 16
     \<and> length (s_last_mounted r) = 64
     \<and> length (alignment1 r) = 2
     \<and> length (s_journal_uuid r) = 16
     \<and> length (s_hash_seed r) = 4
     \<and> length (alignment2 r) = 3"

definition sizeof_superblock :: nat where
  "sizeof_superblock = 264"

section \<open>\<open>struct block_group_descriptor\<close>\<close>

record block_group_descriptor =
  bg_block_bitmap :: u32
  bg_inode_bitmap :: u32
  bg_inode_table :: u32
  bg_free_blocks_count :: u16
  bg_free_inodes_count :: u16
  bg_used_dirs_count :: u16
  bg_pad :: u16
  bg_reserved :: "u8 list"

definition decode_block_group_descriptor :: "u8 list \<Rightarrow> block_group_descriptor" where
  "decode_block_group_descriptor bs = \<lparr>
     bg_block_bitmap = rd4 bs 0,
     bg_inode_bitmap = rd4 bs 4,
     bg_inode_table = rd4 bs 8,
     bg_free_blocks_count = rd2 bs 12,
     bg_free_inodes_count = rd2 bs 14,
     bg_used_dirs_count = rd2 bs 16,
     bg_pad = rd2 bs 18,
     bg_reserved = slice 20 12 bs\<rparr>"

definition encode_block_group_descriptor :: "block_group_descriptor \<Rightarrow> u8 list" where
  "encode_block_group_descriptor r =
     le4 (bg_block_bitmap r) @
     le4 (bg_inode_bitmap r) @
     le4 (bg_inode_table r) @
     le2 (bg_free_blocks_count r) @
     le2 (bg_free_inodes_count r) @
     le2 (bg_used_dirs_count r) @
     le2 (bg_pad r) @
     bg_reserved r"

definition wf_block_group_descriptor :: "block_group_descriptor \<Rightarrow> bool" where
  "wf_block_group_descriptor r \<longleftrightarrow> length (bg_reserved r) = 12"

definition sizeof_block_group_descriptor :: nat where
  "sizeof_block_group_descriptor = 32"

section \<open>\<open>struct inode\<close>\<close>

record inode =
  i_mode :: u16
  i_uid :: u16
  i_size :: u32
  i_atime :: u32
  i_ctime :: u32
  i_mtime :: u32
  i_dtime :: u32
  i_gid :: u16
  i_links_count :: u16
  i_blocks :: u32
  i_flags :: u32
  i_osd1 :: u32
  i_block :: "u32 list"
  i_generation :: u32
  i_file_acl :: u32
  i_dir_acl :: u32
  i_faddr :: u32
  i_osd2 :: "u8 list"

definition decode_inode :: "u8 list \<Rightarrow> inode" where
  "decode_inode bs = \<lparr>
     i_mode = rd2 bs 0,
     i_uid = rd2 bs 2,
     i_size = rd4 bs 4,
     i_atime = rd4 bs 8,
     i_ctime = rd4 bs 12,
     i_mtime = rd4 bs 16,
     i_dtime = rd4 bs 20,
     i_gid = rd2 bs 24,
     i_links_count = rd2 bs 26,
     i_blocks = rd4 bs 28,
     i_flags = rd4 bs 32,
     i_osd1 = rd4 bs 36,
     i_block = map (\<lambda>i. rd4 bs (40 + 4 * i)) [0..<15],
     i_generation = rd4 bs 100,
     i_file_acl = rd4 bs 104,
     i_dir_acl = rd4 bs 108,
     i_faddr = rd4 bs 112,
     i_osd2 = slice 116 12 bs\<rparr>"

definition encode_inode :: "inode \<Rightarrow> u8 list" where
  "encode_inode r =
     le2 (i_mode r) @
     le2 (i_uid r) @
     le4 (i_size r) @
     le4 (i_atime r) @
     le4 (i_ctime r) @
     le4 (i_mtime r) @
     le4 (i_dtime r) @
     le2 (i_gid r) @
     le2 (i_links_count r) @
     le4 (i_blocks r) @
     le4 (i_flags r) @
     le4 (i_osd1 r) @
     concat (map le4 (i_block r)) @
     le4 (i_generation r) @
     le4 (i_file_acl r) @
     le4 (i_dir_acl r) @
     le4 (i_faddr r) @
     i_osd2 r"

definition wf_inode :: "inode \<Rightarrow> bool" where
  "wf_inode r \<longleftrightarrow> length (i_block r) = 15
     \<and> length (i_osd2 r) = 12"

definition sizeof_inode :: nat where
  "sizeof_inode = 128"

section \<open>\<open>struct dir_header\<close>\<close>

record dir_header =
  dh_inode :: u32
  dh_rec_len :: u16
  dh_name_len :: u8
  dh_file_type :: u8

definition decode_dir_header :: "u8 list \<Rightarrow> dir_header" where
  "decode_dir_header bs = \<lparr>
     dh_inode = rd4 bs 0,
     dh_rec_len = rd2 bs 4,
     dh_name_len = bs ! 6,
     dh_file_type = bs ! 7\<rparr>"

definition encode_dir_header :: "dir_header \<Rightarrow> u8 list" where
  "encode_dir_header r =
     le4 (dh_inode r) @
     le2 (dh_rec_len r) @
     [dh_name_len r] @
     [dh_file_type r]"

definition sizeof_dir_header :: nat where
  "sizeof_dir_header = 8"

section \<open>\<open>struct dirent\<close>\<close>

text \<open>\<open>src/src/dirent.h\<close>: \<open>d_ino\<close> is kept as its 32 bits and read as a signed value,
  \<open>d_name\<close> is the 256-byte array.\<close>

record dirent =
  d_ino :: u32
  d_name :: "u8 list"

definition MAXNAMLEN :: nat where
  "MAXNAMLEN = 255"

section \<open>Round trips\<close>

lemma rd4_append_left [le_simps]: "k + 4 \<le> length xs \<Longrightarrow> rd4 (xs @ ys) k = rd4 xs k"
  by (simp add: rd4_def nth_append)

lemma rd4_append_right [le_simps]: "length xs \<le> k \<Longrightarrow> rd4 (xs @ ys) k = rd4 ys (k - length xs)"
  by (simp add: rd4_def nth_append Suc_diff_le)

lemma rd2_append_left [le_simps]: "k + 2 \<le> length xs \<Longrightarrow> rd2 (xs @ ys) k = rd2 xs k"
  by (simp add: rd2_def nth_append)

lemma rd2_append_right [le_simps]: "length xs \<le> k \<Longrightarrow> rd2 (xs @ ys) k = rd2 ys (k - length xs)"
  by (simp add: rd2_def nth_append Suc_diff_le)

lemma nth_append_left: "k < length xs \<Longrightarrow> (xs @ ys) ! k = xs ! k"
  by (simp add: nth_append)

lemma nth_append_right: "length xs \<le> k \<Longrightarrow> (xs @ ys) ! k = ys ! (k - length xs)"
  by (simp add: nth_append)

lemma length_concat_le4 [simp]: "length (concat (map le4 ws)) = 4 * length ws"
  by (induction ws) simp_all

lemma rd4_concat_le4: "i < length ws \<Longrightarrow> rd4 (concat (map le4 ws)) (4 * i) = ws ! i"
proof (induction ws arbitrary: i)
  case Nil
  then show ?case by simp
next
  case (Cons w ws)
  then show ?case
    by (cases i) (simp_all add: rd4_append_left rd4_append_right)
qed







lemma length_encode_block_group_descriptor [simp]:
  "wf_block_group_descriptor r \<Longrightarrow> length (encode_block_group_descriptor r) = sizeof_block_group_descriptor"
  by (simp add: encode_block_group_descriptor_def wf_block_group_descriptor_def
        sizeof_block_group_descriptor_def)

lemma length_encode_inode [simp]: "wf_inode r \<Longrightarrow> length (encode_inode r) = sizeof_inode"
  by (simp add: encode_inode_def wf_inode_def sizeof_inode_def)

lemma length_encode_dir_header [simp]: "length (encode_dir_header r) = sizeof_dir_header"
  by (simp add: encode_dir_header_def sizeof_dir_header_def)

lemma length_encode_superblock [simp]: "wf_superblock r \<Longrightarrow> length (encode_superblock r) = sizeof_superblock"
  by (simp add: encode_superblock_def wf_superblock_def sizeof_superblock_def)

lemma wf_decode_block_group_descriptor [simp]:
  "sizeof_block_group_descriptor \<le> length bs \<Longrightarrow> wf_block_group_descriptor (decode_block_group_descriptor bs)"
  by (simp add: decode_block_group_descriptor_def wf_block_group_descriptor_def
        sizeof_block_group_descriptor_def)

lemma wf_decode_inode [simp]: "sizeof_inode \<le> length bs \<Longrightarrow> wf_inode (decode_inode bs)"
  by (simp add: decode_inode_def wf_inode_def sizeof_inode_def)

lemma wf_decode_superblock [simp]: "sizeof_superblock \<le> length bs \<Longrightarrow> wf_superblock (decode_superblock bs)"
  by (simp add: decode_superblock_def wf_superblock_def sizeof_superblock_def)

lemma rd4_Cons [le_simps]: "1 \<le> k \<Longrightarrow> rd4 (x # xs) k = rd4 xs (k - 1)"
  using rd4_append_right [of "[x]" k xs] by simp

lemma rd2_Cons [le_simps]: "1 \<le> k \<Longrightarrow> rd2 (x # xs) k = rd2 xs (k - 1)"
  using rd2_append_right [of "[x]" k xs] by simp

lemma slice_Cons [slice_simps]: "1 \<le> k \<Longrightarrow> slice k n (x # xs) = slice (k - 1) n xs"
  using slice_append_right [of "[x]" k n xs] by simp

lemmas codec_simps = le_simps slice_simps nth_append_left nth_append_right

lemma decode_encode_dir_header [simp]: "decode_dir_header (encode_dir_header r) = r"
  by (simp add: decode_dir_header_def encode_dir_header_def codec_simps)

lemma decode_encode_block_group_descriptor [simp]:
  "wf_block_group_descriptor r \<Longrightarrow> decode_block_group_descriptor (encode_block_group_descriptor r) = r"
  by (simp add: decode_block_group_descriptor_def encode_block_group_descriptor_def
        wf_block_group_descriptor_def codec_simps)

lemma rd4_words:
  assumes "length ws = n"
  shows "map (\<lambda>i. rd4 (concat (map le4 ws) @ post) (4 * i)) [0..<n] = ws"
proof (rule nth_equalityI)
  fix i assume "i < length (map (\<lambda>i. rd4 (concat (map le4 ws) @ post) (4 * i)) [0..<n])"
  with assms show "map (\<lambda>i. rd4 (concat (map le4 ws) @ post) (4 * i)) [0..<n] ! i = ws ! i"
    by (simp add: rd4_append_left rd4_concat_le4)
qed (simp add: assms)

lemma decode_encode_inode [simp]: "wf_inode r \<Longrightarrow> decode_inode (encode_inode r) = r"
  by (simp add: decode_inode_def encode_inode_def wf_inode_def codec_simps rd4_words)

lemma decode_encode_superblock [simp]: "wf_superblock r \<Longrightarrow> decode_superblock (encode_superblock r) = r"
  by (simp add: decode_superblock_def encode_superblock_def wf_superblock_def codec_simps rd4_words)








end
