(* ===== verification/Ext2_State.thy ===== *)
theory Ext2_State
  imports Block_Pc Ext2_Layout
begin

text \<open>
  The state of the driver and the constants of \<open>embext.h\<close>: the mounted context, the open file
  with its one-sector buffer, the static \<open>struct dirent\<close> of \<open>ext2_readdir\<close>, and what the
  environment supplies (the device, the clock, the heap, the user and group ids). One \<open>fs\<close> value
  holds one mounted context; its field \<open>fe\<close> is the \<open>file_ent\<close> the running function was given.
\<close>

unbundle bit_operations_syntax

section \<open>Constants\<close>

definition MAX_PATH_LEN :: nat where "MAX_PATH_LEN = 1024"
definition MAX_PATH_LEVELS :: nat where "MAX_PATH_LEVELS = 100"

definition EXT2_SUPER_MAGIC :: u16 where "EXT2_SUPER_MAGIC = 0xEF53"
definition EXT2_VALID_FS :: u16 where "EXT2_VALID_FS = 1"
definition EXT2_ERROR_FS :: u16 where "EXT2_ERROR_FS = 2"
definition EXT2_ROOT_INO :: u32 where "EXT2_ROOT_INO = 2"

definition EXT2_FLAG_OPEN :: u32 where "EXT2_FLAG_OPEN = 1"
definition EXT2_FLAG_READ :: u32 where "EXT2_FLAG_READ = 2"
definition EXT2_FLAG_WRITE :: u32 where "EXT2_FLAG_WRITE = 4"
definition EXT2_FLAG_APPEND :: u32 where "EXT2_FLAG_APPEND = 8"
definition EXT2_FLAG_FS_DIRTY :: u32 where "EXT2_FLAG_FS_DIRTY = 32"

definition EXT2_S_IFREG :: u16 where "EXT2_S_IFREG = 0x8000"
definition EXT2_S_IFDIR :: u16 where "EXT2_S_IFDIR = 0x4000"
definition EXT2_FEATURE_RO_COMPAT_SPARSE_SUPER :: u32 where
  "EXT2_FEATURE_RO_COMPAT_SPARSE_SUPER = 1"

definition EXT2_ALLOCATED :: int where "EXT2_ALLOCATED = 1"
definition EXT2_DEALLOCATED :: int where "EXT2_DEALLOCATED = 0"

definition EMBEXT_MAGIC :: u32 where "EMBEXT_MAGIC = 0xEBEDDED2"

lemmas flag_defs = EXT2_FLAG_OPEN_def EXT2_FLAG_READ_def EXT2_FLAG_WRITE_def EXT2_FLAG_APPEND_def
  EXT2_FLAG_FS_DIRTY_def

text \<open>The open flags and \<open>whence\<close> values of the host's \<open>fcntl.h\<close> and \<open>unistd.h\<close>.\<close>

definition O_WRONLY :: u32 where "O_WRONLY = 1"
definition O_RDWR :: u32 where "O_RDWR = 2"
definition O_CREAT :: u32 where "O_CREAT = 0x40"
definition O_EXCL :: u32 where "O_EXCL = 0x80"
definition O_TRUNC :: u32 where "O_TRUNC = 0x200"
definition O_APPEND :: u32 where "O_APPEND = 0x400"

lemmas open_flag_defs = O_WRONLY_def O_RDWR_def O_CREAT_def O_EXCL_def O_TRUNC_def O_APPEND_def

definition SEEK_SET :: int where "SEEK_SET = 0"
definition SEEK_CUR :: int where "SEEK_CUR = 1"
definition SEEK_END :: int where "SEEK_END = 2"
definition INT64_MAX :: int where "INT64_MAX = 2 ^ 63 - 1"

datatype errno = ENOENT | EIO | EBADF | ENOMEM | EEXIST | EISDIR | EINVAL | ENOTTY | ENOSPC | EROFS
  | EOVERFLOW | EOTHER int

section \<open>State\<close>

record buffer_object =
  bo_buffer :: "u8 list"
  bo_lba_block :: u32
  bo_dirty :: u16

record file_ent =
  fe_magic :: u32
  fe_flags :: u32
  fe_cursor :: int
  fe_inode_number :: u32
  fe_buffer :: buffer_object
  fe_inode :: inode
  fe_rerrno :: errno

record ext2context =
  cx_part_start :: u32
  cx_superblock :: superblock
  cx_sparse :: u32
  cx_sysbuf :: "u8 list"
  cx_superblock_block :: u32
  cx_read_only :: u32
  cx_num_blockgroups :: u32
  cx_num_superblocks :: u32
  cx_superblock_blocks :: "u32 list"

record fs =
  dev :: pc_dev
  ctx :: ext2context
  fe :: file_ent
  static_de :: dirent
  rerrno :: errno
  clock :: "nat \<Rightarrow> u32"
  ticks :: nat
  heap_ok :: "nat \<Rightarrow> bool"
  mallocs :: nat
  uid :: u16
  gid :: u16

text \<open>\<open>memset(fe, 0, sizeof(struct file_ent))\<close>.\<close>

definition zero_inode :: inode where
  "zero_inode = decode_inode (replicate 128 0)"

definition zero_file_ent :: file_ent where
  "zero_file_ent = \<lparr>fe_magic = 0, fe_flags = 0, fe_cursor = 0, fe_inode_number = 0,
     fe_buffer = \<lparr>bo_buffer = replicate 512 0, bo_lba_block = 0, bo_dirty = 0\<rparr>,
     fe_inode = zero_inode, fe_rerrno = EOTHER 0\<rparr>"

section \<open>Access to the parts of the state\<close>

definition upd_ctx :: "(ext2context \<Rightarrow> ext2context) \<Rightarrow> (fs, unit) cm" where
  "upd_ctx f = upd (ctx_update f)"

definition upd_sb :: "(superblock \<Rightarrow> superblock) \<Rightarrow> (fs, unit) cm" where
  "upd_sb f = upd (ctx_update (cx_superblock_update f))"

definition upd_fe :: "(file_ent \<Rightarrow> file_ent) \<Rightarrow> (fs, unit) cm" where
  "upd_fe f = upd (fe_update f)"

definition upd_inode :: "(inode \<Rightarrow> inode) \<Rightarrow> (fs, unit) cm" where
  "upd_inode f = upd (fe_update (fe_inode_update f))"

definition upd_buffer :: "(buffer_object \<Rightarrow> buffer_object) \<Rightarrow> (fs, unit) cm" where
  "upd_buffer f = upd (fe_update (fe_buffer_update f))"

definition set_errno :: "errno \<Rightarrow> (fs, unit) cm" where
  "set_errno e = upd (rerrno_update (\<lambda>_. e))"

definition set_flag :: "u32 \<Rightarrow> (fs, unit) cm" where
  "set_flag m = upd_fe (fe_flags_update (\<lambda>fl. fl OR m))"

abbreviation sb :: "fs \<Rightarrow> superblock" where
  "sb s \<equiv> cx_superblock (ctx s)"

abbreviation buf :: "fs \<Rightarrow> buffer_object" where
  "buf s \<equiv> fe_buffer (fe s)"

abbreviation ino :: "fs \<Rightarrow> inode" where
  "ino s \<equiv> fe_inode (fe s)"

text \<open>Calls of the block driver, of \<open>time(NULL)\<close> and of \<open>malloc\<close>.\<close>

definition on_dev :: "(pc_dev, 'a) cm \<Rightarrow> (fs, 'a) cm" where
  "on_dev m = (\<lambda>s. case m (dev s) of Inl e \<Rightarrow> Inl e | Inr (x, d) \<Rightarrow> Inr (x, s\<lparr>dev := d\<rparr>))"

definition sys_read :: "u32 \<Rightarrow> (fs, int) cm" where
  "sys_read b =
     bnd (gets (\<lambda>s. cx_sysbuf (ctx s))) (\<lambda>old.
     bnd (on_dev (block_read b old)) (\<lambda>(r, bs).
     seq (upd_ctx (cx_sysbuf_update (\<lambda>_. bs))) (ret r)))"

definition sys_write :: "u32 \<Rightarrow> (fs, int) cm" where
  "sys_write b = bnd (gets (\<lambda>s. cx_sysbuf (ctx s))) (\<lambda>bs. on_dev (block_write b bs))"

definition time_null :: "(fs, u32) cm" where
  "time_null = bnd (gets (\<lambda>s. clock s (ticks s))) (\<lambda>t. seq (upd (ticks_update Suc)) (ret t))"

definition malloc :: "(fs, bool) cm" where
  "malloc = bnd (gets (\<lambda>s. heap_ok s (mallocs s))) (\<lambda>b. seq (upd (mallocs_update Suc)) (ret b))"

text \<open>\<open>ext2_block_size(x)\<close> is \<open>1024 << s_log_block_size\<close>, a signed shift: defined up to 20.\<close>

definition ext2_block_size :: "(fs, u32) cm" where
  "ext2_block_size = bnd (gets (\<lambda>s. s_log_block_size (sb s))) (\<lambda>l.
     if unat l < 21 then ret (push_bit (unat l) 1024) else fail Bad_shift)"

lemmas access_defs = upd_ctx_def upd_sb_def upd_fe_def upd_inode_def upd_buffer_def set_errno_def
  set_flag_def

section \<open>Well-formed states\<close>

text \<open>The array members have their declared lengths and the device holds a volume.\<close>

definition wf_fs :: "fs \<Rightarrow> bool" where
  "wf_fs s \<longleftrightarrow> pc_ok (dev s)
     \<and> length (cx_sysbuf (ctx s)) = 512 \<and> wf_superblock (sb s)
     \<and> length (cx_superblock_blocks (ctx s)) = unat (cx_num_superblocks (ctx s))
     \<and> length (bo_buffer (buf s)) = 512 \<and> wf_inode (ino s)
     \<and> length (d_name (static_de s)) = 256"

text \<open>The sector view of the partition, the number of sectors per block, and the blocks that lie
  in the volume (so that no address computation wraps).\<close>

definition spb :: "fs \<Rightarrow> nat" where
  "spb s = 2 * 2 ^ unat (s_log_block_size (sb s))"

definition bsize :: "fs \<Rightarrow> nat" where
  "bsize s = 1024 * 2 ^ unat (s_log_block_size (sb s))"

definition part_sector :: "fs \<Rightarrow> nat \<Rightarrow> u8 list" where
  "part_sector s n = pc_sector (dev s) (of_nat (n + unat (cx_part_start (ctx s))))"

definition in_part :: "fs \<Rightarrow> nat \<Rightarrow> bool" where
  "in_part s n \<longleftrightarrow> (n + unat (cx_part_start (ctx s)) + 1) * BLOCK_SIZE \<le> unat (block_fs_size (dev s))"

definition blk_ok :: "fs \<Rightarrow> u32 \<Rightarrow> bool" where
  "blk_ok s b \<longleftrightarrow> in_part s (unat b * spb s + spb s - 1)"

lemma on_dev_Inr [cm_simps]: "m (dev s) = Inr (x, d) \<Longrightarrow> on_dev m s = Inr (x, s\<lparr>dev := d\<rparr>)"
  by (simp add: on_dev_def)

lemma spb_pos [simp]: "0 < spb s"
  by (simp add: spb_def)

lemma bsize_spb: "bsize s = 512 * spb s"
  by (simp add: bsize_def spb_def)

lemma in_part_mono: "in_part s n \<Longrightarrow> m \<le> n \<Longrightarrow> in_part s m"
  by (auto simp: in_part_def BLOCK_SIZE_def)

lemma blk_ok_in_part: "blk_ok s b \<Longrightarrow> k < spb s \<Longrightarrow> in_part s (unat b * spb s + k)"
  unfolding blk_ok_def by (erule in_part_mono) simp

lemma in_part_bound: "pc_ok (dev s) \<Longrightarrow> in_part s n \<Longrightarrow> n + unat (cx_part_start (ctx s)) < 2 ^ 22"
  by (auto simp: in_part_def BLOCK_SIZE_def elim!: pc_okE)

lemma in_part_valid:
  assumes "pc_ok (dev s)" "in_part s n"
  shows "pc_valid (dev s) (of_nat (n + unat (cx_part_start (ctx s))))"
proof -
  have "unat (of_nat (n + unat (cx_part_start (ctx s))) :: u32) = n + unat (cx_part_start (ctx s))"
    using in_part_bound [OF assms] by (simp only: unat_of_nat) simp
  then show ?thesis
    using assms(2) by (simp only: pc_valid_def in_part_def)
qed

lemma length_part_sector: "pc_ok (dev s) \<Longrightarrow> in_part s n \<Longrightarrow> length (part_sector s n) = 512"
  using pc_sector_length in_part_valid by (auto simp: part_sector_def BLOCK_SIZE_def)

lemma lba_add: "n + unat p < 2 ^ 32 \<Longrightarrow> of_nat n + (p :: u32) = of_nat (n + unat p)"
  by simp

lemma sys_read_ok:
  assumes "pc_ok (dev s)" "in_part s n" "b = of_nat n"
  shows "sys_read (b + cx_part_start (ctx s)) s
         = Inr (0, s\<lparr>ctx := (ctx s)\<lparr>cx_sysbuf := part_sector s n\<rparr>\<rparr>)"
  using in_part_valid [OF assms(1,2)] assms(1,3)
  by (simp add: sys_read_def upd_ctx_def part_sector_def bnd_Inr on_dev_def block_read_ok)

lemma ext2_block_size_run [cm_simps]:
  "unat (s_log_block_size (sb s)) < 21 \<Longrightarrow> ext2_block_size s = Inr (of_nat (bsize s), s)"
  by (simp add: ext2_block_size_def bsize_def push_bit_eq_mult)

end
