(* ===== verification/Ext2_Buffer.thy ===== *)
theory Ext2_Buffer
  imports Ext2_State
begin

text \<open>
  The one-sector buffer of an open file (\<open>embext.c\<close>, lines 66 to 101): write it back, load
  another sector, copy bytes out and in. The lemmas give the effect of each on a well-formed state
  whose addresses lie in the volume.
\<close>

unbundle bit_operations_syntax

section \<open>Operations\<close>

definition ext2_store_buffer :: "(fs, int) cm" where
  "ext2_store_buffer =
     bnd (gets (\<lambda>s. bo_lba_block (buf s) + cx_part_start (ctx s))) (\<lambda>b.
     bnd (gets (\<lambda>s. bo_buffer (buf s))) (\<lambda>bytes.
     bnd (on_dev (block_write b bytes)) (\<lambda>r.
     if r \<noteq> 0 then seq (upd_fe (fe_rerrno_update (\<lambda>_. EIO))) (ret (-1))
     else seq (upd_buffer (bo_dirty_update (\<lambda>_. 0))) (ret 0))))"

definition ext2_load_buffer :: "u32 \<Rightarrow> u32 \<Rightarrow> (fs, int) cm" where
  "ext2_load_buffer block_number offset =
     bnd (gets (\<lambda>s. bo_dirty (buf s))) (\<lambda>dirty.
     bnd (if dirty \<noteq> 0 then ext2_store_buffer else ret 0) (\<lambda>r.
     if r \<noteq> 0 then ret (-1) else
     bnd ext2_block_size (\<lambda>bs.
     seq (upd_buffer (bo_lba_block_update (\<lambda>_. block_number * (bs div block_get_block_size))))
     (seq (upd_buffer (bo_lba_block_update (\<lambda>b. b + offset div 512 * (512 div block_get_block_size))))
     (bnd (gets (\<lambda>s. bo_lba_block (buf s) + cx_part_start (ctx s))) (\<lambda>b.
     bnd (gets (\<lambda>s. bo_buffer (buf s))) (\<lambda>old.
     bnd (on_dev (block_read b old)) (\<lambda>(_, bytes).
     seq (upd_buffer (bo_buffer_update (\<lambda>_. bytes))) (ret 0)))))))))"

text \<open>\<open>memcpy\<close> between the buffer and \<open>n\<close> bytes elsewhere. The offset is taken modulo
  the 512 bytes of the buffer, so its signedness does not matter; the array ends after 512 bytes.\<close>

definition ext2_read_buffer :: "u32 \<Rightarrow> nat \<Rightarrow> (fs, u8 list) cm" where
  "ext2_read_buffer offset n =
     seq (require Overrun (unat offset mod 512 + n \<le> 512))
     (gets (\<lambda>s. slice (unat offset mod 512) n (bo_buffer (buf s))))"

definition ext2_write_buffer :: "u8 list \<Rightarrow> u32 \<Rightarrow> (fs, int) cm" where
  "ext2_write_buffer source offset =
     seq (require Overrun (unat offset mod 512 + length source \<le> 512))
     (seq (upd_buffer (bo_buffer_update (patch (unat offset mod 512) source)))
     (seq (upd_buffer (bo_dirty_update (\<lambda>_. 1))) (ret 0)))"

text \<open>The arithmetic is that of \<open>size_t\<close>, the result is cut to 32 bits.\<close>

definition ext2_buffer_space :: "(fs, u32) cm" where
  "ext2_buffer_space =
     bnd ext2_block_size (\<lambda>bs. gets (\<lambda>s. word_of_int (uint bs - 1 - fe_cursor (fe s) mod 512)))"

section \<open>Effects\<close>

text \<open>The state after loading sector \<open>n\<close> of the partition, and after storing the buffer.\<close>

definition loaded :: "nat \<Rightarrow> fs \<Rightarrow> fs" where
  "loaded n s = s\<lparr>fe := (fe s)\<lparr>fe_buffer :=
     \<lparr>bo_buffer = part_sector s n, bo_lba_block = of_nat n, bo_dirty = 0\<rparr>\<rparr>\<rparr>"

definition stored :: "fs \<Rightarrow> fs" where
  "stored s = s\<lparr>dev := pc_put (bo_lba_block (buf s) + cx_part_start (ctx s)) (bo_buffer (buf s)) (dev s),
     fe := (fe s)\<lparr>fe_buffer := (buf s)\<lparr>bo_dirty := 0\<rparr>\<rparr>\<rparr>"

lemma loaded_fields [simp]:
  "dev (loaded n s) = dev s" "ctx (loaded n s) = ctx s" "fe_inode (fe (loaded n s)) = fe_inode (fe s)"
  "fe_cursor (fe (loaded n s)) = fe_cursor (fe s)" "fe_flags (fe (loaded n s)) = fe_flags (fe s)"
  "fe_magic (fe (loaded n s)) = fe_magic (fe s)" "static_de (loaded n s) = static_de s"
  "fe_inode_number (fe (loaded n s)) = fe_inode_number (fe s)"
  "rerrno (loaded n s) = rerrno s" "buf (loaded n s) =
     \<lparr>bo_buffer = part_sector s n, bo_lba_block = of_nat n, bo_dirty = 0\<rparr>"
  by (simp_all add: loaded_def)

lemma loaded_view [simp]:
  "part_sector (loaded n s) = part_sector s" "in_part (loaded n s) = in_part s"
  "spb (loaded n s) = spb s" "bsize (loaded n s) = bsize s" "blk_ok (loaded n s) = blk_ok s"
  by (simp_all add: part_sector_def in_part_def spb_def bsize_def blk_ok_def fun_eq_iff)

lemma loaded_loaded [simp]: "loaded m (loaded n s) = loaded m s"
  by (simp add: loaded_def part_sector_def)

lemma stored_fields [simp]:
  "ctx (stored s) = ctx s" "fe_inode (fe (stored s)) = fe_inode (fe s)"
  "fe_cursor (fe (stored s)) = fe_cursor (fe s)" "fe_flags (fe (stored s)) = fe_flags (fe s)"
  "fe_magic (fe (stored s)) = fe_magic (fe s)" "static_de (stored s) = static_de s"
  "fe_inode_number (fe (stored s)) = fe_inode_number (fe s)" "bo_dirty (buf (stored s)) = 0"
  "bo_buffer (buf (stored s)) = bo_buffer (buf s)" "bo_lba_block (buf (stored s)) = bo_lba_block (buf s)"
  by (simp_all add: stored_def)

lemma stored_view [simp]:
  "in_part (stored s) = in_part s" "spb (stored s) = spb s" "bsize (stored s) = bsize s"
  "blk_ok (stored s) = blk_ok s"
  by (simp_all add: in_part_def spb_def bsize_def blk_ok_def fun_eq_iff stored_def)

lemma ext2_store_buffer_run:
  assumes "pc_ok (dev s)" "length (bo_buffer (buf s)) = 512" "in_part s (unat (bo_lba_block (buf s)))"
  shows "ext2_store_buffer s = Inr (0, stored s)"
proof -
  have "pc_valid (dev s) (bo_lba_block (buf s) + cx_part_start (ctx s))"
    using in_part_valid [OF assms(1,3)] by simp
  then show ?thesis
    using assms(1,2)
    by (simp add: ext2_store_buffer_def on_dev_def bnd_Inr block_write_put BLOCK_SIZE_def stored_def
        access_defs)
qed

lemma pc_ok_stored:
  assumes "pc_ok (dev s)" "length (bo_buffer (buf s)) = 512" "in_part s (unat (bo_lba_block (buf s)))"
  shows "pc_ok (dev (stored s))"
  using assms in_part_valid [OF assms(1,3)] by (simp add: stored_def pc_ok_put BLOCK_SIZE_def)

lemma part_sector_stored:
  assumes "pc_ok (dev s)" "length (bo_buffer (buf s)) = 512" "in_part s (unat (bo_lba_block (buf s)))"
    and "in_part s n"
  shows "part_sector (stored s) n = (if n = unat (bo_lba_block (buf s)) then bo_buffer (buf s) else part_sector s n)"
proof -
  let ?p = "cx_part_start (ctx s)" and ?l = "bo_lba_block (buf s)"
  have b: "n + unat ?p < 2 ^ 22" "unat ?l + unat ?p < 2 ^ 22"
    using in_part_bound [OF assms(1)] assms(3,4) by simp_all
  have "(of_nat (n + unat ?p) :: u32) = ?l + ?p \<longleftrightarrow> n = unat ?l"
  proof
    assume "(of_nat (n + unat ?p) :: u32) = ?l + ?p"
    then have "(of_nat (n + unat ?p) :: u32) = of_nat (unat ?l + unat ?p)"
      by simp
    then have "take_bit 32 (n + unat ?p) = take_bit 32 (unat ?l + unat ?p)"
      by (simp only: word_of_nat_eq_iff len_bit0 len_num1 len_bit1) simp
    then show "n = unat ?l"
      using b by (simp add: take_bit_eq_mod)
  qed simp
  then show ?thesis
    using assms in_part_valid [OF assms(1,3)] in_part_valid [OF assms(1,4)]
    by (simp add: part_sector_def stored_def pc_sector_put BLOCK_SIZE_def)
qed

text \<open>Loading a sector of a block: the address is the block's first sector plus the offset's.\<close>

lemma bsize_bound: "unat (s_log_block_size (sb s)) < 21 \<Longrightarrow> bsize s < 2 ^ 31"
proof -
  assume "unat (s_log_block_size (sb s)) < 21"
  then have "(2::nat) ^ unat (s_log_block_size (sb s)) \<le> 2 ^ 20"
    by (intro power_increasing) simp_all
  then show ?thesis by (simp add: bsize_def)
qed

lemma unat_bsize: "unat (s_log_block_size (sb s)) < 21 \<Longrightarrow> unat (of_nat (bsize s) :: u32) = bsize s"
  using bsize_bound [of s] by (simp only: unat_of_nat) simp

lemma word_div_nat: "(a :: u32) div b = of_nat (unat a div unat b)"
  by (simp add: word_arith_nat_div)

lemma sectors_per_block:
  assumes "unat (s_log_block_size (sb s)) < 21"
  shows "(of_nat (bsize s) :: u32) div block_get_block_size = of_nat (spb s)"
  unfolding word_div_nat unat_bsize [OF assms]
  by (simp add: block_get_block_size_def bsize_spb)

lemma ext2_load_buffer_clean:
  assumes "pc_ok (dev s)" "bo_dirty (buf s) = 0" "unat (s_log_block_size (sb s)) < 21"
    and n: "n = unat bn * spb s + unat off div 512" and "in_part s n"
  shows "ext2_load_buffer bn off s = Inr (0, loaded n s)"
proof -
  have lba: "bn * (of_nat (bsize s) div block_get_block_size) + off div 512 * (512 div block_get_block_size)
      = of_nat n"
    unfolding sectors_per_block [OF assms(3)] n
    by (simp add: block_get_block_size_def word_div_nat [of off])
  let ?t = "s\<lparr>fe := (fe s)\<lparr>fe_buffer := (buf s)\<lparr>bo_lba_block := of_nat n\<rparr>\<rparr>\<rparr>"
  have "block_read (of_nat n + cx_part_start (ctx s)) old (dev s)
      = Inr ((0, part_sector s n), dev s)" for old
    using in_part_valid [OF assms(1,5)] assms(1) by (simp add: part_sector_def block_read_ok)
  then show ?thesis
    using assms(2,3) lba
    by (simp add: ext2_load_buffer_def cm_simps on_dev_def bnd_Inr access_defs loaded_def)
qed

lemma ext2_load_buffer_dirty:
  assumes "pc_ok (dev s)" "length (bo_buffer (buf s)) = 512" "in_part s (unat (bo_lba_block (buf s)))"
    and "bo_dirty (buf s) \<noteq> 0"
  shows "ext2_load_buffer bn off s = ext2_load_buffer bn off (stored s)"
  using ext2_store_buffer_run [OF assms(1-3)] assms(4)
  by (simp add: ext2_load_buffer_def bnd_Inr)

lemma ext2_read_buffer_run [cm_simps]:
  "unat off mod 512 + n \<le> 512
   \<Longrightarrow> ext2_read_buffer off n s = Inr (slice (unat off mod 512) n (bo_buffer (buf s)), s)"
  by (simp add: ext2_read_buffer_def)

lemma ext2_read_buffer_overrun:
  "512 < unat off mod 512 + n \<Longrightarrow> ext2_read_buffer off n s = Inl Overrun"
  by (simp add: ext2_read_buffer_def)

lemma ext2_write_buffer_overrun:
  "512 < unat off mod 512 + length src \<Longrightarrow> ext2_write_buffer src off s = Inl Overrun"
  by (simp add: ext2_write_buffer_def)

text \<open>The state after copying into the buffer.\<close>

definition patched :: "nat \<Rightarrow> u8 list \<Rightarrow> fs \<Rightarrow> fs" where
  "patched k src s = s\<lparr>fe := (fe s)\<lparr>fe_buffer :=
     (buf s)\<lparr>bo_buffer := patch k src (bo_buffer (buf s)), bo_dirty := 1\<rparr>\<rparr>\<rparr>"

lemma ext2_write_buffer_run [cm_simps]:
  "unat off mod 512 + length src \<le> 512
   \<Longrightarrow> ext2_write_buffer src off s = Inr (0, patched (unat off mod 512) src s)"
  by (simp add: ext2_write_buffer_def access_defs patched_def)

text \<open>\<open>ext2_buffer_space\<close> measures to the end of the block, not of the 512-byte buffer: it is never
  less than the whole buffer.\<close>

lemma ext2_buffer_space_run:
  assumes "unat (s_log_block_size (sb s)) < 21"
  shows "ext2_buffer_space s = Inr (of_nat (bsize s - 1 - nat (fe_cursor (fe s) mod 512)), s)"
proof -
  let ?c = "fe_cursor (fe s) mod 512"
  have c: "0 \<le> ?c" "?c < 512"
    by simp_all
  have "1024 \<le> bsize s"
    by (simp add: bsize_def)
  then have "int (bsize s) - 1 - ?c = int (bsize s - 1 - nat ?c)"
    using c by linarith
  moreover have "uint (of_nat (bsize s) :: u32) = int (bsize s)"
    using unat_bsize [OF assms] by (metis uint_nat)
  ultimately show ?thesis
    using assms by (simp add: ext2_buffer_space_def cm_simps)
qed

lemma unat_buffer_space:
  assumes "unat (s_log_block_size (sb s)) < 21" "ext2_buffer_space s = Inr (n, t)"
  shows "unat n = bsize s - 1 - nat (fe_cursor (fe s) mod 512)" "t = s"
proof -
  have n: "n = of_nat (bsize s - 1 - nat (fe_cursor (fe s) mod 512))" and "t = s"
    using assms(2) unfolding ext2_buffer_space_run [OF assms(1)] by auto
  then show "t = s" by simp
  have "bsize s - 1 - nat (fe_cursor (fe s) mod 512) < 2 ^ 32"
    using bsize_bound [OF assms(1)] by simp
  then show "unat n = bsize s - 1 - nat (fe_cursor (fe s) mod 512)"
    unfolding n by (simp only: unat_of_nat) simp
qed

end
