(* ===== verification/Ext2_Groups.thy ===== *)
theory Ext2_Groups
  imports Ext2_Buffer
begin

text \<open>
  Block groups and allocation (\<open>embext.c\<close>, lines 212 to 620): the block group descriptors, the
  superblock copies, the two allocation bitmaps, and \<open>ext2_truncate_file\<close>, which frees the
  blocks of a file. Local variables that C leaves uninitialised are options, read through
  \<open>the_init\<close>.
\<close>

unbundle bit_operations_syntax

section \<open>Block group descriptors and the superblock\<close>

text \<open>The disk block and the byte offset of a descriptor in the table that starts in the given
  filesystem block. A disk block holds \<open>512 / 32\<close> descriptors.\<close>

definition bgs_per_sector :: u32 where
  "bgs_per_sector = block_get_block_size div of_nat sizeof_block_group_descriptor"

definition bg_lba :: "u32 \<Rightarrow> u32 \<Rightarrow> u32 \<Rightarrow> u32" where
  "bg_lba table_block bs block_group =
     table_block * (bs div block_get_block_size) + block_group div bgs_per_sector"

definition bg_offset :: "u32 \<Rightarrow> nat" where
  "bg_offset block_group = sizeof_block_group_descriptor * unat (block_group mod bgs_per_sector)"

text \<open>The descriptor is \<open>None\<close> where C leaves the caller's struct as it was.\<close>

definition ext2_get_bg_descriptor :: "u32 \<Rightarrow> (fs, int \<times> block_group_descriptor option) cm" where
  "ext2_get_bg_descriptor block_group =
     bnd (gets (\<lambda>s. cx_num_blockgroups (ctx s))) (\<lambda>n.
     if block_group \<ge> n then ret (-1, None) else
     bnd (gets (\<lambda>s. cx_superblock_block (ctx s) + 1)) (\<lambda>table.
     bnd ext2_block_size (\<lambda>bs.
     bnd (gets (\<lambda>s. bg_lba table bs block_group + cx_part_start (ctx s))) (\<lambda>b.
     bnd (sys_read b) (\<lambda>_.
     bnd (gets (\<lambda>s. slice (bg_offset block_group) sizeof_block_group_descriptor (cx_sysbuf (ctx s)))) (\<lambda>bytes.
     ret (0, Some (decode_block_group_descriptor bytes))))))))"

text \<open>One round of the loop over the superblock copies, in \<open>ext2_write_bg_descriptor\<close> and in
  \<open>ext2_flush_superblock\<close>.\<close>

definition write_bg_copy :: "block_group_descriptor \<Rightarrow> u32 \<Rightarrow> nat \<Rightarrow> (fs, unit) cm" where
  "write_bg_copy bg block_group i =
     bnd (gets (\<lambda>s. cx_superblock_blocks (ctx s) ! i + 1)) (\<lambda>table.
     bnd ext2_block_size (\<lambda>bs.
     bnd (gets (\<lambda>s. bg_lba table bs block_group + cx_part_start (ctx s))) (\<lambda>b.
     bnd (sys_read b) (\<lambda>_.
     upd_ctx (cx_sysbuf_update (patch (bg_offset block_group) (encode_block_group_descriptor bg)))))))"

definition ext2_write_bg_descriptor :: "block_group_descriptor \<Rightarrow> u32 \<Rightarrow> (fs, int) cm" where
  "ext2_write_bg_descriptor bg block_group =
     bnd (gets (\<lambda>s. cx_num_blockgroups (ctx s))) (\<lambda>n.
     if block_group \<ge> n then ret (-1) else
     bnd (gets (\<lambda>s. unat (cx_num_superblocks (ctx s)))) (\<lambda>copies.
     seq (for_each [0..<copies] (write_bg_copy bg block_group)) (ret 0)))"

definition flush_superblock_copy :: "nat \<Rightarrow> (fs, unit) cm" where
  "flush_superblock_copy i =
     bnd (gets (\<lambda>s. cx_superblock_blocks (ctx s) ! i)) (\<lambda>block.
     seq (upd_sb (s_block_group_nr_update (\<lambda>_. ucast block)))
     (bnd (gets (\<lambda>s. encode_superblock (sb s))) (\<lambda>bytes.
     seq (upd_ctx (cx_sysbuf_update (patch 0 bytes)))
     (bnd (gets (\<lambda>s. s_log_block_size (sb s) + 1)) (\<lambda>l.
     bnd (c_shl block l) (\<lambda>b.
     bnd (gets (\<lambda>s. b + cx_part_start (ctx s))) (\<lambda>lba.
     bnd (sys_write lba) (\<lambda>_. ret ()))))))))"

definition ext2_flush_superblock :: "(fs, int) cm" where
  "ext2_flush_superblock =
     seq (upd_ctx (cx_sysbuf_update (patch 0 (replicate (unat block_get_block_size) 0))))
     (bnd (gets (\<lambda>s. unat (cx_num_superblocks (ctx s)))) (\<lambda>copies.
     seq (for_each [0..<copies] flush_superblock_copy) (ret 0)))"

section \<open>Changing the allocation of a block\<close>

text \<open>A bit of the bitmap byte held in \<open>sysbuf\<close>.\<close>

definition bitmap_mask :: "u32 \<Rightarrow> u8" where
  "bitmap_mask bitmap_offset = push_bit (unat (bitmap_offset mod 8)) 1"

definition bitmap_index :: "u32 \<Rightarrow> nat" where
  "bitmap_index bitmap_offset = unat (bitmap_offset div 8 mod block_get_block_size)"

definition ext2_change_allocated :: "u32 \<Rightarrow> int \<Rightarrow> bool \<Rightarrow> (fs, int) cm" where
  "ext2_change_allocated block allocated for_directory =
     bnd (gets (\<lambda>s. s_blocks_per_group (sb s))) (\<lambda>bpg.
     bnd (c_div block bpg) (\<lambda>group.
     bnd (ext2_get_bg_descriptor group) (\<lambda>(_, got).
     bnd (the_init got) (\<lambda>bg.
     bnd (c_mod block bpg) (\<lambda>bitmap_offset.
     bnd (gets (\<lambda>s. bg_block_bitmap bg + bitmap_offset div 8 div block_get_block_size
                    + cx_part_start (ctx s))) (\<lambda>b.
     bnd (sys_read b) (\<lambda>_.
     bnd (gets (\<lambda>s. cx_sysbuf (ctx s) ! bitmap_index bitmap_offset)) (\<lambda>byte.
     let mask = bitmap_mask bitmap_offset in
     if byte AND mask \<noteq> 0 \<and> allocated = EXT2_ALLOCATED \<or> byte AND mask = 0 \<and> allocated = EXT2_DEALLOCATED
     then ret (-1) else
     seq (upd_ctx (cx_sysbuf_update (\<lambda>sys. sys[bitmap_index bitmap_offset :=
            (if byte AND mask \<noteq> 0 then byte AND NOT mask else byte OR mask)])))
     (bnd (sys_write b) (\<lambda>_.
     let bg1 = (if allocated = EXT2_ALLOCATED
                then bg\<lparr>bg_free_blocks_count := bg_free_blocks_count bg - 1,
                        bg_used_dirs_count := bg_used_dirs_count bg + of_bool for_directory\<rparr>
                else bg\<lparr>bg_free_blocks_count := bg_free_blocks_count bg + 1,
                        bg_used_dirs_count := bg_used_dirs_count bg - of_bool for_directory\<rparr>) in
     bnd (ext2_write_bg_descriptor bg1 group) (\<lambda>_.
     seq (upd_sb (s_free_blocks_count_update (\<lambda>n. if allocated = EXT2_ALLOCATED then n - 1 else n + 1)))
     (ret 0))))))))))))"

section \<open>Scanning a bitmap for a free bit\<close>

text \<open>\<open>for(j=0;j<8;j++) if(!(byte & (1 << j))) break;\<close>: 8 when every bit is set.\<close>

definition first_clear_bit :: "u8 \<Rightarrow> nat" where
  "first_clear_bit byte = (case filter (\<lambda>j. byte AND push_bit j 1 = 0) [0..<8] of [] \<Rightarrow> 8 | j # _ \<Rightarrow> j)"

text \<open>The scan of the bitmap in block \<open>bitmap_block\<close>, byte by byte: the index \<open>i\<close> and the bit
  \<open>j\<close> where it stopped and the last byte read, \<open>None\<close> if the loop body never ran.\<close>

fun scan_bitmap :: "u32 \<Rightarrow> nat \<Rightarrow> u32 \<Rightarrow> (nat \<times> u8) option \<Rightarrow> (fs, u32 \<times> (nat \<times> u8) option) cm" where
  "scan_bitmap bitmap_block 0 i prev = ret (i, prev)"
| "scan_bitmap bitmap_block (Suc n) i prev =
     bnd (ext2_load_buffer bitmap_block i) (\<lambda>_.
     bnd (ext2_read_buffer i 1) (\<lambda>bytes.
     let j = first_clear_bit (bytes ! 0) in
     if j < 8 then ret (i, Some (j, bytes ! 0))
     else scan_bitmap bitmap_block n (i + 1) (Some (j, bytes ! 0))))"

text \<open>The group with the most free inodes (or blocks): the first maximum wins.\<close>

definition most_free_group ::
    "(block_group_descriptor \<Rightarrow> u16) \<Rightarrow> (fs, int \<times> u32) cm" where
  "most_free_group free =
     bnd (gets (\<lambda>s. unat (cx_num_blockgroups (ctx s)))) (\<lambda>n.
     for_fold [0..<n] (\<lambda>i (most, group).
       bnd (ext2_get_bg_descriptor (of_nat i)) (\<lambda>(_, got).
       bnd (the_init got) (\<lambda>bg.
       ret (if most < uint (free bg) then (uint (free bg), of_nat i) else (most, group))))) (0, 0))"

section \<open>Allocating an inode\<close>

definition ext2_allocate_inode :: "(fs, int) cm" where
  "ext2_allocate_inode =
     bnd (most_free_group bg_free_inodes_count) (\<lambda>(most, group).
     if most = 0 then seq (upd_fe (fe_rerrno_update (\<lambda>_. ENOSPC))) (ret (-1)) else
     bnd (ext2_get_bg_descriptor group) (\<lambda>(_, got).
     bnd (gets (\<lambda>s. s_inodes_per_group (sb s))) (\<lambda>ipg.
     bnd (if ipg div 8 = 0 then ret (0, None)
          else bnd (the_init got) (\<lambda>bg. scan_bitmap (bg_inode_bitmap bg) (unat (ipg div 8)) 0 None)) (\<lambda>(i, prev).
     bnd (if i < ipg then bnd (the_init prev) (\<lambda>(j, _). ret (j < 8)) else ret False) (\<lambda>found.
     if found then
       bnd (the_init prev) (\<lambda>(j, byte).
       bnd (the_init got) (\<lambda>bg.
       seq (upd_fe (fe_inode_number_update (\<lambda>_. ipg * group + i * 8 + of_nat j + 1)))
       (bnd (ext2_write_buffer [byte OR push_bit j 1] i) (\<lambda>_.
       bnd ext2_store_buffer (\<lambda>_.
       bnd (ext2_write_bg_descriptor (bg\<lparr>bg_free_inodes_count := bg_free_inodes_count bg - 1\<rparr>) group) (\<lambda>_.
       seq (upd_sb (s_free_inodes_count_update (\<lambda>n. n - 1)))
       (bnd ext2_flush_superblock (\<lambda>_. ret 0))))))))
     else seq (upd_fe (fe_rerrno_update (\<lambda>_. EIO))) (ret (-1)))))))"

section \<open>Allocating a block\<close>

definition ext2_allocate_block :: "u32 \<Rightarrow> (fs, u32) cm" where
  "ext2_allocate_block previous_block =
     bnd (most_free_group bg_free_blocks_count) (\<lambda>(most, group).
     if most = 0 then seq (upd_fe (fe_rerrno_update (\<lambda>_. ENOSPC))) (ret 0) else
     bnd (ext2_get_bg_descriptor group) (\<lambda>(_, got).
     bnd (gets (\<lambda>s. s_blocks_per_group (sb s))) (\<lambda>bpg.
     bnd (if bpg div 8 = 0 then ret (0, None)
          else bnd (the_init got) (\<lambda>bg. scan_bitmap (bg_block_bitmap bg) (unat (bpg div 8)) 0 None)) (\<lambda>(i, prev).
     bnd (if i < bpg div 8 then bnd (the_init prev) (\<lambda>(j, _). ret (j < 8)) else ret False) (\<lambda>found.
     if found then
       bnd (the_init prev) (\<lambda>(j, _).
       let block_no = bpg * group + i * 8 + of_nat j + 1 in
       bnd (gets (\<lambda>s. i_mode (ino s) AND EXT2_S_IFDIR \<noteq> 0)) (\<lambda>isdir.
       bnd (ext2_change_allocated block_no EXT2_ALLOCATED isdir) (\<lambda>r.
       if r \<noteq> 0 then ret 0 else ret block_no)))
     else ret 0)))))"

section \<open>Truncating a file\<close>

text \<open>Entry \<open>k\<close> of the indirect block \<open>table\<close>.\<close>

definition read_entry :: "u32 \<Rightarrow> u32 \<Rightarrow> (fs, u32) cm" where
  "read_entry table k =
     bnd (ext2_load_buffer table (k * 4)) (\<lambda>_.
     bnd (ext2_read_buffer (k * 4) 4) (\<lambda>bytes. ret (rd4 bytes 0)))"

text \<open>Freeing what an indirect block lists: entry after entry up to the first zero. \<open>sub\<close> is what
  is done with each non-zero entry.\<close>

definition free_entries :: "u32 \<Rightarrow> (u32 \<Rightarrow> (fs, unit) cm) \<Rightarrow> nat \<Rightarrow> (fs, unit) cm" where
  "free_entries table sub entries =
     for_break [0..<entries] (\<lambda>i.
       bnd (read_entry table (of_nat i)) (\<lambda>block.
       if block \<noteq> 0 then seq (sub block) (ret False) else ret True))"

definition free_block :: "bool \<Rightarrow> u32 \<Rightarrow> (fs, unit) cm" where
  "free_block isdir block = bnd (ext2_change_allocated block EXT2_DEALLOCATED isdir) (\<lambda>_. ret ())"

definition set_i_block :: "nat \<Rightarrow> u32 \<Rightarrow> (fs, unit) cm" where
  "set_i_block k b = upd_inode (i_block_update (\<lambda>bs. bs[k := b]))"

definition ext2_truncate_file :: "(fs, int) cm" where
  "ext2_truncate_file =
     bnd ext2_block_size (\<lambda>bs.
     bnd (gets (\<lambda>s. i_mode (ino s) AND EXT2_S_IFDIR \<noteq> 0)) (\<lambda>isdir.
     let entries = unat (bs div 4); free = free_block isdir;
         i_block_at = (\<lambda>k. gets (\<lambda>s. i_block (ino s) ! k)) in
     seq (for_each [0..<12] (\<lambda>i.
       bnd (i_block_at i) (\<lambda>b.
       seq (if b \<noteq> 0 then free b else ret ()) (set_i_block i 0))))
     (seq (bnd (i_block_at 12) (\<lambda>b.
       if b = 0 then ret () else
       seq (free_entries b free entries) (seq (free b) (set_i_block 12 0))))
     (seq (bnd (i_block_at 13) (\<lambda>b.
       if b = 0 then ret () else
       seq (free_entries b (\<lambda>block. seq (free_entries block free entries) (free block)) entries)
       (seq (free b) (set_i_block 13 0))))
     (seq (bnd (i_block_at 14) (\<lambda>b.
       if b = 0 then ret () else
       seq (bnd (i_block_at 13) (\<lambda>b13.
         free_entries b13 (\<lambda>block.
           seq (free_entries block (\<lambda>block2.
             seq (free_entries block free entries) (free block2)) entries)
           (free block)) entries))
       (seq (free b) (set_i_block 14 0))))
     (seq (upd_inode (i_size_update (\<lambda>_. 0)))
     (seq (upd_inode (i_blocks_update (\<lambda>_. 0))) (ret 0))))))))"

section \<open>Where the descriptors are\<close>

text \<open>The sector of the partition that holds the descriptor of a group in the primary table, and the
  descriptor.\<close>

definition bg_sector :: "fs \<Rightarrow> nat \<Rightarrow> nat" where
  "bg_sector s g = (unat (cx_superblock_block (ctx s)) + 1) * spb s + g div 16"

definition bg_desc :: "fs \<Rightarrow> nat \<Rightarrow> block_group_descriptor" where
  "bg_desc s g = decode_block_group_descriptor (slice (32 * (g mod 16)) 32 (part_sector s (bg_sector s g)))"

lemma spb_power: "spb s = 2 ^ (unat (s_log_block_size (sb s)) + 1)"
  by (simp add: spb_def)

lemma log_plus_one: "unat (l :: u32) \<le> 2 \<Longrightarrow> unat (l + 1) = unat l + 1"
  using unat_add_lem [of l 1] by (simp add: unat_word_ariths(1))

lemma c_shl_spb:
  assumes "unat (s_log_block_size (sb s)) \<le> 2"
  shows "c_shl a (s_log_block_size (sb s) + 1) t = Inr (a * of_nat (spb s), t)"
  using assms log_plus_one [OF assms]
  by (simp add: c_shl_run push_bit_eq_mult spb_power)

lemma unat_div32: "unat ((a :: u32) div b) = unat a div unat b"
  by (rule unat_div)

lemma unat_mod32: "unat ((a :: u32) mod b) = unat a mod unat b"
  by (rule unat_mod)

lemma bgs_per_sector_16: "bgs_per_sector = 16"
  by (simp add: bgs_per_sector_def block_get_block_size_def sizeof_block_group_descriptor_def)

lemma block_size_spb:
  assumes "unat (s_log_block_size (sb s)) \<le> 2"
  shows "ext2_block_size s = Inr (of_nat (bsize s), s)"
    "(of_nat (bsize s) :: u32) div block_get_block_size = of_nat (spb s)"
  using assms by (simp_all only: ext2_block_size_run sectors_per_block)

lemma part_sector_sysbuf [simp]:
  "part_sector (s\<lparr>ctx := (ctx s)\<lparr>cx_sysbuf := x\<rparr>\<rparr>) = part_sector s"
  "in_part (s\<lparr>ctx := (ctx s)\<lparr>cx_sysbuf := x\<rparr>\<rparr>) = in_part s"
  by (simp_all add: part_sector_def in_part_def fun_eq_iff)

text \<open>The state after reading a sector into \<open>sysbuf\<close>.\<close>

definition sys_loaded :: "nat \<Rightarrow> fs \<Rightarrow> fs" where
  "sys_loaded n s = s\<lparr>ctx := (ctx s)\<lparr>cx_sysbuf := part_sector s n\<rparr>\<rparr>"

lemma sys_loaded_fields [simp]:
  "dev (sys_loaded n s) = dev s" "fe (sys_loaded n s) = fe s" "cx_sysbuf (ctx (sys_loaded n s)) = part_sector s n"
  "sb (sys_loaded n s) = sb s" "cx_part_start (ctx (sys_loaded n s)) = cx_part_start (ctx s)"
  "cx_num_blockgroups (ctx (sys_loaded n s)) = cx_num_blockgroups (ctx s)"
  "cx_superblock_block (ctx (sys_loaded n s)) = cx_superblock_block (ctx s)"
  "cx_num_superblocks (ctx (sys_loaded n s)) = cx_num_superblocks (ctx s)"
  "cx_superblock_blocks (ctx (sys_loaded n s)) = cx_superblock_blocks (ctx s)"
  "part_sector (sys_loaded n s) = part_sector s" "in_part (sys_loaded n s) = in_part s"
  "spb (sys_loaded n s) = spb s" "bsize (sys_loaded n s) = bsize s" "sys_loaded m (sys_loaded n s) = sys_loaded m s"
  by (simp_all add: sys_loaded_def spb_def bsize_def)

lemma sys_read_loaded:
  "pc_ok (dev s) \<Longrightarrow> in_part s n \<Longrightarrow> b = of_nat n \<Longrightarrow> sys_read (b + cx_part_start (ctx s)) s = Inr (0, sys_loaded n s)"
  by (simp add: sys_read_ok sys_loaded_def)

lemma ext2_get_bg_descriptor_run:
  assumes s: "pc_ok (dev s)" and log: "unat (s_log_block_size (sb s)) \<le> 2"
    and g: "g < cx_num_blockgroups (ctx s)" and inp: "in_part s (bg_sector s (unat g))"
  shows "ext2_get_bg_descriptor g s = Inr ((0, Some (bg_desc s (unat g))), sys_loaded (bg_sector s (unat g)) s)"
proof -
  have lba: "bg_lba (cx_superblock_block (ctx s) + 1) (of_nat (bsize s)) g = of_nat (bg_sector s (unat g))"
    unfolding bg_lba_def block_size_spb(2) [OF log] bgs_per_sector_16
    by (simp add: word_div_nat [of g] bg_sector_def) (simp add: algebra_simps)
  have off: "bg_offset g = 32 * (unat g mod 16)"
    by (simp add: bg_offset_def bgs_per_sector_16 unat_mod32 sizeof_block_group_descriptor_def)
  show ?thesis
    using g sys_read_loaded [OF s inp lba]
    by (simp add: ext2_get_bg_descriptor_def bnd_Inr block_size_spb(1) [OF log] off bg_desc_def
        sizeof_block_group_descriptor_def)
qed

lemma ext2_get_bg_descriptor_none:
  "\<not> g < cx_num_blockgroups (ctx s) \<Longrightarrow> ext2_get_bg_descriptor g s = Inr ((-1, None), s)"
  by (simp add: ext2_get_bg_descriptor_def not_less)

end
