(* ===== verification/Ext2_Inode.thy ===== *)
theory Ext2_Inode
  imports Ext2_Groups
begin

text \<open>
  Inodes (\<open>embext.c\<close>, lines 282 to 310 and 622 to 774): reading an inode from its group's table,
  writing it back, the time stamps, the map from a file offset to a block of the partition
  through up to three levels of indirect blocks, and \<open>ext2_select_buffer\<close>, which brings the
  sector under the cursor into the buffer.
\<close>

unbundle bit_operations_syntax

section \<open>Reading and writing an inode\<close>

definition ext2_open_inode :: "u32 \<Rightarrow> (fs, int) cm" where
  "ext2_open_inode inode =
     bnd (gets (\<lambda>s. s_inodes_per_group (sb s))) (\<lambda>ipg.
     bnd (c_div (inode - 1) ipg) (\<lambda>block_group.
     bnd (c_mod (inode - 1) ipg) (\<lambda>inode_index.
     bnd (gets (\<lambda>s. s_inodes_count (sb s))) (\<lambda>count.
     if inode > count \<or> inode = 0 then ret (-1) else
     bnd (gets (\<lambda>s. s_log_block_size (sb s) + 1)) (\<lambda>l.
     bnd (gets (\<lambda>s. cx_superblock_block (ctx s) + 1)) (\<lambda>table.
     bnd (c_shl table l) (\<lambda>bg_block.
     bnd (gets (\<lambda>s. bg_block + block_group * 32 div block_get_block_size + cx_part_start (ctx s))) (\<lambda>b.
     bnd (sys_read b) (\<lambda>_.
     bnd (gets (\<lambda>s. decode_block_group_descriptor
            (slice (unat (block_group * 32 mod block_get_block_size)) sizeof_block_group_descriptor
               (cx_sysbuf (ctx s))))) (\<lambda>block_table.
     bnd (c_shl (bg_inode_table block_table) l) (\<lambda>inode_table.
     bnd (gets (\<lambda>s. ucast (s_inode_size (sb s)))) (\<lambda>inode_size.
     bnd (c_div block_get_block_size inode_size) (\<lambda>per_sector.
     bnd (c_div inode_index per_sector) (\<lambda>sector.
     bnd (gets (\<lambda>s. inode_table + sector + cx_part_start (ctx s))) (\<lambda>b2.
     bnd (sys_read b2) (\<lambda>_.
     bnd (c_mod inode_index per_sector) (\<lambda>k.
     seq (require Overrun (unat (k * inode_size) + sizeof_inode \<le> 512))
     (bnd (gets (\<lambda>s. decode_inode (slice (unat (k * inode_size)) sizeof_inode (cx_sysbuf (ctx s))))) (\<lambda>i.
     seq (upd_fe (\<lambda>f. f\<lparr>fe_inode := i, fe_inode_number := inode, fe_flags := EXT2_FLAG_READ, fe_cursor := 0\<rparr>))
     (ret 0))))))))))))))))))))"

definition ext2_flush_inode :: "(fs, int) cm" where
  "ext2_flush_inode =
     bnd (gets (\<lambda>s. s_inodes_per_group (sb s))) (\<lambda>ipg.
     bnd (gets (\<lambda>s. fe_inode_number (fe s) - 1)) (\<lambda>n.
     bnd (c_div n ipg) (\<lambda>block_group.
     bnd (c_mod n ipg) (\<lambda>inode_index.
     bnd (gets (\<lambda>s. fe_flags (fe s) AND EXT2_FLAG_FS_DIRTY \<noteq> 0)) (\<lambda>dirty.
     if \<not> dirty then ret 0 else
     bnd (ext2_get_bg_descriptor block_group) (\<lambda>(_, got).
     bnd (the_init got) (\<lambda>bg.
     bnd (gets (\<lambda>s. ucast (s_inode_size (sb s)))) (\<lambda>inode_size.
     bnd ext2_block_size (\<lambda>bs.
     bnd (c_div bs inode_size) (\<lambda>per_block.
     bnd (c_div inode_index per_block) (\<lambda>block.
     bnd (c_mod (inode_index * inode_size) bs) (\<lambda>offset.
     bnd (ext2_load_buffer (bg_inode_table bg + block) offset) (\<lambda>_.
     bnd (gets (\<lambda>s. encode_inode (ino s))) (\<lambda>bytes.
     bnd (ext2_write_buffer bytes (inode_index * inode_size)) (\<lambda>_.
     bnd ext2_store_buffer (\<lambda>_.
     seq (upd_fe (fe_flags_update (\<lambda>fl. fl AND NOT EXT2_FLAG_FS_DIRTY))) (ret 0)))))))))))))))))"

definition ext2_update_atime :: "(fs, int) cm" where
  "ext2_update_atime =
     bnd time_null (\<lambda>t. seq (upd_inode (i_atime_update (\<lambda>_. t))) (seq (set_flag EXT2_FLAG_FS_DIRTY) (ret 0)))"

definition ext2_update_mtime :: "(fs, int) cm" where
  "ext2_update_mtime =
     bnd time_null (\<lambda>t. seq (upd_inode (i_mtime_update (\<lambda>_. t))) (seq (set_flag EXT2_FLAG_FS_DIRTY) (ret 0)))"

section \<open>From a file offset to a block\<close>

definition ext2_block_from_offset :: "u64 \<Rightarrow> (fs, u32) cm" where
  "ext2_block_from_offset offset =
     bnd ext2_block_size (\<lambda>bs.
     let block_index = ucast (offset div ucast bs) :: u32; e = bs div 4 in
     if block_index < 12 then gets (\<lambda>s. i_block (ino s) ! unat block_index) else
     let block_index = block_index - 12 in
     if block_index < e then
       bnd (gets (\<lambda>s. i_block (ino s) ! 12)) (\<lambda>t. read_entry t block_index)
     else
     let block_index = block_index - e in
     if block_index < e * e then
       bnd (gets (\<lambda>s. i_block (ino s) ! 13)) (\<lambda>t.
       bnd (c_div block_index e) (\<lambda>k1. bnd (c_mod block_index e) (\<lambda>k2.
       bnd (read_entry t k1) (\<lambda>block. read_entry block k2))))
     else
     let block_index = block_index - e * e in
     if block_index < e * e * e then
       bnd (gets (\<lambda>s. i_block (ino s) ! 14)) (\<lambda>t.
       bnd (c_div block_index (e * e)) (\<lambda>k1. bnd (c_div block_index e) (\<lambda>q.
       bnd (c_mod q e) (\<lambda>k2. bnd (c_mod block_index e) (\<lambda>k3.
       bnd (read_entry t k1) (\<lambda>block. bnd (read_entry block k2) (\<lambda>block'. read_entry block' k3)))))))
     else ret (-1))"

definition ext2_select_buffer :: "(fs, int) cm" where
  "ext2_select_buffer =
     bnd (gets (\<lambda>s. fe_cursor (fe s))) (\<lambda>cursor.
     bnd (ext2_block_from_offset (word_of_int cursor)) (\<lambda>block.
     bnd ext2_block_size (\<lambda>bs.
     bnd (ext2_block_from_offset (word_of_int ((cursor sdiv uint bs - 1) * uint bs))) (\<lambda>previous_block.
     if block \<noteq> 0 then
       bnd (ext2_load_buffer block (word_of_int (cursor smod uint bs))) (\<lambda>_. ret 0)
     else bnd (gets (\<lambda>s. fe_flags (fe s) AND EXT2_FLAG_WRITE \<noteq> 0)) (\<lambda>writing.
       if \<not> writing then ret (-1) else
       bnd (ext2_allocate_block previous_block) (\<lambda>new_block.
       if new_block = 0 then ret (-1) else
       seq (set_i_block 0 new_block)
       (bnd (ext2_load_buffer new_block (word_of_int (cursor smod uint bs))) (\<lambda>_. ret 0))))))))"

end
