(* ===== verification/Ext2_Demo.thy ===== *)
theory Ext2_Demo
  imports Ext2_State
begin

text \<open>
  A volume of eight 1 KiB blocks with one block group, on which the witnesses evaluate the theorems:
  block 1 holds the superblock, 2 the group descriptor, 3 and 4 the bitmaps, 5 the inode table,
  6 the root directory with one entry, and 7 the data of its file (inode 3).
\<close>

definition demo_super :: superblock where
  "demo_super = (decode_superblock (replicate sizeof_superblock 0))\<lparr>
     s_inodes_count := 8, s_blocks_count := 8, s_free_blocks_count := 1, s_free_inodes_count := 5,
     s_first_data_block := 1, s_blocks_per_group := 8, s_inodes_per_group := 8,
     s_magic := EXT2_SUPER_MAGIC, s_state := EXT2_VALID_FS, s_inode_size := 128\<rparr>"

definition demo_bg :: block_group_descriptor where
  "demo_bg = (decode_block_group_descriptor (replicate sizeof_block_group_descriptor 0))\<lparr>
     bg_block_bitmap := 3, bg_inode_bitmap := 4, bg_inode_table := 5,
     bg_free_blocks_count := 1, bg_free_inodes_count := 5\<rparr>"

definition demo_root :: inode where
  "demo_root = zero_inode\<lparr>i_mode := EXT2_S_IFDIR, i_size := 1024, i_block := (replicate 15 0)[0 := 6]\<rparr>"

definition demo_file :: inode where
  "demo_file = zero_inode\<lparr>i_mode := EXT2_S_IFREG, i_size := 600, i_block := (replicate 15 0)[0 := 7]\<rparr>"

definition demo_entry :: dir_header where
  "demo_entry = \<lparr>dh_inode = 3, dh_rec_len = 1024, dh_name_len = 1, dh_file_type = 1\<rparr>"

definition demo_sector :: "nat \<Rightarrow> u8 list" where
  "demo_sector n =
     (if n = 2 then patch 0 (encode_superblock demo_super) (replicate 512 0)
      else if n = 4 then patch 0 (encode_block_group_descriptor demo_bg) (replicate 512 0)
      else if n = 6 then 0x7F # replicate 511 0
      else if n = 8 then 0x07 # replicate 511 0
      else if n = 10 then patch 256 (encode_inode demo_file) (patch 128 (encode_inode demo_root) (replicate 512 0))
      else if n = 12 then patch 0 (encode_dir_header demo_entry @ [97]) (replicate 512 0)
      else if n = 14 then replicate 512 65
      else replicate 512 0)"

definition demo_dev :: pc_dev where
  "demo_dev = \<lparr>block_fs_size = 8192, blocks = Mem (concat (map demo_sector [0..<16])), block_ro = 0,
     image_name = None\<rparr>"

definition demo_ctx :: ext2context where
  "demo_ctx = \<lparr>cx_part_start = 0, cx_superblock = demo_super, cx_sparse = 0, cx_sysbuf = replicate 512 0,
     cx_superblock_block = 1, cx_read_only = 0, cx_num_blockgroups = 1, cx_num_superblocks = 1,
     cx_superblock_blocks = [1]\<rparr>"

text \<open>The volume with its file open for reading and writing.\<close>

definition demo_fs :: fs where
  "demo_fs = \<lparr>dev = demo_dev, ctx = demo_ctx,
     fe = zero_file_ent\<lparr>fe_magic := EMBEXT_MAGIC, fe_flags := EXT2_FLAG_READ OR EXT2_FLAG_WRITE,
            fe_inode_number := 3, fe_inode := demo_file\<rparr>,
     static_de = \<lparr>d_ino = 0, d_name = replicate 256 0\<rparr>, rerrno = EOTHER 0, clock = (\<lambda>n. of_nat n + 1000),
     ticks = 0, heap_ok = (\<lambda>_. True), mallocs = 0, uid = 0, gid = 0\<rparr>"

lemma wf_zero_inode [simp]: "wf_inode zero_inode"
  by (simp add: zero_inode_def sizeof_inode_def)

lemma wf_demo [simp]: "wf_inode demo_root" "wf_inode demo_file" "wf_superblock demo_super"
  "wf_block_group_descriptor demo_bg"
  using wf_zero_inode wf_decode_superblock [of "replicate sizeof_superblock 0"]
    wf_decode_block_group_descriptor [of "replicate sizeof_block_group_descriptor 0"]
  by (simp_all add: demo_root_def demo_file_def demo_super_def demo_bg_def wf_inode_def wf_superblock_def
      wf_block_group_descriptor_def)

lemma length_demo_sector [simp]: "length (demo_sector n) = 512"
  by (simp add: demo_sector_def sizeof_superblock_def sizeof_block_group_descriptor_def sizeof_inode_def
      sizeof_dir_header_def)

lemma length_concat_sectors: "length (concat (map demo_sector ns)) = 512 * length ns"
  by (induction ns) simp_all

lemma slice_sectors: "k < length ns \<Longrightarrow> slice (k * 512) 512 (concat (map demo_sector ns)) = demo_sector (ns ! k)"
proof (induction ns arbitrary: k)
  case (Cons n ns)
  then show ?case
    by (cases k) (simp_all add: slice_append_left slice_append_right)
qed simp

lemma pc_ok_demo [simp]: "pc_ok demo_dev"
  by (simp add: pc_ok_def demo_dev_def length_concat_sectors)

lemma part_sector_demo [simp]: "n < 16 \<Longrightarrow> part_sector demo_fs n = demo_sector n"
proof -
  assume n: "n < 16"
  then have "unat (of_nat n :: u32) = n"
    by (intro unat_of_nat32) simp
  then show ?thesis
    using n slice_sectors [of n "[0..<16]"]
    by (simp add: part_sector_def demo_fs_def demo_ctx_def demo_dev_def pc_sector_def BLOCK_SIZE_def)
qed

lemma in_part_demo [simp]: "in_part demo_fs n = (n < 16)"
  by (auto simp: in_part_def demo_fs_def demo_ctx_def demo_dev_def BLOCK_SIZE_def)

lemma demo_fields [simp]:
  "dev demo_fs = demo_dev" "ctx demo_fs = demo_ctx" "cx_part_start demo_ctx = 0" "sb demo_fs = demo_super"
  "cx_num_blockgroups demo_ctx = 1" "cx_num_superblocks demo_ctx = 1" "cx_superblock_block demo_ctx = 1"
  "cx_superblock_blocks demo_ctx = [1]" "cx_read_only demo_ctx = 0" "cx_superblock demo_ctx = demo_super"
  "fe_magic (fe demo_fs) = EMBEXT_MAGIC" "fe_cursor (fe demo_fs) = 0" "fe_inode_number (fe demo_fs) = 3"
  "fe_flags (fe demo_fs) = EXT2_FLAG_READ OR EXT2_FLAG_WRITE" "ino demo_fs = demo_file"
  "bo_dirty (buf demo_fs) = 0"
  by (simp_all add: demo_fs_def demo_ctx_def zero_file_ent_def)

lemma demo_super_fields [simp]:
  "s_log_block_size demo_super = 0" "s_blocks_per_group demo_super = 8" "s_inodes_per_group demo_super = 8"
  "s_inodes_count demo_super = 8" "s_blocks_count demo_super = 8" "s_inode_size demo_super = 128"
  "s_magic demo_super = EXT2_SUPER_MAGIC" "s_free_blocks_count demo_super = 1"
  "s_free_inodes_count demo_super = 5" "s_rev_level demo_super = 0"
  by (simp_all add: demo_super_def decode_superblock_def rd4_def sizeof_superblock_def)

lemma demo_bg_fields [simp]:
  "bg_block_bitmap demo_bg = 3" "bg_inode_bitmap demo_bg = 4" "bg_inode_table demo_bg = 5"
  "bg_free_blocks_count demo_bg = 1" "bg_free_inodes_count demo_bg = 5"
  by (simp_all add: demo_bg_def)

lemma demo_file_fields [simp]:
  "i_block demo_file = (replicate 15 0)[0 := 7]" "i_size demo_file = 600" "i_mode demo_file = EXT2_S_IFREG"
  by (simp_all add: demo_file_def)

lemma demo_sizes [simp]: "spb demo_fs = 2" "bsize demo_fs = 1024"
  by (simp_all add: spb_def bsize_def)

end
