(* ===== verification/Ext2_File.thy ===== *)
theory Ext2_File
  imports Ext2_Inode Ext2_Demo
begin

text \<open>
  The calls on an open file (\<open>embext.c\<close>, lines 1035 to 1332). \<open>vfe\<close> is the \<open>void *\<close> argument:
  \<open>NULL\<close>, or the address of the \<open>file_ent\<close> held in the state's field \<open>fe\<close>. The bytes a call
  stores in the caller's memory are part of its result.
\<close>

unbundle bit_operations_syntax

datatype vfe = NullFe | TheFe

text \<open>The check that opens every call: a null or closed file is \<open>EBADF\<close>.\<close>

definition bad_file :: "vfe \<Rightarrow> (fs, bool) cm" where
  "bad_file v = (case v of NullFe \<Rightarrow> ret True | TheFe \<Rightarrow> gets (\<lambda>s. fe_magic (fe s) \<noteq> EMBEXT_MAGIC))"

section \<open>Close, seek, status\<close>

definition ext2_close :: "vfe \<Rightarrow> (fs, int) cm" where
  "ext2_close v =
     bnd (bad_file v) (\<lambda>bad. if bad then seq (set_errno EBADF) (ret (-1)) else
     bnd (gets (\<lambda>s. bo_dirty (buf s))) (\<lambda>dirty.
     bnd (if dirty \<noteq> 0 then ext2_store_buffer else ret 0) (\<lambda>r.
     if r \<noteq> 0 then bnd (gets (\<lambda>s. fe_rerrno (fe s))) (\<lambda>e. seq (set_errno e) (ret (-1))) else
     bnd (gets (\<lambda>s. fe_flags (fe s) AND EXT2_FLAG_FS_DIRTY \<noteq> 0)) (\<lambda>fs_dirty.
     bnd (if fs_dirty then ext2_flush_inode else ret 0) (\<lambda>r2.
     if r2 \<noteq> 0 then bnd (gets (\<lambda>s. fe_rerrno (fe s))) (\<lambda>e. seq (set_errno e) (ret (-1))) else
     seq (upd_fe (fe_magic_update (\<lambda>_. 0))) (ret 0))))))"

text \<open>The sum for \<open>SEEK_END\<close> is that of a \<open>uint32_t\<close> and an \<open>int\<close>: it is computed in 32 bits and only
  then widened to the cursor's 64.\<close>

definition ext2_lseek :: "vfe \<Rightarrow> int \<Rightarrow> int \<Rightarrow> (fs, int) cm" where
  "ext2_lseek v offset whence =
     bnd (bad_file v) (\<lambda>bad. if bad then seq (set_errno EBADF) (ret (-1)) else
     bnd (gets (\<lambda>s. fe_cursor (fe s))) (\<lambda>cursor.
     bnd (gets (\<lambda>s. i_size (ino s))) (\<lambda>size32.
     let sz = uint size32;
         move = (\<lambda>c. seq (upd_fe (fe_cursor_update (\<lambda>_. c))) (gets (\<lambda>s. to_int32 (fe_cursor (fe s)))));
         err = (\<lambda>e. seq (set_errno e) (ret (-1))) in
     if whence = SEEK_SET then
       if offset < 0 then err EINVAL else move offset
     else if whence = SEEK_CUR then
       if offset > INT64_MAX - cursor then err EOVERFLOW
       else if offset + cursor < 0 then err EINVAL
       else move (cursor + offset)
     else if whence = SEEK_END then
       if offset > INT64_MAX - sz then err EOVERFLOW
       else if offset + sz < 0 then err EINVAL
       else move (uint (size32 + word_of_int offset))
     else err EINVAL)))"

record stat =
  st_dev :: int
  st_ino :: u32
  st_mode :: u16
  st_nlink :: u16
  st_uid :: u16
  st_gid :: u16
  st_rdev :: int
  st_size :: u32
  st_atime :: u32
  st_mtime :: u32
  st_ctime :: u32
  st_blksize :: u32
  st_blocks :: u32

definition ext2_fstat :: "vfe \<Rightarrow> (fs, int \<times> stat option) cm" where
  "ext2_fstat v =
     bnd (bad_file v) (\<lambda>bad. if bad then seq (set_errno EBADF) (ret (-1, None)) else
     bnd ext2_block_size (\<lambda>bs.
     bnd (gets fe) (\<lambda>f. let i = fe_inode f in
     ret (0, Some \<lparr>st_dev = 0, st_ino = fe_inode_number f, st_mode = i_mode i, st_nlink = i_links_count i,
       st_uid = i_uid i, st_gid = i_gid i, st_rdev = 0, st_size = i_size i, st_atime = i_atime i,
       st_mtime = i_mtime i, st_ctime = i_ctime i, st_blksize = bs, st_blocks = i_blocks i\<rparr>))))"

definition ext2_isatty :: "vfe \<Rightarrow> (fs, int) cm" where
  "ext2_isatty v =
     bnd (bad_file v) (\<lambda>bad. seq (set_errno (if bad then EBADF else ENOTTY)) (ret 0))"

section \<open>Reading\<close>

text \<open>\<open>amount_to_copy\<close>: what is left of the request or the space in the buffer, and in
  \<open>ext2_read\<close> no more than is left of the file.\<close>

definition amount_in_buffer :: "u64 \<Rightarrow> u32 \<Rightarrow> u32" where
  "amount_in_buffer left space = (if left > ucast space then space else ucast left)"

definition amount_in_file :: "u32 \<Rightarrow> int \<Rightarrow> u32" where
  "amount_in_file amount rest = (if uint amount > rest then word_of_int rest else amount)"

text \<open>The copy loop of \<open>ext2_read\<close>: \<open>i\<close> bytes are done, \<open>acc\<close> holds them. The result says
  whether the loop was left with an I/O error. A round that returns copies at least one byte, so
  \<open>count + 1\<close> rounds are enough.\<close>

primrec read_loop :: "nat \<Rightarrow> u64 \<Rightarrow> u32 \<Rightarrow> u8 list \<Rightarrow> (fs, bool \<times> u32 \<times> u8 list) cm" where
  "read_loop 0 count i acc = fail Out_of_fuel"
| "read_loop (Suc fuel) count i acc =
     (if \<not> ucast i < count then ret (False, i, acc) else
      bnd (gets (\<lambda>s. fe_cursor (fe s) \<ge> uint (i_size (ino s)))) (\<lambda>eof.
      if eof then ret (False, i, acc) else
      bnd ext2_select_buffer (\<lambda>r.
      if r \<noteq> 0 then seq (set_errno EIO) (ret (True, i, acc)) else
      bnd ext2_buffer_space (\<lambda>space.
      bnd (gets (\<lambda>s. amount_in_file (amount_in_buffer (count - ucast i) space)
                       (uint (i_size (ino s)) - fe_cursor (fe s)))) (\<lambda>amount.
      bnd ext2_block_size (\<lambda>bs.
      bnd (gets (\<lambda>s. word_of_int (fe_cursor (fe s) smod uint bs))) (\<lambda>offset.
      bnd (ext2_read_buffer offset (unat amount)) (\<lambda>bytes.
      seq (upd_fe (fe_cursor_update (\<lambda>c. c + uint amount)))
      (read_loop fuel count (i + amount) (acc @ bytes))))))))))"

definition ext2_read :: "vfe \<Rightarrow> u64 \<Rightarrow> (fs, int \<times> u8 list) cm" where
  "ext2_read v count =
     bnd (bad_file v) (\<lambda>bad. if bad then seq (set_errno EBADF) (ret (-1, [])) else
     bnd (read_loop (Suc (unat count)) count 0 []) (\<lambda>(failed, i, bytes).
     if failed then ret (-1, bytes) else
     bnd (if i > 0 then ext2_update_atime else ret 0) (\<lambda>_.
     ret (to_int32 (uint i), bytes))))"

section \<open>Writing\<close>

primrec write_loop :: "nat \<Rightarrow> u8 list \<Rightarrow> u32 \<Rightarrow> (fs, bool \<times> u32) cm" where
  "write_loop 0 buffer i = fail Out_of_fuel"
| "write_loop (Suc fuel) buffer i =
     (let count = of_nat (length buffer) :: u64 in
      if \<not> ucast i < count then ret (False, i) else
      bnd ext2_select_buffer (\<lambda>r.
      if r \<noteq> 0 then seq (set_errno EIO) (ret (True, i)) else
      bnd ext2_buffer_space (\<lambda>space.
      let amount = amount_in_buffer (count - ucast i) space in
      bnd ext2_block_size (\<lambda>bs.
      bnd (gets (\<lambda>s. word_of_int (fe_cursor (fe s) smod uint bs))) (\<lambda>offset.
      bnd (ext2_write_buffer (slice (unat i) (unat amount) buffer) offset) (\<lambda>_.
      seq (upd_fe (fe_cursor_update (\<lambda>c. c + uint amount)))
      (bnd (gets (\<lambda>s. fe_cursor (fe s) > uint (i_size (ino s)))) (\<lambda>grown.
      seq (if grown then seq (upd (\<lambda>s. fe_update (fe_inode_update (i_size_update
             (\<lambda>_. word_of_int (fe_cursor (fe s))))) s)) (set_flag EXT2_FLAG_FS_DIRTY) else ret ())
      (write_loop fuel buffer (i + amount))))))))))"

definition ext2_write :: "vfe \<Rightarrow> u8 list \<Rightarrow> (fs, int) cm" where
  "ext2_write v buffer =
     bnd (bad_file v) (\<lambda>bad. if bad then seq (set_errno EBADF) (ret (-1)) else
     bnd (gets (\<lambda>s. fe_flags (fe s))) (\<lambda>flags.
     if flags AND EXT2_FLAG_WRITE = 0 then seq (set_errno EBADF) (ret (-1)) else
     bnd (if flags AND EXT2_FLAG_APPEND \<noteq> 0 then ext2_lseek TheFe 0 SEEK_END else ret 0) (\<lambda>p.
     if flags AND EXT2_FLAG_APPEND \<noteq> 0 \<and> p = -1 then ret (-1) else
     bnd (write_loop (Suc (length buffer)) buffer 0) (\<lambda>(failed, i).
     if failed then ret (-1) else
     bnd (if i > 0 then ext2_update_mtime else ret 0) (\<lambda>_. ret (to_int32 (uint i)))))))"

section \<open>Reading a directory entry\<close>

definition upd_de :: "(dirent \<Rightarrow> dirent) \<Rightarrow> (fs, unit) cm" where
  "upd_de f = upd (static_de_update f)"

text \<open>The result says whether a pointer to the static entry is returned or \<open>NULL\<close>. Each field is
  read into its variable, also when fewer bytes than asked for arrive.\<close>

definition ext2_readdir :: "vfe \<Rightarrow> (fs, bool) cm" where
  "ext2_readdir v =
     bnd (ext2_read v 4) (\<lambda>(r, bytes).
     seq (upd_de (d_ino_update (\<lambda>n. rd4 (patch 0 bytes (le4 n)) 0)))
     (if r < 4 then ret False else
     bnd (ext2_read v 2) (\<lambda>(r, bytes). if r < 2 then ret False else
     let rec_len = rd2 bytes 0 in
     bnd (ext2_read v 1) (\<lambda>(r, bytes). if r < 1 then ret False else
     let name_len = bytes ! 0 in
     bnd (ext2_read v 1) (\<lambda>(r, _). if r < 1 then ret False else
     bnd (gets (\<lambda>s. sint (d_ino (static_de s)) > 0)) (\<lambda>used.
     if \<not> used then ret False else
     bnd (ext2_read v (ucast name_len)) (\<lambda>(_, bytes).
     seq (upd_de (d_name_update (patch 0 bytes)))
     (seq (upd_de (d_name_update (\<lambda>nm. nm[unat name_len := 0])))
     (bnd (ext2_lseek v (uint rec_len - 8 - uint name_len) SEEK_CUR) (\<lambda>_.
     ret True))))))))))"

section \<open>Null, closed and never opened files\<close>

definition is_open :: "vfe \<Rightarrow> fs \<Rightarrow> bool" where
  "is_open v s \<longleftrightarrow> v = TheFe \<and> fe_magic (fe s) = EMBEXT_MAGIC"

lemma bad_file_run: "bad_file v s = Inr (\<not> is_open v s, s)"
  by (cases v) (simp_all add: bad_file_def is_open_def)

lemma bnd_bad_file: "bnd (bad_file v) k s = k (\<not> is_open v s) s"
  by (simp add: bnd_def bad_file_run)

lemma demo_open [simp]: "is_open TheFe demo_fs"
  by (simp add: is_open_def)

text \<open>Every call on a null pointer or on a file that is closed returns its error value, sets \<open>EBADF\<close>
  and changes nothing else: not the file, not the device, not the static directory entry.\<close>

theorem bad_files_are_rejected:
  assumes "\<not> is_open v s"
  shows "ext2_close v s = Inr (-1, s\<lparr>rerrno := EBADF\<rparr>)
    \<and> ext2_read v count s = Inr ((-1, []), s\<lparr>rerrno := EBADF\<rparr>)
    \<and> ext2_write v bytes s = Inr (-1, s\<lparr>rerrno := EBADF\<rparr>)
    \<and> ext2_lseek v offset whence s = Inr (-1, s\<lparr>rerrno := EBADF\<rparr>)
    \<and> ext2_fstat v s = Inr ((-1, None), s\<lparr>rerrno := EBADF\<rparr>)
    \<and> ext2_isatty v s = Inr (0, s\<lparr>rerrno := EBADF\<rparr>)
    \<and> ext2_readdir v s = Inr (False, s\<lparr>rerrno := EBADF\<rparr>)"
  using assms
  by (simp add: ext2_close_def ext2_read_def ext2_write_def ext2_lseek_def ext2_fstat_def bad_file_run
      ext2_isatty_def ext2_readdir_def access_defs seq_def bnd_def upd_de_def del: read_loop.simps write_loop.simps)

lemma bad_files_are_rejected_witness:
  "ext2_close NullFe demo_fs = Inr (-1, demo_fs\<lparr>rerrno := EBADF\<rparr>)
   \<and> ext2_read TheFe 4 (demo_fs\<lparr>fe := zero_file_ent\<rparr>) = Inr ((-1, []), demo_fs\<lparr>fe := zero_file_ent, rerrno := EBADF\<rparr>)"
  using bad_files_are_rejected [of NullFe demo_fs]
    bad_files_are_rejected [of TheFe "demo_fs\<lparr>fe := zero_file_ent\<rparr>" 4]
  by (simp add: is_open_def zero_file_ent_def EMBEXT_MAGIC_def)

section \<open>Seeking\<close>

text \<open>What \<open>whence\<close> counts from.\<close>

definition seek_base :: "int \<Rightarrow> fs \<Rightarrow> int option" where
  "seek_base whence s =
     (if whence = SEEK_SET then Some 0 else if whence = SEEK_CUR then Some (fe_cursor (fe s))
      else if whence = SEEK_END then Some (uint (i_size (ino s))) else None)"

definition cursor_ok :: "fs \<Rightarrow> bool" where
  "cursor_ok s \<longleftrightarrow> 0 \<le> fe_cursor (fe s) \<and> fe_cursor (fe s) \<le> INT64_MAX"

lemma seek_base_range: "cursor_ok s \<Longrightarrow> seek_base whence s = Some b \<Longrightarrow> 0 \<le> b \<and> b \<le> INT64_MAX"
proof -
  assume "cursor_ok s" "seek_base whence s = Some b"
  moreover have "uint (i_size (ino s)) < 4294967296"
    using uint_bounded [of "i_size (ino s)"] by simp
  ultimately show ?thesis
    by (auto simp: seek_base_def cursor_ok_def INT64_MAX_def split: if_splits)
qed

text \<open>The state with the cursor at \<open>p\<close>.\<close>

definition seeked :: "int \<Rightarrow> fs \<Rightarrow> fs" where
  "seeked p s = s\<lparr>fe := (fe s)\<lparr>fe_cursor := p\<rparr>\<rparr>"

lemma seeked_upd: "fe_update (fe_cursor_update (\<lambda>_. p)) s = seeked p s"
  by (simp add: seeked_def)

text \<open>The position reached; the sum for \<open>SEEK_END\<close> wraps at 4 GiB.\<close>

definition seek_target :: "int \<Rightarrow> int \<Rightarrow> int \<Rightarrow> int" where
  "seek_target whence b offset = (if whence = SEEK_END then (b + offset) mod 2 ^ 32 else b + offset)"

lemma seek_target_simps [simp]:
  "seek_target SEEK_SET b offset = b + offset" "seek_target SEEK_CUR b offset = b + offset"
  by (simp_all add: seek_target_def SEEK_SET_def SEEK_CUR_def SEEK_END_def)

lemma seek_target_range:
  "0 \<le> b + offset \<Longrightarrow> b + offset \<le> INT64_MAX \<Longrightarrow> 0 \<le> seek_target whence b offset \<and> seek_target whence b offset \<le> INT64_MAX"
proof -
  assume "0 \<le> b + offset" "b + offset \<le> INT64_MAX"
  moreover have "(b + offset) mod 2 ^ 32 < 2 ^ 32" "0 \<le> (b + offset) mod 2 ^ 32" "(2 :: int) ^ 32 \<le> INT64_MAX"
    by (simp_all add: INT64_MAX_def)
  ultimately show ?thesis
    unfolding seek_target_def by auto
qed

lemma uint_add_offset: "uint (word_of_int offset + (w :: u32)) = (offset + uint w) mod 4294967296"
  by (simp add: uint_word_ariths uint_word_of_int mod_simps)

lemma ext2_lseek_cases:
  assumes "is_open v s" "cursor_ok s" "- (2 ^ 31) \<le> offset" "offset < 2 ^ 31"
  shows "ext2_lseek v offset whence s = (case seek_base whence s of
      None \<Rightarrow> Inr (-1, s\<lparr>rerrno := EINVAL\<rparr>)
    | Some b \<Rightarrow> if b + offset < 0 then Inr (-1, s\<lparr>rerrno := EINVAL\<rparr>)
                else if INT64_MAX < b + offset then Inr (-1, s\<lparr>rerrno := EOVERFLOW\<rparr>)
                else Inr (to_int32 (seek_target whence b offset), seeked (seek_target whence b offset) s))"
proof -
  have "\<not> INT64_MAX < offset"
    using assms(4) by (simp add: INT64_MAX_def)
  moreover have "0 \<le> uint (i_size (ino s))" "0 \<le> fe_cursor (fe s)" "0 \<le> INT64_MAX"
    using assms(2) by (simp_all add: cursor_ok_def INT64_MAX_def)
  ultimately show ?thesis
    using assms(1) by (auto simp: ext2_lseek_def bnd_bad_file seek_base_def Let_def access_defs seeked_def
        SEEK_SET_def SEEK_CUR_def SEEK_END_def seek_target_def uint_add_offset add.commute)
qed

text \<open>C26: \<open>ext2_lseek\<close> moves the cursor to the sum of the offset and the position \<open>whence\<close> names, and
  fails with \<open>EINVAL\<close> (a negative target or an unknown \<open>whence\<close>) or \<open>EOVERFLOW\<close> (beyond 63 bits) without
  moving it. The sum for \<open>SEEK_END\<close> wraps at 4 GiB. The result is the position cut to an \<open>int\<close>: it is the
  position exactly when that is below \<open>2 ^ 31\<close>.\<close>

theorem ext2_lseek_spec:
  assumes "is_open v s" "cursor_ok s" "- (2 ^ 31) \<le> offset" "offset < 2 ^ 31"
  shows "\<exists>r t. ext2_lseek v offset whence s = Inr (r, t) \<and> cursor_ok t
    \<and> (case seek_base whence s of
         None \<Rightarrow> r = -1 \<and> t = s\<lparr>rerrno := EINVAL\<rparr>
       | Some b \<Rightarrow> if b + offset < 0 then r = -1 \<and> t = s\<lparr>rerrno := EINVAL\<rparr>
           else if INT64_MAX < b + offset then r = -1 \<and> t = s\<lparr>rerrno := EOVERFLOW\<rparr>
           else t = seeked (seek_target whence b offset) s
             \<and> (r = seek_target whence b offset \<longleftrightarrow> seek_target whence b offset < 2 ^ 31))"
proof -
  have int32: "to_int32 p = p \<longleftrightarrow> p < 2 ^ 31" if "0 \<le> p" for p
    using that to_int32_id [of p] to_int32_less [of p] by auto
  show ?thesis
    using ext2_lseek_cases [OF assms, of whence] assms(2) int32 seek_target_range [of _ offset whence]
    by (auto simp: cursor_ok_def seeked_def split: option.splits if_splits)
qed

lemma ext2_lseek_spec_witness:
  "ext2_lseek TheFe (-100) SEEK_END demo_fs = Inr (500, seeked 500 demo_fs)"
proof -
  obtain r t where "ext2_lseek TheFe (-100) SEEK_END demo_fs = Inr (r, t)"
    "t = seeked 500 demo_fs" "r = 500"
    using ext2_lseek_spec [of TheFe demo_fs "-100" SEEK_END]
    by (auto simp: cursor_ok_def seek_base_def seek_target_def SEEK_SET_def SEEK_CUR_def SEEK_END_def INT64_MAX_def)
  then show ?thesis
    by simp
qed

section \<open>Status\<close>

text \<open>\<open>ext2_fstat\<close> reports the fields of the inode and the block size of the filesystem and changes
  nothing, whatever the state of the device.\<close>

theorem ext2_fstat_reports_the_inode:
  assumes "is_open v s" "unat (s_log_block_size (sb s)) < 21"
  shows "\<exists>st. ext2_fstat v s = Inr ((0, Some st), s) \<and> st_ino st = fe_inode_number (fe s)
     \<and> st_mode st = i_mode (ino s) \<and> st_size st = i_size (ino s) \<and> st_nlink st = i_links_count (ino s)
     \<and> st_blocks st = i_blocks (ino s) \<and> unat (st_blksize st) = bsize s"
  using assms unat_bsize [of s]
  by (simp add: ext2_fstat_def bnd_bad_file bnd_Inr ext2_block_size_run Let_def)

lemma ext2_fstat_reports_the_inode_witness:
  "\<exists>st. ext2_fstat TheFe demo_fs = Inr ((0, Some st), demo_fs) \<and> st_size st = 600 \<and> unat (st_blksize st) = 1024"
  using ext2_fstat_reports_the_inode [of TheFe demo_fs] by auto

end
