(* ===== verification/Ext2_Mount.thy ===== *)
theory Ext2_Mount
  imports Ext2_Groups
begin

text \<open>
  Mounting and unmounting (\<open>embext.c\<close>, lines 776 to 879): the checks on the superblock, the
  number of block groups, the list of superblock copies, and the state written back to the disk.
\<close>

unbundle bit_operations_syntax

section \<open>The groups that hold a superblock copy\<close>

text \<open>\<open>is_power\<close> does not return for some arguments (\<open>ofy = 1\<close>): \<open>None\<close>.\<close>

partial_function (option) is_power :: "int \<Rightarrow> int \<Rightarrow> bool option" where
  "is_power x ofy = (if x smod ofy = 0 then is_power (x sdiv ofy) ofy else Some (x = 1))"

declare is_power.simps [simp del]

definition c_is_power :: "int \<Rightarrow> int \<Rightarrow> (fs, bool) cm" where
  "c_is_power x ofy =
     (if ofy = 0 then fail Div_zero
      else case is_power x ofy of None \<Rightarrow> fail Diverges | Some b \<Rightarrow> ret b)"

text \<open>\<open>(i == 0) || (i == 1) || is_power(3, i) || is_power(5, i) || is_power(7, i)\<close>.\<close>

definition has_superblock :: "u32 \<Rightarrow> (fs, bool) cm" where
  "has_superblock i =
     (if i = 0 \<or> i = 1 then ret True else
      let ofy = to_int32 (uint i) in
      bnd (c_is_power 3 ofy) (\<lambda>b3. if b3 then ret True else
      bnd (c_is_power 5 ofy) (\<lambda>b5. if b5 then ret True else
      c_is_power 7 ofy)))"

section \<open>Mount and unmount\<close>

text \<open>The loops over the block groups: counting the copies, then listing their blocks.\<close>

definition count_superblocks :: "u32 \<Rightarrow> (fs, u32) cm" where
  "count_superblocks groups =
     for_fold [0..<unat groups] (\<lambda>i n. bnd (has_superblock (of_nat i)) (\<lambda>b. ret (if b then n + 1 else n))) 0"

definition list_superblocks :: "u32 \<Rightarrow> u32 \<Rightarrow> u32 \<Rightarrow> (fs, u32 list) cm" where
  "list_superblocks groups bpg first =
     for_fold [0..<unat groups] (\<lambda>i bs. bnd (has_superblock (of_nat i)) (\<lambda>b.
       ret (if b then bs @ [of_nat i * bpg + first] else bs))) []"

text \<open>A fresh context: the fields not yet assigned keep the (unread) old values. A failed read of
  the superblock leaves \<open>sysbuf\<close> indeterminate, and its use is a fault.\<close>

definition ext2_mount :: "u32 \<Rightarrow> u32 \<Rightarrow> u8 \<Rightarrow> (fs, int) cm" where
  "ext2_mount part_start volume_size filesystem_hint =
     bnd malloc (\<lambda>ok.
     seq (require Null_deref ok)
     (seq (upd_ctx (cx_part_start_update (\<lambda>_. part_start)))
     (bnd (sys_read (part_start + 2)) (\<lambda>r.
     seq (require Uninit (r = 0))
     (seq (upd (ctx_update (\<lambda>c. c\<lparr>cx_superblock := decode_superblock (slice 0 sizeof_superblock (cx_sysbuf c))\<rparr>)))
     (bnd (gets sb) (\<lambda>super.
     if s_magic super \<noteq> EXT2_SUPER_MAGIC then ret (-1) else
     bnd (c_shl (s_blocks_count super) (s_log_block_size super)) (\<lambda>blocks.
     if blocks > volume_size then ret (-1) else
     let first = (if s_log_block_size super = 0 then 1 else 0);
         sparse = s_rev_level super = 1 \<and> s_feature_ro_compat super AND EXT2_FEATURE_RO_COMPAT_SPARSE_SUPER \<noteq> 0;
         bpg = s_blocks_per_group super in
     seq (upd_ctx (\<lambda>c. c\<lparr>cx_superblock_block := first, cx_sparse := of_bool sparse\<rparr>))
     (seq (upd (\<lambda>s. ctx_update (cx_read_only_update (\<lambda>_. word_of_int (block_get_device_read_only (dev s)))) s))
     (bnd (c_div (s_blocks_count super) bpg) (\<lambda>full.
     bnd (c_mod (s_blocks_count super) bpg) (\<lambda>rest.
     let groups = (if rest \<noteq> 0 then full + 1 else full) in
     seq (upd_ctx (cx_num_blockgroups_update (\<lambda>_. groups)))
     (bnd (if sparse then count_superblocks groups else ret groups) (\<lambda>copies.
     seq (upd_ctx (cx_num_superblocks_update (\<lambda>_. copies)))
     (bnd malloc (\<lambda>ok2.
     seq (require Null_deref (ok2 \<or> copies = 0))
     (bnd (if sparse then list_superblocks groups bpg first
           else ret (map (\<lambda>i. of_nat i * bpg + first) [0..<unat copies])) (\<lambda>bs.
     seq (upd_ctx (cx_superblock_blocks_update (\<lambda>_. bs)))
     (bnd time_null (\<lambda>now.
     seq (upd_sb (\<lambda>b. b\<lparr>s_mtime := now, s_mnt_count := s_mnt_count b + 1\<rparr>))
     (seq (upd_sb (s_state_update (\<lambda>_. EXT2_ERROR_FS)))
     (bnd ext2_flush_superblock (\<lambda>_. ret 0)))))))))))))))))))))))"

definition ext2_umount :: "(fs, int) cm" where
  "ext2_umount = seq (upd_sb (s_state_update (\<lambda>_. EXT2_VALID_FS))) (bnd ext2_flush_superblock (\<lambda>_. ret 0))"

end
