(* ===== verification/Ext2_Path.thy ===== *)
theory Ext2_Path
  imports Ext2_File Ext2_Mount
begin

text \<open>
  Path lookup, opening and creating files, and appending a directory entry (\<open>embext.c\<close>, lines 672
  to 712 and 881 to 1033; \<open>embext_directory.c\<close>). \<open>ext2_open\<close> and
  \<open>ext2_append_to_directory\<close> call each other; their first argument bounds the depth of the calls and
  the rounds of the two loops over directory entries, which a damaged directory can keep running.
\<close>

unbundle bit_operations_syntax

section \<open>Path elements\<close>

definition slash :: u8 where "slash = 47"

text \<open>The tokens \<open>strtok(.., "/")\<close> delivers.\<close>

function tokens :: "u8 list \<Rightarrow> u8 list list" where
  "tokens xs = (case dropWhile (\<lambda>c. c = slash) xs of
     [] \<Rightarrow> []
   | y # ys \<Rightarrow> (y # takeWhile (\<lambda>c. c \<noteq> slash) ys) # tokens (dropWhile (\<lambda>c. c \<noteq> slash) ys))"
  by pat_completeness auto
termination
proof (relation "measure length", simp)
  fix xs y :: "u8 list" and y' ys
  assume "dropWhile (\<lambda>c. c = slash) xs = y' # ys"
  then have "length (y' # ys) \<le> length xs"
    by (metis length_dropWhile_le)
  then show "(dropWhile (\<lambda>c. c \<noteq> slash) ys, xs) \<in> measure length"
    using length_dropWhile_le [of "\<lambda>c. c \<noteq> slash" ys] by simp
qed

declare tokens.simps [simp del]

text \<open>The copy in \<open>local_path\<close> keeps 1023 characters, \<open>elements\<close> at most 100 tokens.\<close>

definition path_elements :: "u8 list \<Rightarrow> u8 list list" where
  "path_elements path = take MAX_PATH_LEVELS (tokens (take (MAX_PATH_LEN - 1) path))"

text \<open>The C string in a character array.\<close>

definition c_string :: "u8 list \<Rightarrow> u8 list" where
  "c_string bytes = takeWhile (\<lambda>c. c \<noteq> 0) bytes"

section \<open>Lookup\<close>

primrec find_entry :: "nat \<Rightarrow> u8 list \<Rightarrow> (fs, bool) cm" where
  "find_entry 0 name = fail Out_of_fuel"
| "find_entry (Suc fuel) name =
     bnd (ext2_readdir TheFe) (\<lambda>found.
     if \<not> found then ret False else
     bnd (gets (\<lambda>s. c_string (d_name (static_de s)) = name)) (\<lambda>eq.
     if eq then ret True else find_entry fuel name))"

primrec lookup_elements :: "nat \<Rightarrow> u8 list list \<Rightarrow> u32 \<Rightarrow> (fs, int) cm" where
  "lookup_elements fuel [] ino' = ret (to_int32 (uint ino'))"
| "lookup_elements fuel (e # es) ino' =
     bnd (ext2_open_inode ino') (\<lambda>r.
     if r \<noteq> 0 then seq (set_errno ENOENT) (ret (-1)) else
     bnd (find_entry fuel e) (\<lambda>found.
     if \<not> found then seq (set_errno ENOENT) (ret (-1)) else
     bnd (gets (\<lambda>s. d_ino (static_de s))) (\<lambda>next'. lookup_elements fuel es next')))"

definition ext2_lookup_path :: "nat \<Rightarrow> u8 list \<Rightarrow> (fs, int) cm" where
  "ext2_lookup_path fuel path = lookup_elements fuel (path_elements path) EXT2_ROOT_INO"

section \<open>Appending to a directory\<close>

text \<open>A call that must not disturb the running function's \<open>file_ent\<close> (it has its own), and one whose
  error number goes to a variable that is not looked at.\<close>

definition own_fe :: "(fs, 'a) cm \<Rightarrow> (fs, 'a) cm" where
  "own_fe m = bnd (gets fe) (\<lambda>outer. bnd m (\<lambda>r. seq (upd (fe_update (\<lambda>_. outer))) (ret r)))"

definition drop_errno :: "(fs, 'a) cm \<Rightarrow> (fs, 'a) cm" where
  "drop_errno m = bnd (gets rerrno) (\<lambda>e. bnd m (\<lambda>r. seq (set_errno e) (ret r)))"

text \<open>The \<open>do\<close> loop that walks the entries of the last block: \<open>None\<close> after an error.\<close>

primrec last_entry :: "nat \<Rightarrow> int \<Rightarrow> int \<Rightarrow> int \<Rightarrow> dir_header \<Rightarrow> (fs, (int \<times> dir_header) option) cm" where
  "last_entry 0 block_size last_block this_offset dir_header = fail Out_of_fuel"
| "last_entry (Suc fuel) block_size last_block this_offset dir_header =
     (let this_offset = this_offset + uint (dh_rec_len dir_header) in
      bnd (ext2_lseek TheFe (last_block + this_offset) SEEK_SET) (\<lambda>p.
      if p \<noteq> last_block + this_offset then bnd (drop_errno (ext2_close TheFe)) (\<lambda>_. ret None) else
      bnd (ext2_read TheFe (of_nat sizeof_dir_header)) (\<lambda>(n, bytes).
      if n \<noteq> int sizeof_dir_header then bnd (drop_errno (ext2_close TheFe)) (\<lambda>_. ret None) else
      let dir_header = decode_dir_header bytes in
      if this_offset + uint (dh_rec_len dir_header) < block_size
      then last_entry fuel block_size last_block this_offset dir_header
      else ret (Some (this_offset, dir_header)))))"

text \<open>The length of an entry for a name of \<open>n\<close> characters, rounded up to a multiple of four.\<close>

definition minimum_entry_len :: "nat \<Rightarrow> int" where
  "minimum_entry_len n = int ((n div 4 + (if n mod 4 \<noteq> 0 then 1 else 0)) * 4 + 8)"

definition write_entry :: "dir_header \<Rightarrow> u8 list \<Rightarrow> (fs, unit) cm" where
  "write_entry dir_header filename =
     bnd (ext2_write TheFe (encode_dir_header dir_header)) (\<lambda>_.
     bnd (ext2_write TheFe filename) (\<lambda>_. ret ()))"

text \<open>What \<open>ext2_append_to_directory\<close> does with the directory it has opened.\<close>

definition append_entry :: "nat \<Rightarrow> int \<Rightarrow> u32 \<Rightarrow> u8 list \<Rightarrow> (fs, int) cm" where
  "append_entry fuel block_size inode filename =
     bnd (ext2_lseek TheFe 0 SEEK_END) (\<lambda>file_length.
     if file_length smod block_size \<noteq> 0 then
       seq (set_errno ENOENT) (bnd (ext2_close TheFe) (\<lambda>_. ret (-1)))
     else let last_block = file_length - block_size in
     if last_block < 0 then
       seq (set_errno EIO) (bnd (ext2_close TheFe) (\<lambda>_. ret (-1)))
     else
     bnd (last_entry fuel block_size last_block 0
            \<lparr>dh_inode = 0, dh_rec_len = 0, dh_name_len = 0, dh_file_type = 0\<rparr>) (\<lambda>res.
     case res of None \<Rightarrow> ret (-1) | Some (this_offset, dir_header) \<Rightarrow>
     let min_old = minimum_entry_len (unat (dh_name_len dir_header));
         min_new = minimum_entry_len (length filename);
         new_header = \<lparr>dh_inode = inode, dh_rec_len = 0, dh_name_len = of_nat (length filename), dh_file_type = 0\<rparr> in
     seq (if uint (dh_rec_len dir_header) - min_old > min_new then
         let old_header = dir_header\<lparr>dh_rec_len := word_of_int min_old\<rparr>;
             next_offset = this_offset + uint (dh_rec_len old_header) in
         bnd (ext2_lseek TheFe (this_offset + last_block) SEEK_SET) (\<lambda>_.
         bnd (ext2_write TheFe (encode_dir_header old_header)) (\<lambda>_.
         bnd (ext2_lseek TheFe (next_offset + last_block) SEEK_SET) (\<lambda>_.
         write_entry (new_header\<lparr>dh_rec_len := word_of_int (block_size - next_offset)\<rparr>) filename)))
       else
         bnd (ext2_lseek TheFe 0 SEEK_END) (\<lambda>_.
         seq (for_each [0..<nat (block_size div 128)] (\<lambda>_.
                bnd (ext2_write TheFe (replicate 128 0)) (\<lambda>_. ret ())))
         (bnd (ext2_lseek TheFe (- block_size) SEEK_END) (\<lambda>_.
         write_entry (new_header\<lparr>dh_rec_len := word_of_int block_size\<rparr>) filename))))
     (bnd (ext2_close TheFe) (\<lambda>_. ret 0))))"

section \<open>Opening and creating\<close>

definition O_ACCESS_FLAGS :: "u32 \<Rightarrow> u32" where
  "O_ACCESS_FLAGS flags =
     (if flags AND O_RDWR \<noteq> 0 then EXT2_FLAG_READ OR EXT2_FLAG_WRITE
      else if flags AND O_WRONLY = 0 then EXT2_FLAG_READ else EXT2_FLAG_WRITE)
     OR (if flags AND O_APPEND \<noteq> 0 then EXT2_FLAG_APPEND else 0)"

text \<open>\<open>NULL\<close> is returned after freeing the \<open>file_ent\<close>.\<close>

definition open_fails :: "errno \<Rightarrow> (fs, bool) cm" where
  "open_fails e = seq (set_errno e) (ret False)"

text \<open>The branch for a file that exists.\<close>

definition open_existing :: "u32 \<Rightarrow> bool \<Rightarrow> (fs, bool) cm" where
  "open_existing flags internal_call =
     (if flags AND (O_CREAT OR O_EXCL) = (O_CREAT OR O_EXCL) then open_fails EEXIST
      else if flags AND (O_WRONLY OR O_RDWR) = 0 then ret True
      else
      bnd (gets (\<lambda>s. cx_read_only (ctx s) \<noteq> 0)) (\<lambda>ro.
      if ro then open_fails EROFS else
      bnd (gets (\<lambda>s. i_mode (ino s) AND EXT2_S_IFDIR \<noteq> 0)) (\<lambda>isdir.
      if isdir \<and> \<not> internal_call then open_fails EISDIR else
      if flags AND O_TRUNC \<noteq> 0 then
        bnd ext2_truncate_file (\<lambda>_. seq (upd_fe (fe_cursor_update (\<lambda>_. 0))) (ret True))
      else ret True)))"

text \<open>The last separator of \<open>name\<close> splits it into the directory and the new name.\<close>

definition split_name :: "u8 list \<Rightarrow> (u8 list \<times> u8 list) option" where
  "split_name name =
     (if slash \<in> set name
      then Some (rev (tl (dropWhile (\<lambda>c. c \<noteq> slash) (rev name))), rev (takeWhile (\<lambda>c. c \<noteq> slash) (rev name)))
      else None)"

text \<open>The fields of a new inode.\<close>

definition init_inode :: "u32 \<Rightarrow> (fs, unit) cm" where
  "init_inode mode =
     seq (upd (\<lambda>s. fe_update (fe_inode_update (\<lambda>i. i\<lparr>i_mode := ucast mode OR EXT2_S_IFREG,
        i_uid := uid s, i_gid := gid s, i_size := 0\<rparr>)) s))
     (bnd time_null (\<lambda>t. seq (upd_inode (i_atime_update (\<lambda>_. t)))
     (bnd time_null (\<lambda>t. seq (upd_inode (i_ctime_update (\<lambda>_. t)))
     (bnd time_null (\<lambda>t. seq (upd_inode (i_mtime_update (\<lambda>_. t)))
     (upd_inode (\<lambda>i. i\<lparr>i_dtime := 0, i_links_count := 1, i_blocks := 0, i_flags := 0, i_osd1 := 0,
        i_block := replicate 15 0, i_generation := 0, i_file_acl := 0, i_dir_acl := 0, i_faddr := 0,
        i_osd2 := replicate 12 0\<rparr>))))))))"

fun ext2_open :: "nat \<Rightarrow> u8 list \<Rightarrow> u32 \<Rightarrow> u32 \<Rightarrow> (fs, bool) cm"
  and ext2_append_to_directory :: "nat \<Rightarrow> u8 list \<Rightarrow> u32 \<Rightarrow> u8 list \<Rightarrow> (fs, int) cm" where
  "ext2_open 0 name flags mode = fail Out_of_fuel"
| "ext2_open (Suc fuel) name flags mode =
     (let internal_call = mode AND 0x200 \<noteq> 0; mode = mode AND 0x1FF in
      bnd malloc (\<lambda>ok. if \<not> ok then open_fails ENOMEM else
      seq (upd (fe_update (\<lambda>_. zero_file_ent\<lparr>fe_magic := EMBEXT_MAGIC\<rparr>)))
      (bnd (ext2_lookup_path fuel name) (\<lambda>ino'.
      bnd (ext2_open_inode (word_of_int ino')) (\<lambda>i.
      seq (set_flag (O_ACCESS_FLAGS flags))
      (bnd (gets rerrno) (\<lambda>e.
      if i = -1 \<and> e = ENOENT then
        if flags AND O_CREAT = 0 then open_fails ENOENT else
        bnd (gets (\<lambda>s. cx_read_only (ctx s) \<noteq> 0)) (\<lambda>ro. if ro then open_fails EROFS else
        bnd ext2_allocate_inode (\<lambda>r.
        if r \<noteq> 0 then bnd (gets (\<lambda>s. fe_rerrno (fe s))) open_fails else
        case split_name name of
          None \<Rightarrow> open_fails ENOENT
        | Some (local_path, local_name) \<Rightarrow>
            bnd malloc (\<lambda>ok1. bnd malloc (\<lambda>ok2. seq (require Null_deref (ok1 \<and> ok2))
            (bnd (gets (\<lambda>s. fe_inode_number (fe s))) (\<lambda>inode.
            bnd (own_fe (ext2_append_to_directory fuel local_path inode local_name)) (\<lambda>r.
            if r \<noteq> 0 then ret False else
            seq (init_inode mode)
            (seq (upd_fe (fe_cursor_update (\<lambda>_. 0)))
            (seq (set_flag EXT2_FLAG_FS_DIRTY)
            (bnd ext2_flush_inode (\<lambda>_. ret True)))))))))))
      else if i = 0 then open_existing flags internal_call
      else ret False)))))))"
| "ext2_append_to_directory 0 directory inode filename = fail Out_of_fuel"
| "ext2_append_to_directory (Suc fuel) directory inode filename =
     bnd ext2_block_size (\<lambda>bs.
     bnd (ext2_open fuel directory O_RDWR 0x3FF) (\<lambda>opened.
     if \<not> opened then ret (-1) else append_entry fuel (uint bs) inode filename))"

text \<open>The body of \<open>ext2_delete_from_directory\<close> is empty: it changes nothing and returns no value.\<close>

definition ext2_delete_from_directory :: "u8 list \<Rightarrow> (fs, int option) cm" where
  "ext2_delete_from_directory filename = ret None"

end
