(* ===== verification/Ext2_Frame.thy ===== *)
theory Ext2_Frame
  imports Ext2_Path
begin

text \<open>
  What no call of the driver changes. \<open>same_fs\<close> relates two states with the same volume shape and
  the same geometry; \<open>quiet\<close> says that a state with a clean buffer and no write access keeps the
  device as it is. Both are frames, so they are carried along the functions by the rules of
  \<open>frame\<close>.
\<close>

unbundle bit_operations_syntax

section \<open>Volume shape and geometry\<close>

definition same_fs :: "fs \<Rightarrow> fs \<Rightarrow> bool" where
  "same_fs s t \<longleftrightarrow> same_volume (dev s) (dev t)
     \<and> cx_part_start (ctx t) = cx_part_start (ctx s)
     \<and> cx_superblock_block (ctx t) = cx_superblock_block (ctx s)
     \<and> cx_read_only (ctx t) = cx_read_only (ctx s)
     \<and> cx_num_blockgroups (ctx t) = cx_num_blockgroups (ctx s)
     \<and> cx_num_superblocks (ctx t) = cx_num_superblocks (ctx s)
     \<and> cx_superblock_blocks (ctx t) = cx_superblock_blocks (ctx s)
     \<and> s_log_block_size (sb t) = s_log_block_size (sb s)
     \<and> s_blocks_count (sb t) = s_blocks_count (sb s)
     \<and> s_inodes_count (sb t) = s_inodes_count (sb s)
     \<and> s_blocks_per_group (sb t) = s_blocks_per_group (sb s)
     \<and> s_inodes_per_group (sb t) = s_inodes_per_group (sb s)
     \<and> s_inode_size (sb t) = s_inode_size (sb s)
     \<and> s_magic (sb t) = s_magic (sb s)
     \<and> heap_ok t = heap_ok s \<and> clock t = clock s \<and> uid t = uid s \<and> gid t = gid s"

interpretation fs_frame: frame same_fs
  by unfold_locales (auto simp: same_fs_def intro: pc_frame.R_refl pc_frame.R_trans)

named_theorems fs_keeps "functions that keep the volume shape and the geometry"

lemma keeps_on_dev_fs: "keeps same_volume m \<Longrightarrow> keeps same_fs (on_dev m)"
  by (fastforce simp: keeps_def on_dev_def same_fs_def split: sum.splits)

lemma block_read_same_volume: "keeps same_volume (block_read b x)"
  by (auto simp: keeps_def dest: block_read_id intro: pc_frame.R_refl)

lemma keeps_upd_same_fs [fs_keeps]:
  "keeps same_fs (upd_fe f)" "keeps same_fs (upd_inode g)" "keeps same_fs (upd_buffer h)"
  "keeps same_fs (set_errno e)" "keeps same_fs (set_flag fl)" "keeps same_fs (upd_de d)"
  "keeps same_fs (set_i_block k b)" "keeps same_fs time_null" "keeps same_fs malloc"
  "keeps same_fs (upd_ctx (cx_sysbuf_update y))" "keeps same_fs (upd (fe_update z))"
  by (auto simp: keeps_def same_fs_def access_defs set_flag_def upd_de_def set_i_block_def time_null_def
      malloc_def seq_eq_Inr bnd_eq_Inr pc_frame.R_refl)

lemma keeps_upd_sb_same_fs [fs_keeps]:
  "keeps same_fs (upd_sb (s_block_group_nr_update a))" "keeps same_fs (upd_sb (s_free_blocks_count_update b))"
  "keeps same_fs (upd_sb (s_free_inodes_count_update c))" "keeps same_fs (upd_sb (s_state_update d))"
  by (auto simp: keeps_def same_fs_def upd_sb_def pc_frame.R_refl)

lemma keeps_upd_dep [fs_keeps]:
  "keeps same_fs (upd (\<lambda>s. fe_update (f s) s))"
  by (auto simp: keeps_def same_fs_def pc_frame.R_refl)

lemmas fs_intros = fs_frame.keeps_intros

lemma keeps_sys [fs_keeps]:
  "keeps same_fs (sys_read b)" "keeps same_fs (sys_write b)" "keeps same_fs ext2_block_size"
  unfolding sys_read_def sys_write_def ext2_block_size_def
  by (intro fs_intros keeps_on_dev_fs block_read_same_volume block_write_same_volume fs_keeps)+

lemma keeps_buffer [fs_keeps]:
  "keeps same_fs ext2_store_buffer" "keeps same_fs (ext2_load_buffer b off)"
  "keeps same_fs (ext2_read_buffer off n)" "keeps same_fs (ext2_write_buffer src off)"
  "keeps same_fs ext2_buffer_space"
proof -
  show store: "keeps same_fs ext2_store_buffer"
    unfolding ext2_store_buffer_def
    by (intro fs_intros keeps_on_dev_fs block_write_same_volume fs_keeps)
  show "keeps same_fs (ext2_load_buffer b off)"
    unfolding ext2_load_buffer_def
    by (intro fs_intros keeps_on_dev_fs block_read_same_volume fs_keeps store)
qed (unfold ext2_read_buffer_def ext2_write_buffer_def ext2_buffer_space_def, (intro fs_intros fs_keeps)+)

lemma keeps_groups [fs_keeps]:
  "keeps same_fs (ext2_get_bg_descriptor g)" "keeps same_fs (ext2_write_bg_descriptor bg g)"
  "keeps same_fs ext2_flush_superblock"
  unfolding ext2_get_bg_descriptor_def ext2_write_bg_descriptor_def ext2_flush_superblock_def
    write_bg_copy_def flush_superblock_copy_def
  by (intro fs_intros fs_keeps)+

lemma keeps_change_allocated [fs_keeps]: "keeps same_fs (ext2_change_allocated b a d)"
  unfolding ext2_change_allocated_def
  by (intro fs_intros fs_keeps)

lemma keeps_scan [fs_keeps]: "keeps same_fs (scan_bitmap b n i prev)"
  by (induction n arbitrary: i prev)
    (simp_all only: scan_bitmap.simps Let_def, (intro fs_intros fs_keeps | assumption)+)

lemma keeps_allocate [fs_keeps]:
  "keeps same_fs (most_free_group f)" "keeps same_fs ext2_allocate_inode" "keeps same_fs (ext2_allocate_block p)"
proof -
  show m: "keeps same_fs (most_free_group f)" for f
    unfolding most_free_group_def by (intro fs_intros fs_keeps)
  show "keeps same_fs ext2_allocate_inode"
    unfolding ext2_allocate_inode_def by (intro fs_intros fs_keeps m)
  show "keeps same_fs (ext2_allocate_block p)"
    unfolding ext2_allocate_block_def Let_def by (intro fs_intros fs_keeps m)
qed

lemma keeps_truncate [fs_keeps]: "keeps same_fs ext2_truncate_file"
proof -
  have free: "keeps same_fs (free_block d b)" for d b
    unfolding free_block_def by (intro fs_intros fs_keeps)
  have entry: "keeps same_fs (read_entry b k)" for b k
    unfolding read_entry_def by (intro fs_intros fs_keeps)
  have entries: "keeps same_fs (free_entries t sub n)" if "\<And>b. keeps same_fs (sub b)" for t sub n
    unfolding free_entries_def by (intro fs_intros entry that)
  show ?thesis
    unfolding ext2_truncate_file_def Let_def by (intro fs_intros fs_keeps free entries)
qed

lemma keeps_inode [fs_keeps]:
  "keeps same_fs (ext2_open_inode i)" "keeps same_fs ext2_flush_inode" "keeps same_fs ext2_update_atime"
  "keeps same_fs ext2_update_mtime" "keeps same_fs (ext2_block_from_offset off)" "keeps same_fs (read_entry t k)"
  unfolding ext2_open_inode_def ext2_flush_inode_def ext2_update_atime_def ext2_update_mtime_def
    ext2_block_from_offset_def read_entry_def
  by (intro fs_intros fs_keeps)+

lemma keeps_select [fs_keeps]: "keeps same_fs ext2_select_buffer"
  unfolding ext2_select_buffer_def by (intro fs_intros fs_keeps)

lemma keeps_loops [fs_keeps]: "keeps same_fs (read_loop n c i acc)" "keeps same_fs (write_loop n bs i)"
proof -
  show "keeps same_fs (read_loop n c i acc)"
    by (induction n arbitrary: i acc)
      (simp_all only: read_loop.simps Let_def, (intro fs_intros fs_keeps | assumption)+)
  show "keeps same_fs (write_loop n bs i)"
    by (induction n arbitrary: i)
      (simp_all only: write_loop.simps Let_def, (intro fs_intros fs_keeps | assumption)+)
qed

lemma keeps_bad_file [fs_keeps]: "keeps same_fs (bad_file v)"
  by (auto simp: keeps_def bad_file_run fs_frame.R_refl)

lemma keeps_calls [fs_keeps]:
  "keeps same_fs (ext2_close v)" "keeps same_fs (ext2_lseek v off w)" "keeps same_fs (ext2_fstat v)"
  "keeps same_fs (ext2_isatty v)" "keeps same_fs (ext2_read v n)"
  unfolding ext2_close_def ext2_lseek_def ext2_fstat_def ext2_isatty_def ext2_read_def Let_def
  by (intro fs_intros fs_keeps)+

lemma keeps_write_readdir [fs_keeps]: "keeps same_fs (ext2_write v bs)" "keeps same_fs (ext2_readdir v)"
  unfolding ext2_write_def ext2_readdir_def Let_def by (intro fs_intros fs_keeps)+

lemma keeps_lookup [fs_keeps]: "keeps same_fs (ext2_lookup_path n path)"
proof -
  have find: "keeps same_fs (find_entry n nm)" for n nm
    by (induction n) (simp_all only: find_entry.simps Let_def, (intro fs_intros fs_keeps | assumption)+)
  have "keeps same_fs (lookup_elements n es i)" for es i
    by (induction es arbitrary: i)
      (simp_all only: lookup_elements.simps Let_def, (intro fs_intros fs_keeps find | assumption)+)
  then show ?thesis
    unfolding ext2_lookup_path_def .
qed

lemma keeps_append_entry [fs_keeps]: "keeps same_fs (append_entry n bs i nm)"
proof -
  have drop: "keeps same_fs (drop_errno m)" if "keeps same_fs m" for m :: "(fs, int) cm"
    unfolding drop_errno_def by (intro fs_intros fs_keeps that)
  have last: "keeps same_fs (last_entry n b l off h)" for n b l off h
    by (induction n arbitrary: off h)
      (simp_all only: last_entry.simps Let_def, (intro fs_intros fs_keeps drop | assumption)+)
  show ?thesis
    unfolding append_entry_def write_entry_def Let_def by (intro fs_intros fs_keeps last)
qed

lemma keeps_open_parts [fs_keeps]:
  "keeps same_fs (open_fails e)" "keeps same_fs (open_existing fl ic)" "keeps same_fs (init_inode m)"
  "keeps same_fs p \<Longrightarrow> keeps same_fs (own_fe p)"
  unfolding open_fails_def open_existing_def init_inode_def own_fe_def
  by (intro fs_intros fs_keeps | assumption)+

lemma keeps_open [fs_keeps]:
  "keeps same_fs (ext2_open n name fl mode)" "keeps same_fs (ext2_append_to_directory n dir i nm)"
proof (induction n arbitrary: name fl mode dir i nm)
  case 0
  {
    case 1
    show ?case
      unfolding ext2_open.simps by (intro fs_intros)
  next
    case 2
    show ?case
      unfolding ext2_append_to_directory.simps by (intro fs_intros)
  }
next
  case (Suc n)
  {
    case 1
    show ?case
      unfolding ext2_open.simps Let_def by (intro fs_intros fs_keeps Suc.IH)
  next
    case 2
    show ?case
      unfolding ext2_append_to_directory.simps by (intro fs_intros fs_keeps Suc.IH)
  }
qed

lemma keeps_umount [fs_keeps]: "keeps same_fs ext2_umount"
  unfolding ext2_umount_def by (intro fs_intros fs_keeps)

section \<open>Sequences of calls\<close>

text \<open>A call of the library on the file at hand, and what it does to the state.\<close>

datatype call =
    Open nat "u8 list" u32 u32
  | Close vfe
  | Read vfe u64
  | Write vfe "u8 list"
  | Lseek vfe int int
  | Fstat vfe
  | Isatty vfe
  | Readdir vfe
  | Umount

fun exec :: "call \<Rightarrow> (fs, unit) cm" where
  "exec (Open fuel name flags mode) = bnd (ext2_open fuel name flags mode) (\<lambda>_. ret ())"
| "exec (Close v) = bnd (ext2_close v) (\<lambda>_. ret ())"
| "exec (Read v count) = bnd (ext2_read v count) (\<lambda>_. ret ())"
| "exec (Write v bytes) = bnd (ext2_write v bytes) (\<lambda>_. ret ())"
| "exec (Lseek v offset whence) = bnd (ext2_lseek v offset whence) (\<lambda>_. ret ())"
| "exec (Fstat v) = bnd (ext2_fstat v) (\<lambda>_. ret ())"
| "exec (Isatty v) = bnd (ext2_isatty v) (\<lambda>_. ret ())"
| "exec (Readdir v) = bnd (ext2_readdir v) (\<lambda>_. ret ())"
| "exec Umount = bnd ext2_umount (\<lambda>_. ret ())"

inductive reaches :: "fs \<Rightarrow> fs \<Rightarrow> bool" for s where
  start: "reaches s s"
| step: "reaches s t \<Longrightarrow> exec c t = Inr ((), u) \<Longrightarrow> reaches s u"

lemma keeps_exec [fs_keeps]: "keeps same_fs (exec c)"
  by (cases c) (simp_all only: exec.simps, (intro fs_intros fs_keeps)+)

lemma reaches_same_fs: "reaches s t \<Longrightarrow> same_fs s t"
  by (induction rule: reaches.induct) (auto intro: fs_frame.R_refl fs_frame.R_trans dest: keepsD [OF keeps_exec])

section \<open>Calls that leave the device alone\<close>

definition quiet :: "fs \<Rightarrow> fs \<Rightarrow> bool" where
  "quiet s t \<longleftrightarrow> (bo_dirty (buf s) = 0 \<and> fe_flags (fe s) AND EXT2_FLAG_WRITE = 0 \<longrightarrow>
     dev t = dev s \<and> bo_dirty (buf t) = 0 \<and> fe_flags (fe t) AND EXT2_FLAG_WRITE = 0)"

interpretation quiet_frame: frame quiet
  by unfold_locales (auto simp: quiet_def)

named_theorems quiet_keeps "functions that do not change the device of a clean file without write access"

lemmas quiet_intros = quiet_frame.keeps_intros

lemma dirty_flag_quiet: "(fl OR EXT2_FLAG_FS_DIRTY) AND EXT2_FLAG_WRITE = fl AND EXT2_FLAG_WRITE"
  by (simp add: flag_defs bit.conj_disj_distrib2)

lemma quiet_upd [quiet_keeps]:
  "keeps quiet (upd_inode g)" "keeps quiet (set_errno e)" "keeps quiet (set_flag EXT2_FLAG_FS_DIRTY)"
  "keeps quiet (upd_de d)" "keeps quiet time_null" "keeps quiet malloc" "keeps quiet (upd_ctx f)"
  "keeps quiet (upd_fe (fe_cursor_update c))"
  by (auto simp: keeps_def quiet_def access_defs set_flag_def upd_de_def time_null_def malloc_def seq_eq_Inr
      bnd_eq_Inr dirty_flag_quiet)

lemma quiet_sys_read [quiet_keeps]: "keeps quiet (sys_read b)"
  by (auto simp: keeps_def quiet_def sys_read_def on_dev_def upd_ctx_def bnd_eq_Inr seq_eq_Inr
      split: sum.splits prod.splits dest: block_read_id)

lemma quiet_block_size [quiet_keeps]: "keeps quiet ext2_block_size"
  unfolding ext2_block_size_def by (intro quiet_intros)

text \<open>Where the code looks at the dirty flag or at the write flag, the other case is not quiet.\<close>

lemma quiet_if_dirty:
  assumes "keeps quiet (k 0)"
  shows "keeps quiet (bnd (gets (\<lambda>s. bo_dirty (buf s))) k)"
  unfolding keeps_def
proof (intro allI impI)
  fix s x t
  assume "bnd (gets (\<lambda>s. bo_dirty (buf s))) k s = Inr (x, t)"
  then show "quiet s t"
    using assms by (cases "bo_dirty (buf s) = 0") (auto simp: keeps_def quiet_def)
qed

lemma quiet_if_writing:
  assumes "keeps quiet (k False)"
  shows "keeps quiet (bnd (gets (\<lambda>s. fe_flags (fe s) AND EXT2_FLAG_WRITE \<noteq> 0)) k)"
  unfolding keeps_def
proof (intro allI impI)
  fix s x t
  assume "bnd (gets (\<lambda>s. fe_flags (fe s) AND EXT2_FLAG_WRITE \<noteq> 0)) k s = Inr (x, t)"
  then show "quiet s t"
    using assms by (cases "fe_flags (fe s) AND EXT2_FLAG_WRITE = 0") (auto simp: keeps_def quiet_def)
qed

lemma quiet_upd_buffer [quiet_keeps]:
  "keeps quiet (upd_buffer (bo_lba_block_update f))" "keeps quiet (upd_buffer (bo_buffer_update g))"
  by (auto simp: keeps_def quiet_def upd_buffer_def)

lemma quiet_on_dev_read [quiet_keeps]: "keeps quiet (on_dev (block_read b x))"
  by (auto simp: keeps_def quiet_def on_dev_def split: sum.splits dest: block_read_id)

lemma quiet_load [quiet_keeps]: "keeps quiet (ext2_load_buffer b off)"
  unfolding ext2_load_buffer_def
  by (rule quiet_if_dirty, simp only: simp_thms if_False, intro quiet_intros quiet_keeps)

lemma quiet_buffer [quiet_keeps]:
  "keeps quiet (ext2_read_buffer off n)" "keeps quiet ext2_buffer_space"
  unfolding ext2_read_buffer_def ext2_buffer_space_def by (intro quiet_intros quiet_keeps)+

lemma quiet_block_from_offset [quiet_keeps]: "keeps quiet (ext2_block_from_offset off)"
  unfolding ext2_block_from_offset_def read_entry_def Let_def by (intro quiet_intros quiet_keeps)

lemma quiet_select [quiet_keeps]: "keeps quiet ext2_select_buffer"
  unfolding ext2_select_buffer_def
  by (intro quiet_if_writing quiet_intros quiet_keeps | simp only: simp_thms if_True)+

lemma quiet_calls [quiet_keeps]:
  "keeps quiet (ext2_lseek v off w)" "keeps quiet (ext2_fstat v)" "keeps quiet (ext2_isatty v)"
proof -
  have bad: "keeps quiet (bad_file v)"
    by (auto simp: keeps_def bad_file_run quiet_frame.R_refl)
  show "keeps quiet (ext2_lseek v off w)" "keeps quiet (ext2_fstat v)" "keeps quiet (ext2_isatty v)"
    unfolding ext2_lseek_def ext2_fstat_def ext2_isatty_def Let_def
    by (intro quiet_intros quiet_keeps bad)+
qed

lemma quiet_read [quiet_keeps]: "keeps quiet (ext2_read v n)"
proof -
  have bad: "keeps quiet (bad_file v)"
    by (auto simp: keeps_def bad_file_run quiet_frame.R_refl)
  have loop: "keeps quiet (read_loop k c i acc)" for k c i acc
    by (induction k arbitrary: i acc)
      (simp_all only: read_loop.simps Let_def, (intro quiet_intros quiet_keeps | assumption)+)
  have "keeps quiet ext2_update_atime"
    unfolding ext2_update_atime_def by (intro quiet_intros quiet_keeps)
  then show ?thesis
    unfolding ext2_read_def by (intro quiet_intros quiet_keeps bad loop)
qed

lemma quiet_readdir [quiet_keeps]: "keeps quiet (ext2_readdir v)"
  unfolding ext2_readdir_def Let_def by (intro quiet_intros quiet_keeps)

lemma quiet_open_inode [quiet_keeps]: "keeps quiet (ext2_open_inode i)"
proof -
  have "keeps quiet (upd_fe (\<lambda>f. f\<lparr>fe_inode := a, fe_inode_number := b, fe_flags := EXT2_FLAG_READ, fe_cursor := 0\<rparr>))"
    for a b
    by (auto simp: keeps_def quiet_def upd_fe_def flag_defs)
  then show ?thesis
    unfolding ext2_open_inode_def by (intro quiet_intros quiet_keeps)
qed

lemma quiet_lookup [quiet_keeps]: "keeps quiet (ext2_lookup_path n path)"
proof -
  have find: "keeps quiet (find_entry n nm)" for n nm
    by (induction n) (simp_all only: find_entry.simps, (intro quiet_intros quiet_keeps | assumption)+)
  have "keeps quiet (lookup_elements n es i)" for es i
    by (induction es arbitrary: i)
      (simp_all only: lookup_elements.simps, (intro quiet_intros quiet_keeps find | assumption)+)
  then show ?thesis
    unfolding ext2_lookup_path_def .
qed

text \<open>Opening without write access.\<close>

lemma quiet_open_existing:
  assumes "fl AND (O_WRONLY OR O_RDWR) = 0"
  shows "keeps quiet (open_existing fl ic)"
  unfolding open_existing_def open_fails_def using assms by (intro quiet_intros quiet_keeps) simp_all

lemma quiet_set_access:
  assumes "fl AND (O_WRONLY OR O_RDWR) = 0"
  shows "keeps quiet (set_flag (O_ACCESS_FLAGS fl))"
proof -
  have "fl AND O_RDWR = (fl AND (O_WRONLY OR O_RDWR)) AND O_RDWR"
    "fl AND O_WRONLY = (fl AND (O_WRONLY OR O_RDWR)) AND O_WRONLY"
    by (simp_all add: and.assoc open_flag_defs)
  then have "fl AND O_RDWR = 0" "fl AND O_WRONLY = 0"
    using assms by simp_all
  then have "(x OR O_ACCESS_FLAGS fl) AND EXT2_FLAG_WRITE = x AND EXT2_FLAG_WRITE" for x
    by (simp add: O_ACCESS_FLAGS_def flag_defs bit.conj_disj_distrib2)
  then show ?thesis
    by (auto simp: keeps_def quiet_def set_flag_def upd_fe_def)
qed

lemma fresh_quiet:
  assumes "keeps quiet body"
  shows "bnd malloc (\<lambda>ok. if \<not> ok then open_fails e else
      seq (upd (fe_update (\<lambda>_. zero_file_ent\<lparr>fe_magic := EMBEXT_MAGIC\<rparr>))) body) s = Inr (r, t)
    \<Longrightarrow> dev t = dev s \<and> (r \<longrightarrow> bo_dirty (buf t) = 0 \<and> fe_flags (fe t) AND EXT2_FLAG_WRITE = 0)"
  using assms
  by (auto simp: bnd_eq_Inr seq_eq_Inr malloc_def open_fails_def set_errno_def keeps_def quiet_def
      zero_file_ent_def split: if_splits)

lemma open_read_only_dev:
  assumes "fl AND (O_WRONLY OR O_RDWR) = 0" "fl AND O_CREAT = 0" "ext2_open (Suc n) name fl mode s = Inr (r, t)"
  shows "dev t = dev s \<and> (r \<longrightarrow> bo_dirty (buf t) = 0 \<and> fe_flags (fe t) AND EXT2_FLAG_WRITE = 0)"
  using assms(3) unfolding ext2_open.simps Let_def assms(2) simp_thms if_True
  by (rule fresh_quiet [rotated])
    (intro quiet_intros quiet_keeps quiet_set_access quiet_open_existing assms(1) | simp only: open_fails_def)+

end
