(* ===== verification/Ext2_Map.thy ===== *)
theory Ext2_Map
  imports Ext2_Inode
begin

text \<open>
  What the block map of an inode means, read directly off the disk: \<open>file_block s n\<close> is the
  partition block that holds block \<open>n\<close> of the open file. The refinement lemmas show that
  \<open>ext2_block_from_offset\<close> computes it and that \<open>ext2_select_buffer\<close> then loads the sector under
  the cursor.
\<close>

section \<open>The specification\<close>

definition epb :: "fs \<Rightarrow> nat" where
  "epb s = 256 * 2 ^ unat (s_log_block_size (sb s))"

definition entry_at :: "fs \<Rightarrow> u32 \<Rightarrow> nat \<Rightarrow> u32" where
  "entry_at s blk k = rd4 (part_sector s (unat blk * spb s + 4 * k div 512)) (4 * k mod 512)"

definition file_block :: "fs \<Rightarrow> nat \<Rightarrow> u32" where
  "file_block s n = (let e = epb s; ib = i_block (ino s) in
     if n < 12 then ib ! n else
     let n = n - 12 in if n < e then entry_at s (ib ! 12) n else
     let n = n - e in if n < e * e then entry_at s (entry_at s (ib ! 13) (n div e)) (n mod e) else
     let n = n - e * e in if n < e * e * e then
       entry_at s (entry_at s (entry_at s (ib ! 14) (n div (e * e))) (n div e mod e)) (n mod e)
     else - 1)"

text \<open>Every indirect block on the way lies in the volume.\<close>

definition file_block_ok :: "fs \<Rightarrow> nat \<Rightarrow> bool" where
  "file_block_ok s n \<longleftrightarrow> (let e = epb s; ib = i_block (ino s) in
     if n < 12 then True else
     let n = n - 12 in if n < e then blk_ok s (ib ! 12) else
     let n = n - e in if n < e * e then blk_ok s (ib ! 13) \<and> blk_ok s (entry_at s (ib ! 13) (n div e)) else
     let n = n - e * e in if n < e * e * e then
       blk_ok s (ib ! 14) \<and> blk_ok s (entry_at s (ib ! 14) (n div (e * e)))
       \<and> blk_ok s (entry_at s (entry_at s (ib ! 14) (n div (e * e))) (n div e mod e))
     else True)"

text \<open>A state in which the map can be followed: a well-formed state with a clean buffer on a
  filesystem with blocks of 1, 2 or 4 KiB.\<close>

definition map_state :: "fs \<Rightarrow> bool" where
  "map_state s \<longleftrightarrow> pc_ok (dev s) \<and> bo_dirty (buf s) = 0 \<and> unat (s_log_block_size (sb s)) \<le> 2"

text \<open>The two states differ at most in the sector held by the (clean) buffer.\<close>

definition same_but_buffer :: "fs \<Rightarrow> fs \<Rightarrow> bool" where
  "same_but_buffer s t \<longleftrightarrow> t = s \<or> (\<exists>m. t = loaded m s)"

section \<open>Reading entries\<close>

lemma epb_bsize: "bsize s = 4 * epb s"
  by (simp add: bsize_def epb_def)

lemma epb_spb: "epb s = 128 * spb s"
  by (simp add: spb_def epb_def)

lemma map_state_log: "map_state s \<Longrightarrow> unat (s_log_block_size (sb s)) < 21"
  by (simp add: map_state_def)

lemma epb_bounds:
  assumes "map_state s"
  shows "256 \<le> epb s" "epb s \<le> 1024" "epb s * epb s \<le> 1048576" "epb s * epb s * epb s \<le> 1073741824"
proof -
  have "unat (s_log_block_size (sb s)) = 0 \<or> unat (s_log_block_size (sb s)) = 1
      \<or> unat (s_log_block_size (sb s)) = 2"
    using assms by (auto simp: map_state_def)
  then show "256 \<le> epb s" "epb s \<le> 1024" "epb s * epb s \<le> 1048576" "epb s * epb s * epb s \<le> 1073741824"
    by (auto simp: epb_def)
qed

lemma same_but_buffer_refl [simp]: "same_but_buffer s s"
  by (simp add: same_but_buffer_def)

lemma same_but_buffer_loaded [simp]: "same_but_buffer s (loaded m s)"
  by (auto simp: same_but_buffer_def)

lemma same_but_buffer_trans: "same_but_buffer s t \<Longrightarrow> same_but_buffer t u \<Longrightarrow> same_but_buffer s u"
  by (auto simp: same_but_buffer_def)

interpretation clean_load: frame same_but_buffer
  by unfold_locales (auto intro: same_but_buffer_trans)

lemma entry_at_loaded [simp]: "entry_at (loaded m s) = entry_at s"
  by (simp add: entry_at_def fun_eq_iff)

lemma epb_loaded [simp]: "epb (loaded m s) = epb s"
  by (simp add: epb_def)

lemma map_state_loaded [simp]: "map_state s \<Longrightarrow> map_state (loaded m s)"
  by (simp add: map_state_def)

lemma file_block_loaded [simp]: "file_block (loaded m s) = file_block s"
  by (simp add: file_block_def Let_def fun_eq_iff)

lemma file_block_ok_loaded [simp]: "file_block_ok (loaded m s) = file_block_ok s"
  by (simp add: file_block_ok_def Let_def fun_eq_iff)

lemma read_entry_run:
  assumes "map_state s" "blk_ok s blk" "k < epb s"
  shows "read_entry blk (of_nat k) s
         = Inr (entry_at s blk k, loaded (unat blk * spb s + 4 * k div 512) s)"
proof -
  have lt: "4 * k < 4294967296" "4 * k div 512 < spb s"
    using assms(3) epb_bounds(2) [OF assms(1)] by (auto simp: epb_spb)
  have k4: "of_nat k * 4 = (of_nat (4 * k) :: u32)"
    by simp
  have u: "unat (of_nat k * 4 :: u32) = 4 * k"
    unfolding k4 using lt(1) by (rule unat_of_nat32)
  let ?n = "unat blk * spb s + 4 * k div 512"
  have inp: "in_part s ?n"
    using assms(2) lt(2) by (rule blk_ok_in_part)
  have load: "ext2_load_buffer blk (of_nat k * 4) s = Inr (0, loaded ?n s)"
    using assms(1) inp by (intro ext2_load_buffer_clean) (simp_all add: map_state_def u)
  have "4 * k mod 512 = 4 * (k mod 128)"
    by (simp add: mult_mod_right)
  then have m: "4 * k mod 512 + 4 \<le> 512"
    using mod_less_divisor [of 128 k] by linarith
  have len: "length (part_sector s ?n) = 512"
    using assms(1) inp by (simp add: length_part_sector map_state_def)
  have "rd4 (slice (4 * k mod 512) 4 (part_sector s ?n)) 0 = entry_at s blk k"
    using m len by (simp add: entry_at_def flip: rd4_slice)
  then show ?thesis
    using m by (simp add: read_entry_def bnd_Inr load ext2_read_buffer_run u)
qed

section \<open>The block map is computed correctly\<close>

lemma block_index_word:
  assumes "unat (off :: u64) div bs < 4294967296" "bs < 4294967296"
  shows "(ucast (off div ucast (of_nat bs :: u32)) :: u32) = of_nat (unat off div bs)"
proof -
  have "unat (ucast (of_nat bs :: u32) :: u64) = bs"
    using assms(2) by (simp add: unsigned_ucast_eq unsigned_of_nat take_bit_nat_eq_self)
  then have "unat (off div ucast (of_nat bs :: u32)) = unat off div bs"
    by (simp add: unat_div)
  then have "unat (ucast (off div ucast (of_nat bs :: u32)) :: u32) = unat off div bs"
    using assms(1) by (simp only: unsigned_ucast_eq) (simp add: take_bit_nat_eq_self)
  then show ?thesis
    using assms(1) by (metis unat_of_nat32 word_unat_eq_iff)
qed

text \<open>The index arithmetic of the code, on values that fit in 32 bits.\<close>

lemma block_size_word:
  assumes "map_state s"
  shows "ext2_block_size s = Inr (of_nat (4 * epb s), s)" "(of_nat (4 * epb s) :: u32) div 4 = of_nat (epb s)"
proof -
  show "ext2_block_size s = Inr (of_nat (4 * epb s), s)"
    using ext2_block_size_run [OF map_state_log [OF assms]] by (simp add: epb_bsize)
  have "(of_nat (4 * epb s) :: u32) div of_nat 4 = of_nat (4 * epb s div 4)"
    using epb_bounds(2) [OF assms] by (intro w32_div) simp_all
  then show "(of_nat (4 * epb s) :: u32) div 4 = of_nat (epb s)"
    by simp
qed

text \<open>The function after the first division, on the block index itself.\<close>

definition map_block :: "u32 \<Rightarrow> u32 \<Rightarrow> (fs, u32) cm" where
  "map_block e block_index =
     (if block_index < 12 then gets (\<lambda>s. i_block (ino s) ! unat block_index) else
     let block_index = block_index - 12 in
     if block_index < e then
       bnd (gets (\<lambda>s. i_block (ino s) ! 12)) (\<lambda>t. read_entry t block_index)
     else
     let block_index = block_index - e in
     if block_index < e * e then
       bnd (gets (\<lambda>s. i_block (ino s) ! 13)) (\<lambda>t.
       bnd (c_div block_index e) (\<lambda>k1. bnd (c_mod block_index e) (\<lambda>k2.
       bnd (read_entry t k1) (\<lambda>block. read_entry block k2))))
     else
     let block_index = block_index - e * e in
     if block_index < e * e * e then
       bnd (gets (\<lambda>s. i_block (ino s) ! 14)) (\<lambda>t.
       bnd (c_div block_index (e * e)) (\<lambda>k1. bnd (c_div block_index e) (\<lambda>q.
       bnd (c_mod q e) (\<lambda>k2. bnd (c_mod block_index e) (\<lambda>k3.
       bnd (read_entry t k1) (\<lambda>block. bnd (read_entry block k2) (\<lambda>block'. read_entry block' k3)))))))
     else ret (-1))"

lemma block_from_offset_map_block:
  "ext2_block_from_offset off
   = bnd ext2_block_size (\<lambda>bs. map_block (bs div 4) (ucast (off div ucast bs)))"
  by (simp add: ext2_block_from_offset_def map_block_def Let_def)

lemma read_entry_word:
  "map_state s \<Longrightarrow> blk_ok s blk \<Longrightarrow> unat x < epb s
   \<Longrightarrow> read_entry blk x s
       = Inr (entry_at s blk (unat x), loaded (unat blk * spb s + 4 * unat x div 512) s)"
  using read_entry_run [of s blk "unat x"] by simp

definition read_entry3 :: "u32 \<Rightarrow> u32 \<Rightarrow> u32 \<Rightarrow> u32 \<Rightarrow> (fs, u32) cm" where
  "read_entry3 t k1 k2 k3 =
     bnd (read_entry t k1) (\<lambda>block. bnd (read_entry block k2) (\<lambda>block'. read_entry block' k3))"

lemma read_entry3_run:
  assumes "map_state s" "unat k1 < epb s" "unat k2 < epb s" "unat k3 < epb s"
    and "blk_ok s t" "blk_ok s (entry_at s t (unat k1))"
      "blk_ok s (entry_at s (entry_at s t (unat k1)) (unat k2))"
  shows "\<exists>u. read_entry3 t k1 k2 k3 s
          = Inr (entry_at s (entry_at s (entry_at s t (unat k1)) (unat k2)) (unat k3), u)
          \<and> same_but_buffer s u"
  using assms by (simp add: read_entry3_def bnd_Inr read_entry_word)

lemma map_block_run:
  assumes s: "map_state s" and ok: "file_block_ok s (unat x)" and e: "unat e = epb s"
  shows "\<exists>t. map_block e x s = Inr (file_block s (unat x), t) \<and> same_but_buffer s t"
proof -
  note b = epb_bounds [OF s]
  let ?E = "epb s"
  have E2: "unat (e * e) = ?E * ?E"
    using b e by (simp add: unat_mult32)
  then have E3: "unat (e * e * e) = ?E * ?E * ?E"
    using b e by (simp add: unat_mult32)
  have nz: "e \<noteq> 0" "e * e \<noteq> 0"
    using e E2 b by auto
  define y where "y = x - 12"
  define z where "z = y - e"
  define u where "u = z - e * e"
  note less = word_less_nat_alt e E2 E3
  show ?thesis
  proof (cases "unat x < 12")
    case True
    then show ?thesis
      by (simp add: map_block_def file_block_def Let_def less)
  next
    case F1: False
    then have y: "unat y = unat x - 12"
      by (simp add: y_def unat_sub32)
    note F1' = F1 y y_def [symmetric]
    show ?thesis
    proof (cases "unat y < ?E")
      case True
      with ok F1 y have "blk_ok s (i_block (ino s) ! 12)"
        by (simp add: file_block_ok_def Let_def)
      with True F1 y show ?thesis
        by (simp add: map_block_def file_block_def Let_def less y_def [symmetric] read_entry_word s)
    next
      case F2: False
      then have z: "unat z = unat y - ?E"
        by (simp add: z_def unat_sub32 e)
      show ?thesis
      proof (cases "unat z < ?E * ?E")
        case True
        have k: "unat (z div e) = unat z div ?E" "unat (z mod e) = unat z mod ?E"
          "unat z div ?E < ?E" "unat z mod ?E < ?E"
          using True b e by (auto simp: unat_div unat_mod less_mult_imp_div_less)
        from True ok F1 F2 y z have "blk_ok s (i_block (ino s) ! 13)"
          "blk_ok s (entry_at s (i_block (ino s) ! 13) (unat z div ?E))"
          by (simp_all add: file_block_ok_def Let_def)
        with True F1 F2 y z k nz s show ?thesis
          by (simp add: map_block_def file_block_def Let_def less y_def [symmetric] z_def [symmetric]
              bnd_Inr c_div_run c_mod_run read_entry_word)
      next
        case F3: False
        then have u: "unat u = unat z - ?E * ?E"
          by (simp add: u_def unat_sub32 E2)
        show ?thesis
        proof (cases "unat u < ?E * ?E * ?E")
          case True
          have k: "unat (u div (e * e)) = unat u div (?E * ?E)" "unat (u div e mod e) = unat u div ?E mod ?E"
            "unat (u mod e) = unat u mod ?E" "unat u div (?E * ?E) < ?E" "unat u div ?E mod ?E < ?E"
            "unat u mod ?E < ?E"
            using True b e E2 by (auto simp: unat_div unat_mod less_mult_imp_div_less mult.commute)
          from True ok F1 F2 F3 y z u have "blk_ok s (i_block (ino s) ! 14)"
            "blk_ok s (entry_at s (i_block (ino s) ! 14) (unat u div (?E * ?E)))"
            "blk_ok s (entry_at s (entry_at s (i_block (ino s) ! 14) (unat u div (?E * ?E))) (unat u div ?E mod ?E))"
            by (simp_all add: file_block_ok_def Let_def)
          then obtain t where t: "read_entry3 (i_block (ino s) ! 14) (u div (e * e)) (u div e mod e) (u mod e) s
              = Inr (entry_at s (entry_at s (entry_at s (i_block (ino s) ! 14) (unat u div (?E * ?E)))
                  (unat u div ?E mod ?E)) (unat u mod ?E), t)" "same_but_buffer s t"
            using read_entry3_run [OF s, of "u div (e * e)" "u div e mod e" "u mod e" "i_block (ino s) ! 14"] k
            by auto
          have "map_block e x s
              = read_entry3 (i_block (ino s) ! 14) (u div (e * e)) (u div e mod e) (u mod e) s"
            using True F1 F2 F3 y z u nz
            by (simp add: map_block_def Let_def less y_def [symmetric] z_def [symmetric] u_def [symmetric]
                bnd_Inr c_div_run c_mod_run read_entry3_def)
          moreover have "file_block s (unat x) = entry_at s (entry_at s (entry_at s (i_block (ino s) ! 14)
              (unat u div (?E * ?E))) (unat u div ?E mod ?E)) (unat u mod ?E)"
            using True F1 F2 F3 y z u by (simp add: file_block_def Let_def)
          ultimately show ?thesis
            using t by simp
        next
          case False
          with F1 F2 F3 y z u show ?thesis
            by (simp add: map_block_def file_block_def Let_def less y_def [symmetric] z_def [symmetric]
                u_def [symmetric])
        qed
      qed
    qed
  qed
qed

lemma ext2_block_from_offset_run:
  assumes s: "map_state s" and ok: "file_block_ok s (unat off div bsize s)"
    and n: "unat off div bsize s < 4294967296"
  shows "\<exists>t. ext2_block_from_offset off s = Inr (file_block s (unat off div bsize s), t) \<and> same_but_buffer s t"
proof -
  have bs: "4 * epb s < 4294967296"
    using epb_bounds [OF s] by simp
  let ?x = "ucast (off div ucast (of_nat (4 * epb s) :: u32)) :: u32"
  have x: "unat ?x = unat off div bsize s"
    using block_index_word [OF _ bs, of off] n by (simp only: epb_bsize unat_of_nat32)
  have e: "unat ((of_nat (4 * epb s) :: u32) div 4) = epb s"
    unfolding block_size_word(2) [OF s] using epb_bounds [OF s] by (intro unat_of_nat32) simp
  show ?thesis
    using map_block_run [OF s _ e, of ?x] ok
    by (simp only: block_from_offset_map_block bnd_Inr [of ext2_block_size, OF block_size_word(1) [OF s]] x)
qed

section \<open>The sector under the cursor\<close>

text \<open>The sector of the partition that holds byte \<open>c\<close> of the open file.\<close>

definition byte_sector :: "fs \<Rightarrow> nat \<Rightarrow> nat" where
  "byte_sector s c = unat (file_block s (c div bsize s)) * spb s + c mod bsize s div 512"

text \<open>Byte \<open>c\<close> can be reached: the maps of its block and of the block before it can be followed (the
  code looks both up), and its block is allocated and lies in the volume.\<close>

definition byte_ok :: "fs \<Rightarrow> nat \<Rightarrow> bool" where
  "byte_ok s c \<longleftrightarrow> (let n = c div bsize s in file_block_ok s n \<and> (0 < n \<longrightarrow> file_block_ok s (n - 1))
     \<and> file_block s n \<noteq> 0 \<and> blk_ok s (file_block s n))"

lemma byte_sector_loaded [simp]: "byte_sector (loaded m s) = byte_sector s"
  by (simp add: byte_sector_def fun_eq_iff)

lemma byte_ok_loaded [simp]: "byte_ok (loaded m s) = byte_ok s"
  by (simp add: byte_ok_def Let_def fun_eq_iff)

lemma map_state_bsize:
  assumes "map_state s"
  shows "bsize s = 1024 \<or> bsize s = 2048 \<or> bsize s = 4096"
proof -
  have "unat (s_log_block_size (sb s)) = 0 \<or> unat (s_log_block_size (sb s)) = 1
      \<or> unat (s_log_block_size (sb s)) = 2"
    using assms by (auto simp: map_state_def)
  then show ?thesis
    by (auto simp: bsize_def)
qed

lemma file_block_last:
  assumes "map_state s"
  shows "file_block_ok s 4294967295"
proof -
  note b = epb_bounds [OF assms]
  have "\<not> 4294967283 - (epb s + epb s * epb s) < epb s * epb s * epb s"
    "\<not> 4294967283 - epb s < epb s * epb s" "\<not> 4294967283 < epb s"
    using b by linarith+
  then show ?thesis
    by (simp add: file_block_ok_def Let_def)
qed

text \<open>Before the first block, the address of the previous block wraps to the largest index.\<close>

lemma previous_of_first:
  assumes s: "map_state s"
  shows "\<exists>b t. ext2_block_from_offset (word_of_int (- int (bsize s))) s = Inr (b, t) \<and> same_but_buffer s t"
proof -
  let ?x = "ucast ((word_of_int (- int (bsize s)) :: u64) div ucast (of_nat (4 * epb s) :: u32)) :: u32"
  have x: "unat ?x = 4294967295"
    using map_state_bsize [OF s] by (auto simp: epb_bsize)
  have e: "unat ((of_nat (4 * epb s) :: u32) div 4) = epb s"
    unfolding block_size_word(2) [OF s] using epb_bounds [OF s] by (intro unat_of_nat32) simp
  have "file_block_ok s (unat ?x)"
    unfolding x using s by (rule file_block_last)
  from map_block_run [OF s this e] show ?thesis
    by (auto simp only: block_from_offset_map_block bnd_Inr [of ext2_block_size, OF block_size_word(1) [OF s]])
qed

lemma unat_word64: "k < 9223372036854775808 \<Longrightarrow> unat (word_of_int (int k) :: u64) = k"
  by (simp only: of_int_of_nat_eq unat_of_nat) simp

lemma previous_block_run:
  assumes s: "map_state s" and c: "fe_cursor (fe s) = int c" "c < 4294967296"
    and ok: "0 < c div bsize s \<Longrightarrow> file_block_ok s (c div bsize s - 1)"
  shows "\<exists>b t. ext2_block_from_offset (word_of_int ((int c sdiv int (bsize s) - 1) * int (bsize s))) s
           = Inr (b, t) \<and> same_but_buffer s t"
proof -
  let ?bs = "bsize s"
  have bs: "0 < ?bs" "?bs \<le> 4096" "1024 \<le> ?bs"
    using map_state_bsize [OF s] by auto
  have q: "int c sdiv int ?bs = int (c div ?bs)"
    using bs by (simp add: sdiv_nonneg zdiv_int)
  show ?thesis
  proof (cases "c div ?bs = 0")
    case True
    then show ?thesis
      using previous_of_first [OF s] by (simp only: q) simp
  next
    case False
    let ?n = "c div ?bs - 1"
    have i: "(int c sdiv int ?bs - 1) * int ?bs = int (?n * ?bs)"
      unfolding q using False by (simp add: of_nat_diff)
    have "?n * ?bs \<le> c"
      by (metis diff_le_self div_times_less_eq_dividend le_trans mult_le_mono1)
    then have u: "unat (word_of_int (int (?n * ?bs)) :: u64) = ?n * ?bs"
      using c(2) by (intro unat_word64) linarith
    have d: "?n * ?bs div ?bs = ?n"
      using bs by simp
    have "?n < 4294967296"
      using c(2) by (meson diff_le_self div_le_dividend le_less_trans le_trans)
    then show ?thesis
      using ext2_block_from_offset_run [OF s, of "word_of_int (int (?n * ?bs))"] ok False
      unfolding i u d by auto
  qed
qed

lemma ext2_select_buffer_run:
  assumes s: "map_state s" and c: "fe_cursor (fe s) = int c" "c < 4294967296" and ok: "byte_ok s c"
  shows "ext2_select_buffer s = Inr (0, loaded (byte_sector s c) s)"
proof -
  let ?n = "c div bsize s"
  have bs: "0 < bsize s" "bsize s \<le> 4096"
    using map_state_bsize [OF s] by auto
  have n: "?n < 4294967296"
    using c(2) by (meson div_le_dividend le_less_trans)
  have u: "unat (word_of_int (int c) :: u64) = c"
    using c(2) by (intro unat_word64) linarith
  obtain t where t: "ext2_block_from_offset (word_of_int (int c)) s = Inr (file_block s ?n, t)"
      "same_but_buffer s t"
    using ext2_block_from_offset_run [OF s, of "word_of_int (int c)"] ok n unfolding u
    by (auto simp: byte_ok_def Let_def)
  have ts: "map_state t" "fe_cursor (fe t) = int c" "bsize t = bsize s" "file_block_ok t = file_block_ok s"
    using t(2) s c by (auto simp: same_but_buffer_def)
  obtain b v where v: "ext2_block_from_offset (word_of_int ((int c sdiv int (bsize s) - 1) * int (bsize s))) t
      = Inr (b, v)" "same_but_buffer t v"
    using previous_block_run [OF ts(1,2) c(2)] ok ts by (auto simp: byte_ok_def Let_def)
  have sv: "same_but_buffer s v"
    using t(2) v(2) by (rule same_but_buffer_trans)
  then have vs: "map_state v" "loaded m v = loaded m s" "blk_ok v = blk_ok s" "spb v = spb s" for m
    using s by (auto simp: same_but_buffer_def)
  have size: "ext2_block_size t = Inr (of_nat (bsize s), t)" "uint (of_nat (bsize s) :: u32) = int (bsize s)"
    using ext2_block_size_run [of t] ts(1,3) unat_bsize [of s] s
    by (simp_all add: map_state_def) (metis le_less_trans uint_nat map_state_log s)
  have r: "int c smod int (bsize s) = int (c mod bsize s)"
    using bs by (simp add: smod_nonneg zmod_int)
  let ?m = "c mod bsize s"
  have m: "?m < bsize s" "?m < 4294967296"
    using bs by (auto intro: less_le_trans [OF mod_less_divisor])
  have um: "unat (of_nat ?m :: u32) = ?m"
    using m(2) by (rule unat_of_nat32)
  have "?m div 512 < spb s"
    using m(1) unfolding bsize_spb by (intro less_mult_imp_div_less) (simp add: mult.commute)
  then have inp: "in_part v (byte_sector s c)"
    using ok sv blk_ok_in_part [of v "file_block s ?n"] vs
    by (simp add: byte_ok_def byte_sector_def Let_def)
  have load: "ext2_load_buffer (file_block s ?n) (word_of_int (int ?m)) v = Inr (0, loaded (byte_sector s c) s)"
    using vs(1) inp unfolding vs(2) [symmetric]
    by (intro ext2_load_buffer_clean) (simp_all add: map_state_def um byte_sector_def vs(4))
  have "file_block s ?n \<noteq> 0"
    using ok by (simp add: byte_ok_def Let_def)
  then show ?thesis
    by (simp only: ext2_select_buffer_def bnd_gets c(1) bnd_Inr t(1) size v(1) r load if_True not_False_eq_True)
      simp
qed

end
