(* ===== verification/Ext2_Io.thy ===== *)
theory Ext2_Io
  imports Ext2_Map Ext2_File Ext2_Demo
begin

text \<open>
  What reading and writing mean for the bytes of a file. \<open>file_byte s k\<close> is byte \<open>k\<close> of the open
  file as the disk holds it; \<open>ext2_read\<close> returns exactly these bytes as long as it stays within one
  512-byte sector, and overruns the buffer as soon as it does not. \<open>ext2_write\<close> replaces the bytes
  under the cursor.
\<close>

unbundle bit_operations_syntax

section \<open>The bytes of a file\<close>

definition file_byte :: "fs \<Rightarrow> nat \<Rightarrow> u8" where
  "file_byte s k = part_sector s (byte_sector s k) ! (k mod 512)"

lemma byte_sector_alt:
  "byte_sector s c = unat (file_block s (c div 512 div spb s)) * spb s + c div 512 mod spb s"
proof -
  have "c mod (512 * spb s) = 512 * (c div 512 mod spb s) + c mod 512"
    by (simp add: mod_mult2_eq)
  then have "c mod (512 * spb s) div 512 = c div 512 mod spb s"
    by simp
  then show ?thesis
    by (simp add: byte_sector_def bsize_spb div_mult2_eq)
qed

lemma same_sector:
  assumes "c mod 512 + n \<le> 512" "i < n"
  shows "(c + i) div 512 = c div (512::nat)"
proof -
  have "c + i = c mod 512 + i + 512 * (c div 512)"
    by simp
  then have "(c + i) div 512 = c div 512 + (c mod 512 + i) div 512"
    by (metis div_mult_self2 zero_neq_numeral)
  then show ?thesis
    using assms by simp
qed

lemma sector_bytes:
  assumes "map_state s" "in_part s (byte_sector s c)" "c mod 512 + n \<le> 512"
  shows "slice (c mod 512) n (part_sector s (byte_sector s c)) = map (file_byte s) [c..<c + n]"
proof (rule nth_equalityI)
  have len: "length (part_sector s (byte_sector s c)) = 512"
    using assms by (simp add: length_part_sector map_state_def)
  then show "length (slice (c mod 512) n (part_sector s (byte_sector s c)))
      = length (map (file_byte s) [c..<c + n])"
    using assms(3) by simp
  fix i
  assume "i < length (slice (c mod 512) n (part_sector s (byte_sector s c)))"
  then have i: "i < n" "c mod 512 + i < 512"
    using assms(3) by auto
  then have "(c + i) mod 512 = c mod 512 + i"
    by (metis mod_add_left_eq mod_less)
  moreover have "byte_sector s (c + i) = byte_sector s c"
    using same_sector [OF assms(3) i(1)] by (simp add: byte_sector_alt)
  ultimately show "slice (c mod 512) n (part_sector s (byte_sector s c)) ! i
      = map (file_byte s) [c..<c + n] ! i"
    using i len assms(3) by (simp add: slice_nth file_byte_def)
qed

lemma byte_ok_in_part:
  assumes "map_state s" "byte_ok s c"
  shows "in_part s (byte_sector s c)"
proof -
  have "c mod bsize s < bsize s"
    using map_state_bsize [OF assms(1)] by (intro mod_less_divisor) auto
  then have "c mod bsize s div 512 < spb s"
    unfolding bsize_spb by (intro less_mult_imp_div_less) (simp add: mult.commute)
  then show ?thesis
    using assms(2) unfolding byte_sector_def by (intro blk_ok_in_part) (simp_all add: byte_ok_def Let_def)
qed

section \<open>Reading\<close>

text \<open>The state after copying \<open>n\<close> bytes, and after the time stamp.\<close>

definition advanced :: "nat \<Rightarrow> fs \<Rightarrow> fs" where
  "advanced n s = s\<lparr>fe := (fe s)\<lparr>fe_cursor := fe_cursor (fe s) + int n\<rparr>\<rparr>"

lemma advance_upd: "fe_update (fe_cursor_update (\<lambda>k. k + int n)) s = advanced n s"
  by (cases s; cases "fe s") (simp add: advanced_def)

definition accessed :: "fs \<Rightarrow> fs" where
  "accessed s = s\<lparr>fe := (fe s)\<lparr>fe_inode := (ino s)\<lparr>i_atime := clock s (ticks s)\<rparr>,
     fe_flags := fe_flags (fe s) OR EXT2_FLAG_FS_DIRTY\<rparr>, ticks := Suc (ticks s)\<rparr>"

lemma ext2_update_atime_run: "ext2_update_atime s = Inr (0, accessed s)"
  by (simp add: ext2_update_atime_def time_null_def accessed_def access_defs set_flag_def bnd_def seq_def)

text \<open>How many bytes one round copies.\<close>

lemma uint_le_int: "uint (w :: u32) \<le> int c \<longleftrightarrow> unat w \<le> c"
  by (simp only: uint_nat of_nat_le_iff)

lemma ucast_le_unat: "unat (x :: u64) \<le> unat (y :: u32) \<Longrightarrow> unat (ucast x :: u32) = unat x"
  using unat_lt32 [of y] by (simp only: unsigned_ucast_eq) (simp add: take_bit_nat_eq_self)

lemma unat_amount_in_buffer: "unat (amount_in_buffer left space) = min (unat left) (unat space)"
  by (simp add: amount_in_buffer_def word_less_nat_alt unat_ucast64 ucast_le_unat [of left space])

lemma unat_amount_in_file:
  assumes "c \<le> unat sz"
  shows "unat (amount_in_file amount (uint (sz :: u32) - int c)) = min (unat amount) (unat sz - c)"
proof -
  have rest: "uint sz - int c = int (unat sz - c)"
    unfolding uint_nat using assms by (rule of_nat_diff [symmetric])
  have "unat sz - c < 4294967296"
    using unat_lt32 [of sz] by linarith
  then have r: "unat (word_of_int (int (unat sz - c)) :: u32) = unat sz - c"
    unfolding of_int_of_nat_eq by (rule unat_of_nat32)
  show ?thesis
    unfolding amount_in_file_def rest uint_nat [of amount]
    by (simp only: if_distrib [of unat] r of_nat_less_iff) (simp only: min_def, arith)
qed

lemma buffer_space_word:
  assumes "map_state s" "fe_cursor (fe s) = int c"
  shows "\<exists>space. ext2_buffer_space s = Inr (space, s) \<and> unat space = bsize s - 1 - c mod 512"
proof -
  have log: "unat (s_log_block_size (sb s)) < 21"
    using assms(1) by (rule map_state_log)
  have "nat (fe_cursor (fe s) mod 512) = c mod 512"
    using assms(2) by (simp add: nat_mod_distrib)
  then show ?thesis
    using ext2_buffer_space_run [OF log] unat_buffer_space(1) [OF log ext2_buffer_space_run [OF log]] by simp
qed

text \<open>The offset handed to the buffer.\<close>

lemma buffer_offset:
  assumes "map_state s"
  shows "unat (word_of_int (int c smod uint (of_nat (bsize s) :: u32)) :: u32) mod 512 = c mod 512"
proof -
  have bs: "0 < bsize s" "bsize s < 4294967296"
    using map_state_bsize [OF assms] by auto
  have u: "uint (of_nat (bsize s) :: u32) = int (bsize s)"
    unfolding uint_nat unat_of_nat32 [OF bs(2)] by (rule refl)
  have "int c smod int (bsize s) = int (c mod bsize s)"
    using bs by (simp add: smod_nonneg zmod_int)
  moreover have "c mod bsize s < 4294967296"
    using bs by (meson less_trans mod_less_divisor)
  ultimately have "unat (word_of_int (int c smod uint (of_nat (bsize s) :: u32)) :: u32) = c mod bsize s"
    unfolding u by (simp only: of_int_of_nat_eq unat_of_nat32)
  then show ?thesis
    unfolding bsize_spb by (simp add: mod_mult2_eq)
qed

lemma block_size_u32: "map_state s \<Longrightarrow> ext2_block_size s = Inr (of_nat (bsize s), s)"
  by (intro ext2_block_size_run map_state_log)

lemma read_loop_first:
  assumes s: "map_state s" and c: "fe_cursor (fe s) = int c" and n: "0 < count" "c < unat (i_size (ino s))"
    and ok: "byte_ok s c"
    and m: "m = min (min (unat count) (bsize s - 1 - c mod 512)) (unat (i_size (ino s)) - c)"
  shows "read_loop (Suc f) count 0 [] s =
     (if c mod 512 + m \<le> 512
      then read_loop f count (of_nat m) (map (file_byte s) [c..<c + m]) (advanced m (loaded (byte_sector s c) s))
      else Inl Overrun)"
proof -
  let ?t = "loaded (byte_sector s c) s"
  have c32: "c < 4294967296"
    using n(2) unat_lt32 [of "i_size (ino s)"] by linarith
  have t: "map_state ?t" "fe_cursor (fe ?t) = int c" "i_size (ino ?t) = i_size (ino s)"
    using s c by simp_all
  note sel = ext2_select_buffer_run [OF s c c32 ok]
  obtain space where space: "ext2_buffer_space ?t = Inr (space, ?t)" "unat space = bsize s - 1 - c mod 512"
    using buffer_space_word [OF t(1,2)] by auto
  define a where "a = amount_in_file (amount_in_buffer count space) (uint (i_size (ino s)) - int c)"
  have ua: "unat a = m"
    unfolding a_def m using n(2) by (simp add: unat_amount_in_file unat_amount_in_buffer space(2))
  have a: "a = of_nat m" "uint a = int m"
    by (simp flip: ua) (simp only: uint_nat ua)
  have eof: "\<not> uint (i_size (ino s)) \<le> int c"
    using n(2) by (simp add: uint_le_int)
  let ?off = "word_of_int (int c smod uint (of_nat (bsize s) :: u32)) :: u32"
  have run: "read_loop (Suc f) count 0 [] s
      = bnd (ext2_read_buffer ?off m) (\<lambda>bytes.
        seq (upd_fe (fe_cursor_update (\<lambda>k. k + int m))) (read_loop f count (of_nat m) bytes)) ?t"
    using n(1) sel space(1) eof block_size_u32 [OF t(1)] c a(2) ua
    by (simp add: bnd_Inr a_def [symmetric]) (simp add: a(1))
  show ?thesis
  proof (cases "c mod 512 + m \<le> 512")
    case True
    have inp: "in_part s (byte_sector s c)"
      using byte_ok_in_part [OF s ok] .
    have "slice (c mod 512) m (bo_buffer (buf ?t)) = map (file_byte s) [c..<c + m]"
      using sector_bytes [OF s inp True] by simp
    then show ?thesis
      unfolding run using True
      by (simp add: bnd_Inr ext2_read_buffer_run buffer_offset [OF s] upd_fe_def advance_upd)
  next
    case False
    then show ?thesis
      unfolding run by (simp add: bnd_Inl ext2_read_buffer_overrun buffer_offset [OF s])
  qed
qed

text \<open>The part of a read that stays in the sector.\<close>

definition read_count :: "fs \<Rightarrow> nat \<Rightarrow> nat \<Rightarrow> nat" where
  "read_count s c count = min count (unat (i_size (ino s)) - c)"

lemma read_loop_run:
  assumes s: "map_state s" and c: "fe_cursor (fe s) = int c"
    and n: "n = read_count s c (unat count)" and ok: "0 < n \<Longrightarrow> byte_ok s c"
  shows "read_loop (Suc (unat count)) count 0 [] s =
     (if n = 0 then Inr ((False, 0, []), s)
      else if c mod 512 + n \<le> 512
      then Inr ((False, of_nat n, map (file_byte s) [c..<c + n]), advanced n (loaded (byte_sector s c) s))
      else Inl Overrun)"
proof (cases "n = 0")
  case True
  then have "count = 0 \<or> uint (i_size (ino s)) \<le> int c"
    using n by (auto simp: read_count_def uint_le_int unat_eq_0 min_def split: if_splits)
  then have "read_loop (Suc f) count 0 [] s = Inr ((False, 0, []), s)" for f
    by (elim disjE) (simp_all only: read_loop.simps c bnd_gets if_True, simp_all add: c)
  then show ?thesis
    using True by (simp del: read_loop.simps)
next
  case False
  then have pos: "0 < count" "c < unat (i_size (ino s))"
    using n by (auto simp: read_count_def word_gt_0)
  obtain f where f: "unat count = Suc f"
    using pos(1) by (cases "unat count") (auto simp: unat_eq_0)
  define sp where "sp = bsize s - 1 - c mod 512"
  have bs: "1024 \<le> bsize s"
    using map_state_bsize [OF s] by auto
  have m: "min (min (unat count) sp) (unat (i_size (ino s)) - c) = min n sp"
    by (simp add: n read_count_def min.assoc min.commute min.left_commute)
  have iff: "c mod 512 + min n sp \<le> 512 \<longleftrightarrow> c mod 512 + n \<le> 512"
    using bs by (auto simp: sp_def)
  note first = read_loop_first [OF s c pos ok refl, of "Suc f", folded sp_def, unfolded m iff]
  show ?thesis
  proof (cases "c mod 512 + n \<le> 512")
    case True
    then have n': "min n sp = n"
      using bs by (auto simp: sp_def)
    have n32: "unat (of_nat n :: u32) = n"
      using True by (intro unat_of_nat32) simp
    let ?t = "advanced n (loaded (byte_sector s c) s)"
    have cur: "fe_cursor (fe ?t) = int (c + n)" "i_size (ino ?t) = i_size (ino s)"
      using c by (simp_all add: advanced_def)
    have "\<not> ucast (of_nat n :: u32) < count \<or> uint (i_size (ino ?t)) \<le> fe_cursor (fe ?t)"
      using n pos(2) unfolding cur uint_le_int word_less_nat_alt unat_ucast64 n32
      by (auto simp: read_count_def)
    then have "read_loop (Suc f) count (of_nat n) bytes ?t = Inr ((False, of_nat n, bytes), ?t)" for bytes
      by auto
    then show ?thesis
      using first True False by (simp add: n' f del: read_loop.simps)
  next
    case False
    with \<open>n \<noteq> 0\<close> first show ?thesis
      by (simp add: f del: read_loop.simps)
  qed
qed

text \<open>The state after a successful read of \<open>n\<close> bytes at \<open>c\<close>.\<close>

definition after_read :: "nat \<Rightarrow> nat \<Rightarrow> fs \<Rightarrow> fs" where
  "after_read c n s = (if n = 0 then s else accessed (advanced n (loaded (byte_sector s c) s)))"

lemma to_int32_small: "n \<le> 512 \<Longrightarrow> to_int32 (uint (of_nat n :: u32)) = int n"
  by (simp only: uint_nat unat_of_nat32) (simp add: unat_of_nat32 to_int32_id)

lemma ext2_read_open:
  assumes "fe_magic (fe s) = EMBEXT_MAGIC"
  shows "ext2_read TheFe count s = bnd (read_loop (Suc (unat count)) count 0 []) (\<lambda>(failed, i, bytes).
      if failed then ret (-1, bytes) else
      bnd (if i > 0 then ext2_update_atime else ret 0) (\<lambda>_. ret (to_int32 (uint i), bytes))) s"
proof -
  have bad: "bad_file TheFe s = Inr (False, s)"
    using assms by (simp add: bad_file_def)
  show ?thesis
    by (simp add: ext2_read_def bnd_Inr [of "bad_file TheFe", OF bad] del: read_loop.simps)
qed

lemma ext2_read_run:
  assumes s: "map_state s" and c: "fe_cursor (fe s) = int c" and m: "fe_magic (fe s) = EMBEXT_MAGIC"
    and n: "n = read_count s c (unat count)" and ok: "0 < n \<Longrightarrow> byte_ok s c"
  shows "ext2_read TheFe count s =
     (if n = 0 \<or> c mod 512 + n \<le> 512
      then Inr ((int n, map (file_byte s) [c..<c + n]), after_read c n s) else Inl Overrun)"
proof -
  note read = ext2_read_open [OF m, of count]
  note loop = read_loop_run [OF s c n ok]
  consider "n = 0" | "0 < n" "c mod 512 + n \<le> 512" | "0 < n" "512 < c mod 512 + n"
    by linarith
  then show ?thesis
  proof cases
    case 1
    then show ?thesis
      using loop by (simp add: read bnd_Inr after_read_def to_int32_id del: read_loop.simps)
  next
    case 2
    then have "(0 :: u32) < of_nat n"
      by (simp add: word_less_nat_alt unat_of_nat32)
    then show ?thesis
      using 2 loop by (simp add: read bnd_Inr after_read_def ext2_update_atime_run
          to_int32_small del: read_loop.simps)
  next
    case 3
    then show ?thesis
      using loop by (simp add: read bnd_Inl del: read_loop.simps)
  qed
qed

lemma read_nothing:
  assumes c: "fe_cursor (fe s) = int c" and m: "fe_magic (fe s) = EMBEXT_MAGIC"
    and n: "read_count s c (unat count) = 0"
  shows "ext2_read TheFe count s = Inr ((0, []), s)"
proof -
  have "count = 0 \<or> uint (i_size (ino s)) \<le> int c"
    using n by (auto simp: read_count_def uint_le_int unat_eq_0 min_def split: if_splits)
  then have "read_loop (Suc f) count 0 [] s = Inr ((False, 0, []), s)" for f
    by (elim disjE) (simp_all only: read_loop.simps c bnd_gets if_True, simp_all add: c)
  then show ?thesis
    by (simp add: ext2_read_open [OF m] bnd_Inr to_int32_id del: read_loop.simps)
qed

section \<open>A dirty buffer is written back first\<close>

text \<open>The states in which files are read and written: the buffer is clean, or it holds a sector of
  the volume, and following the map makes sense once it is written back.\<close>

definition buffer_ok :: "fs \<Rightarrow> bool" where
  "buffer_ok s \<longleftrightarrow> length (bo_buffer (buf s)) = 512 \<and> in_part s (unat (bo_lba_block (buf s)))"

definition settled :: "fs \<Rightarrow> fs" where
  "settled s = (if bo_dirty (buf s) = 0 then s else stored s)"

definition io_state :: "fs \<Rightarrow> bool" where
  "io_state s \<longleftrightarrow> pc_ok (dev s) \<and> unat (s_log_block_size (sb s)) \<le> 2
     \<and> (bo_dirty (buf s) \<noteq> 0 \<longrightarrow> buffer_ok s)"

lemma settled_fields [simp]:
  "ctx (settled s) = ctx s" "fe_inode (fe (settled s)) = fe_inode (fe s)"
  "fe_cursor (fe (settled s)) = fe_cursor (fe s)" "fe_flags (fe (settled s)) = fe_flags (fe s)"
  "fe_magic (fe (settled s)) = fe_magic (fe s)" "bo_dirty (buf (settled s)) = 0"
  by (simp_all add: settled_def)

lemma settled_view [simp]:
  "in_part (settled s) = in_part s" "spb (settled s) = spb s" "bsize (settled s) = bsize s"
  "blk_ok (settled s) = blk_ok s"
  by (simp_all add: settled_def)

lemma epb_stored [simp]: "epb (stored s) = epb s"
  by (simp add: epb_def)

lemma map_state_settled: "io_state s \<Longrightarrow> map_state (settled s)"
  by (auto simp: map_state_def io_state_def settled_def buffer_ok_def intro: pc_ok_stored)

lemma load_buffer_dirty:
  "io_state s \<Longrightarrow> bo_dirty (buf s) \<noteq> 0 \<Longrightarrow> ext2_load_buffer b off s = ext2_load_buffer b off (stored s)"
  by (intro ext2_load_buffer_dirty) (simp_all add: io_state_def buffer_ok_def)

lemma read_entry_dirty:
  "io_state s \<Longrightarrow> bo_dirty (buf s) \<noteq> 0 \<Longrightarrow> read_entry b k s = read_entry b k (stored s)"
  by (simp add: read_entry_def bnd_def load_buffer_dirty)

text \<open>Following the map of a file with a dirty buffer either writes the buffer back first or does
  not look at the disk at all.\<close>

definition store_or_skip :: "(fs, 'a) cm \<Rightarrow> fs \<Rightarrow> bool" where
  "store_or_skip m s \<longleftrightarrow> m s = m (stored s) \<or> (\<exists>b. m s = Inr (b, s) \<and> m (stored s) = Inr (b, stored s))"

lemma map_block_dirty:
  assumes "io_state s" "bo_dirty (buf s) \<noteq> 0" "e \<noteq> 0" "e * e \<noteq> 0"
  shows "store_or_skip (map_block e x) s"
  using assms(3,4) read_entry_dirty [OF assms(1,2)]
  by (simp add: store_or_skip_def map_block_def Let_def bnd_Inr c_div_run c_mod_run)
    (simp add: bnd_def)

lemma block_from_offset_dirty:
  assumes s: "io_state s" and d: "bo_dirty (buf s) \<noteq> 0"
  shows "store_or_skip (ext2_block_from_offset off) s"
proof -
  have m: "map_state (stored s)"
    using map_state_settled [OF s] d by (simp add: settled_def)
  have size: "ext2_block_size s = Inr (of_nat (4 * epb s), s)"
    using s by (intro ext2_block_size_run [of s, unfolded epb_bsize]) (simp add: io_state_def)
  note b = epb_bounds [OF m, unfolded epb_stored]
  have size': "ext2_block_size (stored s) = Inr (of_nat (4 * epb s), stored s)"
    using block_size_word(1) [OF m] by simp
  let ?e = "(of_nat (4 * epb s) :: u32) div 4"
  have ue: "unat ?e = epb s"
    unfolding block_size_word(2) [OF m, unfolded epb_stored] using b by (intro unat_of_nat32) simp
  then have "unat (?e * ?e) = epb s * epb s"
    using b by (simp only: unat_mult32)
  then have e: "?e \<noteq> 0" "?e * ?e \<noteq> 0"
    using b ue unat_eq_0 [of ?e] unat_eq_0 [of "?e * ?e"] by auto
  show ?thesis
    using map_block_dirty [OF s d e] size size'
    by (simp add: store_or_skip_def block_from_offset_map_block bnd_Inr)
qed

lemma store_or_skip_bnd:
  "store_or_skip m s \<Longrightarrow> (\<And>x. m (stored s) = Inr (x, stored s) \<Longrightarrow> k x s = k x (stored s))
   \<Longrightarrow> bnd m k s = bnd m k (stored s)"
  by (auto simp: store_or_skip_def bnd_def)

lemma select_dirty:
  assumes s: "io_state s" and d: "bo_dirty (buf s) \<noteq> 0"
    and c: "fe_cursor (fe s) = int c" "c < 4294967296" and ok: "byte_ok (stored s) c"
  shows "ext2_select_buffer s = ext2_select_buffer (stored s)"
proof -
  let ?n = "c div bsize s"
  have m: "map_state (stored s)"
    using map_state_settled [OF s] d by (simp add: settled_def)
  have u: "unat (word_of_int (int c) :: u64) = c"
    using c(2) by (intro unat_word64) linarith
  have "?n < 4294967296"
    using c(2) by (meson div_le_dividend le_less_trans)
  then obtain t where t: "ext2_block_from_offset (word_of_int (int c)) (stored s)
      = Inr (file_block (stored s) ?n, t)"
    using ext2_block_from_offset_run [OF m, of "word_of_int (int c)"] ok unfolding u
    by (auto simp: byte_ok_def Let_def)
  have nz: "file_block (stored s) ?n \<noteq> 0"
    using ok by (simp add: byte_ok_def Let_def)
  have size: "ext2_block_size s = Inr (of_nat (bsize s), s)"
      "ext2_block_size (stored s) = Inr (of_nat (bsize s), stored s)"
    using s block_size_u32 [OF m] by (simp_all add: io_state_def ext2_block_size_run)
  show ?thesis
    unfolding ext2_select_buffer_def bnd_gets stored_fields c(1)
  proof (rule store_or_skip_bnd [OF block_from_offset_dirty [OF s d]], goal_cases)
    case (1 block)
    then have nz': "block \<noteq> 0"
      using t nz by simp
    have "bnd (ext2_load_buffer block off) (\<lambda>_. ret (0 :: int)) s
        = bnd (ext2_load_buffer block off) (\<lambda>_. ret 0) (stored s)" for off
      using load_buffer_dirty [OF s d] by (simp add: bnd_def)
    then show ?case
      by (simp only: bnd_Inr size nz' if_True not_False_eq_True)
        (rule store_or_skip_bnd [OF block_from_offset_dirty [OF s d]])
  qed
qed

lemma select_run:
  assumes s: "io_state s" and c: "fe_cursor (fe s) = int c" "c < 4294967296" and ok: "byte_ok (settled s) c"
  shows "ext2_select_buffer s = Inr (0, loaded (byte_sector (settled s) c) (settled s))"
proof (cases "bo_dirty (buf s) = 0")
  case True
  then show ?thesis
    using ext2_select_buffer_run [of s c] map_state_settled [OF s] c ok by (simp add: settled_def)
next
  case False
  then show ?thesis
    using ext2_select_buffer_run [of "stored s" c] map_state_settled [OF s] c ok select_dirty [OF s False c]
    by (simp add: settled_def)
qed

lemma read_settled:
  assumes s: "io_state s" and c: "fe_cursor (fe s) = int c" and n: "0 < read_count s c (unat count)"
    and ok: "byte_ok (settled s) c" and m: "fe_magic (fe s) = EMBEXT_MAGIC"
  shows "ext2_read TheFe count s = ext2_read TheFe count (settled s)"
proof (cases "bo_dirty (buf s) = 0")
  case False
  then have st: "settled s = stored s"
    by (simp add: settled_def)
  have pos: "c < unat (i_size (ino s))"
    using n by (auto simp: read_count_def)
  then have "c < 4294967296"
    using unat_lt32 [of "i_size (ino s)"] by linarith
  then have "ext2_select_buffer s = ext2_select_buffer (stored s)"
    using ok s False c by (intro select_dirty) (simp_all add: st)
  then have "bnd ext2_select_buffer k s = bnd ext2_select_buffer k (stored s)"
    for k :: "int \<Rightarrow> (fs, bool \<times> u32 \<times> u8 list) cm"
    by (simp add: bnd_def)
  moreover have "\<not> uint (i_size (ino s)) \<le> int c" "(0 :: u64) < count"
    using n by (auto simp: uint_le_int read_count_def word_gt_0)
  ultimately have "read_loop (Suc f) count 0 [] s = read_loop (Suc f) count 0 [] (stored s)" for f
    using c by simp
  then show ?thesis
    unfolding st using m by (simp add: ext2_read_def bad_file_def bnd_def del: read_loop.simps)
qed (simp add: settled_def)

section \<open>Writing\<close>

definition grown :: "fs \<Rightarrow> fs" where
  "grown s = (if fe_cursor (fe s) > uint (i_size (ino s))
     then s\<lparr>fe := (fe s)\<lparr>fe_inode := (ino s)\<lparr>i_size := word_of_int (fe_cursor (fe s))\<rparr>,
              fe_flags := fe_flags (fe s) OR EXT2_FLAG_FS_DIRTY\<rparr>\<rparr> else s)"

definition modified :: "fs \<Rightarrow> fs" where
  "modified s = s\<lparr>fe := (fe s)\<lparr>fe_inode := (ino s)\<lparr>i_mtime := clock s (ticks s)\<rparr>,
     fe_flags := fe_flags (fe s) OR EXT2_FLAG_FS_DIRTY\<rparr>, ticks := Suc (ticks s)\<rparr>"

lemma ext2_update_mtime_run: "ext2_update_mtime s = Inr (0, modified s)"
  by (simp add: ext2_update_mtime_def time_null_def modified_def access_defs set_flag_def bnd_def seq_def)

lemma grow_run:
  "seq (if fe_cursor (fe u) > uint (i_size (ino u))
        then seq (upd (\<lambda>s. fe_update (fe_inode_update (i_size_update (\<lambda>_. word_of_int (fe_cursor (fe s))))) s))
               (set_flag EXT2_FLAG_FS_DIRTY) else ret ()) m u = m (grown u)"
  by (cases u; cases "fe u"; cases "ino u")
    (simp add: grown_def set_flag_def access_defs seq_def bnd_def)

text \<open>The state in which the bytes are in the buffer, and the one after the call.\<close>

definition put_bytes :: "nat \<Rightarrow> u8 list \<Rightarrow> fs \<Rightarrow> fs" where
  "put_bytes c bytes s = patched (c mod 512) bytes (loaded (byte_sector (settled s) c) (settled s))"

definition after_write :: "nat \<Rightarrow> u8 list \<Rightarrow> fs \<Rightarrow> fs" where
  "after_write c bytes s =
     (if bytes = [] then s else modified (grown (advanced (length bytes) (put_bytes c bytes s))))"

lemma write_loop_selected:
  assumes sel: "ext2_select_buffer s = Inr (0, t)" and t: "map_state t" "fe_cursor (fe t) = int c"
    and n: "0 < length bytes" "length bytes < 2 ^ 63"
  shows "write_loop (Suc (length bytes)) bytes 0 s =
     (if c mod 512 + length bytes \<le> 512
      then Inr ((False, of_nat (length bytes)), grown (advanced (length bytes) (patched (c mod 512) bytes t)))
      else Inl Overrun)"
proof -
  let ?n = "length bytes"
  obtain space where space: "ext2_buffer_space t = Inr (space, t)" "unat space = bsize t - 1 - c mod 512"
    using buffer_space_word [OF t(1,2)] by auto
  have bs: "1024 \<le> bsize t"
    using map_state_bsize [OF t(1)] by auto
  have un: "unat (of_nat ?n :: u64) = ?n"
    using n(2) by (simp only: unat_of_nat) simp
  have pos: "(0 :: u64) < of_nat ?n"
    unfolding word_less_nat_alt un using n(1) by simp
  define a where "a = amount_in_buffer (of_nat ?n) space"
  have ua: "unat a = min ?n (bsize t - 1 - c mod 512)"
    by (simp only: a_def unat_amount_in_buffer space(2) un)
  let ?off = "word_of_int (int c smod uint (of_nat (bsize t) :: u32)) :: u32"
  define rest where "rest f = bnd (gets (\<lambda>s. fe_cursor (fe s) > uint (i_size (ino s)))) (\<lambda>grown.
      seq (if grown then seq (upd (\<lambda>s. fe_update (fe_inode_update (i_size_update
             (\<lambda>_. word_of_int (fe_cursor (fe s))))) s)) (set_flag EXT2_FLAG_FS_DIRTY) else ret ())
      (write_loop f bytes a))" for f
  have run: "write_loop (Suc f) bytes 0 s
      = bnd (ext2_write_buffer (slice 0 (unat a) bytes) ?off) (\<lambda>_.
        seq (upd_fe (fe_cursor_update (\<lambda>k. k + uint a))) (rest f)) t" for f
    using pos sel space(1) block_size_u32 [OF t(1)] t(2)
    by (simp add: bnd_Inr a_def [symmetric] rest_def)
  note off = buffer_offset [OF t(1), of c]
  show ?thesis
  proof (cases "c mod 512 + ?n \<le> 512")
    case True
    then have ua': "unat a = ?n"
      using ua bs by auto
    have a: "a = of_nat ?n" "uint a = int ?n"
      by (simp flip: ua') (simp only: uint_nat ua')
    have "\<not> ucast a < (of_nat ?n :: u64)"
      unfolding word_less_nat_alt unat_ucast64 ua' un by simp
    then have "write_loop (Suc f) bytes a u = Inr ((False, a), u)" for f u
      by simp
    moreover obtain f where f: "?n = Suc f"
      using n(1) by (cases ?n) auto
    ultimately have "rest ?n u = Inr ((False, a), grown u)" for u
      unfolding rest_def bnd_gets grow_run f by simp
    then show ?thesis
      unfolding run a(2) ua' using True off
      by (simp add: bnd_Inr ext2_write_buffer_run upd_fe_def advance_upd a(1))
  next
    case False
    then have "512 < c mod 512 + unat a"
      using ua bs by auto
    then show ?thesis
      unfolding run using False off by (simp add: bnd_Inl ext2_write_buffer_overrun)
  qed
qed

lemma ext2_write_selected:
  assumes sel: "bytes \<noteq> [] \<Longrightarrow> ext2_select_buffer s = Inr (0, t) \<and> map_state t \<and> fe_cursor (fe t) = int c"
    and m: "fe_magic (fe s) = EMBEXT_MAGIC" and w: "fe_flags (fe s) AND EXT2_FLAG_WRITE \<noteq> 0"
    and na: "fe_flags (fe s) AND EXT2_FLAG_APPEND = 0" and len: "length bytes < 2 ^ 63"
  shows "ext2_write TheFe bytes s =
     (if bytes = [] then Inr (0, s)
      else if c mod 512 + length bytes \<le> 512
      then Inr (int (length bytes), modified (grown (advanced (length bytes) (patched (c mod 512) bytes t)))) else Inl Overrun)"
proof -
  have bad: "bad_file TheFe s = Inr (False, s)"
    using m by (simp add: bad_file_def)
  have wr: "ext2_write TheFe bytes s = bnd (write_loop (Suc (length bytes)) bytes 0) (\<lambda>(failed, i).
      if failed then ret (-1) else
      bnd (if i > 0 then ext2_update_mtime else ret 0) (\<lambda>_. ret (to_int32 (uint i)))) s"
    using w na by (simp add: ext2_write_def bnd_Inr [of "bad_file TheFe", OF bad] del: write_loop.simps)
  show ?thesis
  proof (cases "bytes = []")
    case True
    show ?thesis
      unfolding wr unfolding True by (simp add: to_int32_id)
  next
    case False
    then have n: "0 < length bytes"
      by simp
    note loop = write_loop_selected [OF conjunct1 [OF sel [OF False]] _ _ n len, of c] sel [OF False]
    show ?thesis
    proof (cases "c mod 512 + length bytes \<le> 512")
      case True
      then have "(0 :: u32) < of_nat (length bytes)"
        using n by (simp add: word_less_nat_alt unat_of_nat32)
      then show ?thesis
        using True False loop
        by (simp add: wr bnd_Inr ext2_update_mtime_run to_int32_small del: write_loop.simps)
    next
      case crosses: False
      then show ?thesis
        using False loop by (simp add: wr bnd_Inl del: write_loop.simps)
    qed
  qed
qed

lemma ext2_write_run:
  assumes s: "io_state s" and c: "fe_cursor (fe s) = int c" "c < 4294967296"
    and m: "fe_magic (fe s) = EMBEXT_MAGIC" and w: "fe_flags (fe s) AND EXT2_FLAG_WRITE \<noteq> 0"
    and na: "fe_flags (fe s) AND EXT2_FLAG_APPEND = 0"
    and ok: "bytes \<noteq> [] \<Longrightarrow> byte_ok (settled s) c" and len: "length bytes < 2 ^ 63"
  shows "ext2_write TheFe bytes s =
     (if bytes = [] \<or> c mod 512 + length bytes \<le> 512
      then Inr (int (length bytes), after_write c bytes s) else Inl Overrun)"
proof -
  let ?t = "loaded (byte_sector (settled s) c) (settled s)"
  have "ext2_select_buffer s = Inr (0, ?t) \<and> map_state ?t \<and> fe_cursor (fe ?t) = int c" if "bytes \<noteq> []"
    using select_run [OF s c ok [OF that]] map_state_settled [OF s] c(1) by simp
  from ext2_write_selected [OF this m w na len] show ?thesis
    by (simp add: after_write_def put_bytes_def)
qed

section \<open>The file after a write\<close>

text \<open>The sectors of the indirect blocks that the map of block \<open>n\<close> goes through.\<close>

definition entry_sector :: "fs \<Rightarrow> u32 \<Rightarrow> nat \<Rightarrow> nat" where
  "entry_sector s blk k = unat blk * spb s + 4 * k div 512"

definition map_path :: "fs \<Rightarrow> nat \<Rightarrow> nat list" where
  "map_path s n = (let e = epb s; ib = i_block (ino s) in
     if n < 12 then [] else
     let n = n - 12 in if n < e then [entry_sector s (ib ! 12) n] else
     let n = n - e in if n < e * e
       then [entry_sector s (ib ! 13) (n div e), entry_sector s (entry_at s (ib ! 13) (n div e)) (n mod e)] else
     let n = n - e * e in if n < e * e * e then
       [entry_sector s (ib ! 14) (n div (e * e)),
        entry_sector s (entry_at s (ib ! 14) (n div (e * e))) (n div e mod e),
        entry_sector s (entry_at s (entry_at s (ib ! 14) (n div (e * e))) (n div e mod e)) (n mod e)]
     else [])"

lemma entry_at_cong:
  "spb t = spb s \<Longrightarrow> part_sector t (entry_sector s blk k) = part_sector s (entry_sector s blk k)
   \<Longrightarrow> entry_at t blk k = entry_at s blk k"
  by (simp add: entry_at_def entry_sector_def)

lemma file_block_cong:
  assumes "i_block (ino t) = i_block (ino s)" "spb t = spb s" "epb t = epb s" "blk_ok t = blk_ok s"
    and "\<forall>m\<in>set (map_path s n). part_sector t m = part_sector s m"
  shows "file_block t n = file_block s n" "file_block_ok t n = file_block_ok s n"
  using assms entry_at_cong [OF assms(2)]
  by (auto simp: file_block_def file_block_ok_def map_path_def Let_def split: if_splits)

lemma put_bytes_fields [simp]:
  "dev (put_bytes c bytes s) = dev (settled s)" "ctx (put_bytes c bytes s) = ctx s"
  "ino (put_bytes c bytes s) = ino s" "fe_cursor (fe (put_bytes c bytes s)) = fe_cursor (fe s)"
  "fe_magic (fe (put_bytes c bytes s)) = fe_magic (fe s)"
  "buf (put_bytes c bytes s) = \<lparr>bo_buffer = patch (c mod 512) bytes (part_sector (settled s) (byte_sector (settled s) c)),
     bo_lba_block = of_nat (byte_sector (settled s) c), bo_dirty = 1\<rparr>"
  by (simp_all add: put_bytes_def patched_def)

lemma after_write_fields:
  assumes "bytes \<noteq> []"
  shows "dev (after_write c bytes s) = dev (settled s)" "ctx (after_write c bytes s) = ctx s"
    "buf (after_write c bytes s) = buf (put_bytes c bytes s)"
    "i_block (ino (after_write c bytes s)) = i_block (ino s)"
    "fe_cursor (fe (after_write c bytes s)) = fe_cursor (fe s) + int (length bytes)"
    "fe_magic (fe (after_write c bytes s)) = fe_magic (fe s)"
    "i_size (ino (after_write c bytes s)) =
       (if fe_cursor (fe s) + int (length bytes) > uint (i_size (ino s))
        then word_of_int (fe_cursor (fe s) + int (length bytes)) else i_size (ino s))"
  using assms by (simp_all add: after_write_def modified_def grown_def advanced_def)

text \<open>A write that returns: its buffer holds a sector of the volume.\<close>

lemma after_write_state:
  assumes s: "io_state s" and ok: "byte_ok (settled s) c" and b: "bytes \<noteq> []"
    and fits: "c mod 512 + length bytes \<le> 512"
  defines "w \<equiv> after_write c bytes s" and "k \<equiv> byte_sector (settled s) c"
  shows "io_state w" "settled w = stored w" "unat (bo_lba_block (buf w)) = k" "in_part w = in_part s"
    "in_part s k" "in_part s m \<Longrightarrow> part_sector (settled w) m
       = (if m = k then patch (c mod 512) bytes (part_sector (settled s) k) else part_sector (settled s) m)"
proof -
  have S: "map_state (settled s)"
    using s by (rule map_state_settled)
  show inp: "in_part s k"
    using byte_ok_in_part [OF S ok] by (simp add: k_def)
  have pc: "pc_ok (dev (settled s))" "in_part (settled s) k"
    using S inp by (simp_all add: map_state_def)
  have len: "length (part_sector (settled s) k) = 512"
    using pc by (rule length_part_sector)
  have k32: "k < 4294967296"
    using in_part_bound [OF pc] by simp
  show u: "unat (bo_lba_block (buf w)) = k"
    unfolding w_def after_write_fields(3) [OF b] by (simp add: k_def [symmetric] unat_of_nat32 [OF k32])
  have vol: "block_fs_size (dev (settled s)) = block_fs_size (dev s)"
    by (simp add: settled_def stored_def)
  show iw: "in_part w = in_part s"
    by (simp add: fun_eq_iff in_part_def w_def after_write_fields [OF b] vol)
  have buf: "length (bo_buffer (buf w)) = 512" "bo_dirty (buf w) = 1"
    using len fits by (simp_all add: w_def after_write_fields [OF b] k_def)
  then show w: "io_state w"
    using s pc u iw inp by (simp add: io_state_def buffer_ok_def w_def after_write_fields [OF b])
  show st: "settled w = stored w"
    using buf by (simp add: settled_def)
  assume m: "in_part s m"
  have "part_sector w m = part_sector (settled s) m"
    by (simp add: part_sector_def w_def after_write_fields [OF b])
  then show "part_sector (settled w) m
       = (if m = k then patch (c mod 512) bytes (part_sector (settled s) k) else part_sector (settled s) m)"
    unfolding st using part_sector_stored [of w m] pc u iw inp buf m
    by (simp add: w_def after_write_fields [OF b] k_def)
qed

text \<open>Sector \<open>k\<close> holds none of the indirect entries that lead to byte \<open>j\<close>.\<close>

definition undisturbed :: "fs \<Rightarrow> nat \<Rightarrow> nat \<Rightarrow> bool" where
  "undisturbed s k j \<longleftrightarrow> k \<notin> set (map_path s (j div bsize s)) \<and> k \<notin> set (map_path s (j div bsize s - 1))"

lemma map_path_in_part:
  assumes "map_state s" "file_block_ok s n" "m \<in> set (map_path s n)"
  shows "in_part s m"
proof -
  have inp: "in_part s (entry_sector s b k)" if "blk_ok s b" "k < epb s" for b k
    unfolding entry_sector_def using that by (intro blk_ok_in_part) (simp_all add: epb_spb)
  have e: "0 < epb s"
    using epb_bounds [OF assms(1)] by simp
  show ?thesis
    using assms(2,3) inp e
    by (auto simp: map_path_def file_block_ok_def Let_def less_mult_imp_div_less split: if_splits)
qed

lemma byte_sector_cong: "file_block t (j div bsize s) = file_block s (j div bsize s) \<Longrightarrow> bsize t = bsize s
  \<Longrightarrow> byte_sector t j = byte_sector s j"
  by (simp add: byte_sector_def bsize_spb)

lemma after_write_map:
  assumes s: "io_state s" and ok: "byte_ok (settled s) c" and b: "bytes \<noteq> []"
    and fits: "c mod 512 + length bytes \<le> 512" and j: "byte_ok (settled s) j"
    and u: "undisturbed (settled s) (byte_sector (settled s) c) j"
  defines "w \<equiv> after_write c bytes s"
  shows "byte_ok (settled w) j" "byte_sector (settled w) j = byte_sector (settled s) j"
proof -
  let ?k = "byte_sector (settled s) c"
  note st = after_write_state [OF s ok b fits, folded w_def]
  have ctx: "ctx w = ctx s" "i_block (ino (settled w)) = i_block (ino (settled s))"
    using after_write_fields [OF b] by (simp_all add: w_def)
  then have v: "spb (settled w) = spb (settled s)" "epb (settled w) = epb (settled s)"
    "bsize (settled w) = bsize (settled s)"
    by (simp_all add: spb_def epb_def bsize_def)
  then have blk: "blk_ok (settled w) = blk_ok (settled s)"
    using st(4) by (simp add: blk_ok_def fun_eq_iff)
  have fb: "file_block (settled w) n = file_block (settled s) n"
    "file_block_ok (settled w) n = file_block_ok (settled s) n"
    if "file_block_ok (settled s) n" "?k \<notin> set (map_path (settled s) n)" for n
  proof -
    have "\<forall>m\<in>set (map_path (settled s) n). part_sector (settled w) m = part_sector (settled s) m"
      using that st(6) map_path_in_part [OF map_state_settled [OF s] that(1)] by auto
    then show "file_block (settled w) n = file_block (settled s) n"
      "file_block_ok (settled w) n = file_block_ok (settled s) n"
      using file_block_cong [OF ctx(2) v(1,2) blk] by simp_all
  qed
  let ?n = "j div bsize s"
  have n: "file_block_ok (settled s) ?n" "0 < ?n \<longrightarrow> file_block_ok (settled s) (?n - 1)"
    using j by (auto simp: byte_ok_def Let_def)
  have bw: "bsize w = bsize s"
    using v(3) by simp
  show "byte_ok (settled w) j"
    using j u fb n blk by (auto simp: byte_ok_def Let_def undisturbed_def bw)
  show "byte_sector (settled w) j = byte_sector (settled s) j"
    using u fb(1) [OF n(1)] v(3) by (intro byte_sector_cong) (simp_all add: undisturbed_def)
qed

lemma file_byte_after_write:
  assumes s: "io_state s" and ok: "byte_ok (settled s) c" and b: "bytes \<noteq> []"
    and fits: "c mod 512 + length bytes \<le> 512" and j: "byte_ok (settled s) j"
    and u: "undisturbed (settled s) (byte_sector (settled s) c) j"
    and once: "byte_sector (settled s) j = byte_sector (settled s) c \<Longrightarrow> j div 512 = c div 512"
  shows "file_byte (settled (after_write c bytes s)) j
    = (if c \<le> j \<and> j < c + length bytes then bytes ! (j - c) else file_byte (settled s) j)"
proof -
  let ?w = "after_write c bytes s" and ?k = "byte_sector (settled s)"
  note S = map_state_settled [OF s]
  note st = after_write_state [OF s ok b fits]
  note sec = after_write_map(2) [OF s ok b fits j u]
  have len: "length (part_sector (settled s) (?k c)) = 512"
    using S st(5) by (intro length_part_sector) (simp_all add: map_state_def)
  have inp: "in_part s (?k j)"
    using byte_ok_in_part [OF S j] by simp
  have same: "?k j = ?k c" if "c \<le> j" "j < c + length bytes"
  proof -
    have "(c + (j - c)) div 512 = c div 512"
      using that fits by (intro same_sector [where n = "length bytes"]) auto
    then show ?thesis
      using that by (simp add: byte_sector_alt)
  qed
  have div_mod: "j = 512 * (j div 512) + j mod 512" "c = 512 * (c div 512) + c mod 512"
    by simp_all
  show ?thesis
  proof (cases "?k j = ?k c")
    case True
    note a = once [OF True]
    have off: "(c mod 512 \<le> j mod 512 \<and> j mod 512 < c mod 512 + length bytes) = (c \<le> j \<and> j < c + length bytes)"
      "j mod 512 - c mod 512 = j - c"
      using a div_mod by linarith+
    have "file_byte (settled ?w) j = patch (c mod 512) bytes (part_sector (settled s) (?k c)) ! (j mod 512)"
      using st(6) [OF inp] True by (simp add: file_byte_def sec)
    also have "\<dots> = (if c \<le> j \<and> j < c + length bytes then bytes ! (j - c) else file_byte (settled s) j)"
      using len fits off True by (subst patch_nth) (simp_all add: file_byte_def)
    finally show ?thesis .
  next
    case False
    then show ?thesis
      using st(6) [OF inp] same by (auto simp: file_byte_def sec)
  qed
qed

section \<open>The properties\<close>

lemma after_write_size:
  assumes "fe_cursor (fe s) = int c" "c + length bytes < 4294967296" "bytes \<noteq> []"
  shows "unat (i_size (ino (after_write d bytes s))) = max (unat (i_size (ino s))) (c + length bytes)"
proof -
  have "uint (i_size (ino s)) < int (c + length bytes) \<longleftrightarrow> unat (i_size (ino s)) < c + length bytes"
    by (simp only: uint_nat of_nat_less_iff)
  then show ?thesis
    using assms by (simp add: after_write_fields(7) unat_of_nat32 del: of_nat_add flip: of_nat_add)
qed

text \<open>The demo volume's file, as the theorems see it.\<close>

lemma demo_io [simp]: "io_state demo_fs" "settled demo_fs = demo_fs"
  by (simp_all add: io_state_def settled_def)

lemma demo_block [simp]: "file_block demo_fs 0 = 7" "file_block_ok demo_fs 0"
  by (simp_all add: file_block_def file_block_ok_def Let_def)

lemma demo_byte_ok [simp]: "j < 1024 \<Longrightarrow> byte_ok demo_fs j"
  by (simp add: byte_ok_def blk_ok_def Let_def)

lemma demo_byte_sector: "j < 1024 \<Longrightarrow> byte_sector demo_fs j = 14 + j div 512"
  by (simp add: byte_sector_def)

lemma demo_file_byte: "j < 512 \<Longrightarrow> file_byte demo_fs j = 65"
  by (simp add: file_byte_def demo_byte_sector demo_sector_def)

lemma demo_undisturbed [simp]: "j < 1024 \<Longrightarrow> undisturbed demo_fs k j"
  by (simp add: undisturbed_def map_path_def)

lemma ext2_read_in_sector:
  assumes s: "io_state s" and c: "fe_cursor (fe s) = int c" and m: "fe_magic (fe s) = EMBEXT_MAGIC"
    and n: "n = min (unat count) (unat (i_size (ino s)) - c)"
    and fits: "c mod 512 + n \<le> 512" and ok: "0 < n \<Longrightarrow> byte_ok (settled s) c"
  shows "ext2_read TheFe count s = Inr ((int n, map (file_byte (settled s)) [c..<c + n]),
           if n = 0 then s else after_read c n (settled s))"
proof (cases "n = 0")
  case True
  then show ?thesis
    using read_nothing [OF c m, of count] n by (simp add: read_count_def)
next
  case False
  then have pos: "0 < read_count s c (unat count)"
    using n by (simp add: read_count_def)
  have "ext2_read TheFe count s = ext2_read TheFe count (settled s)"
    using read_settled [OF s c pos ok m] False by simp
  also have "\<dots> = Inr ((int n, map (file_byte (settled s)) [c..<c + n]), after_read c n (settled s))"
    using ext2_read_run [OF map_state_settled [OF s], of c n count] c m n fits ok
    by (simp add: read_count_def)
  finally show ?thesis
    using False by simp
qed

text \<open>C1: a read that stays within one 512-byte sector returns exactly the bytes of the file under the
  cursor, as many as were asked for or as are left before the end of the file, moves the cursor past
  them and updates the access time; a dirty buffer is written back first and nothing else changes.\<close>

theorem ext2_read_returns_file_bytes:
  assumes s: "io_state s" and c: "fe_cursor (fe s) = int c" and m: "fe_magic (fe s) = EMBEXT_MAGIC"
    and n: "n = min (unat count) (unat (i_size (ino s)) - c)"
    and fits: "c mod 512 + n \<le> 512" and ok: "0 < n \<Longrightarrow> byte_ok (settled s) c"
  shows "ext2_read TheFe count s = Inr ((int n, map (file_byte (settled s)) [c..<c + n]),
           if n = 0 then s else after_read c n (settled s))"
  using assms by (rule ext2_read_in_sector)

lemma ext2_read_returns_file_bytes_witness:
  "ext2_read TheFe 10 demo_fs = Inr ((10, replicate 10 65), after_read 0 10 demo_fs)"
  using ext2_read_returns_file_bytes [of demo_fs 0 10 10]
  by (simp add: demo_file_byte list_eq_iff_nth_eq)

text \<open>C28: \<open>ext2_buffer_space\<close> measures to the end of the filesystem block although the buffer holds one
  sector of 512 bytes, so every read that crosses a sector boundary copies beyond the buffer.\<close>

theorem ext2_read_crossing_a_sector_overruns:
  assumes s: "io_state s" and c: "fe_cursor (fe s) = int c" and m: "fe_magic (fe s) = EMBEXT_MAGIC"
    and n: "n = min (unat count) (unat (i_size (ino s)) - c)"
    and crosses: "0 < n" "512 < c mod 512 + n" and ok: "byte_ok (settled s) c"
  shows "ext2_read TheFe count s = Inl Overrun"
  using read_settled [OF s c _ ok m, of count] ext2_read_run [OF map_state_settled [OF s], of c n count]
    c m n crosses ok by (simp add: read_count_def)

lemma ext2_read_crossing_a_sector_overruns_witness:
  "ext2_read TheFe 513 demo_fs = Inl Overrun"
  using ext2_read_crossing_a_sector_overruns [of demo_fs 0 513 513] by simp

text \<open>C2: a write that stays within one sector returns the number of bytes written, advances the cursor,
  extends the file when it passes its end, and changes the bytes of the file under the cursor and no
  others, provided no block of the file is shared and the sector is not part of the file's own map.\<close>

theorem ext2_write_changes_the_bytes_under_the_cursor:
  assumes s: "io_state s" and c: "fe_cursor (fe s) = int c" "c + length bytes < 4294967296"
    and m: "fe_magic (fe s) = EMBEXT_MAGIC" and w: "fe_flags (fe s) AND EXT2_FLAG_WRITE \<noteq> 0"
    and na: "fe_flags (fe s) AND EXT2_FLAG_APPEND = 0"
    and b: "bytes \<noteq> []" "c mod 512 + length bytes \<le> 512" and ok: "byte_ok (settled s) c"
  shows "\<exists>t. ext2_write TheFe bytes s = Inr (int (length bytes), t) \<and> io_state t
    \<and> fe_cursor (fe t) = int (c + length bytes)
    \<and> unat (i_size (ino t)) = max (unat (i_size (ino s))) (c + length bytes)
    \<and> (\<forall>j. byte_ok (settled s) j \<and> undisturbed (settled s) (byte_sector (settled s) c) j
          \<and> (byte_sector (settled s) j = byte_sector (settled s) c \<longrightarrow> j div 512 = c div 512)
          \<longrightarrow> file_byte (settled t) j
              = (if c \<le> j \<and> j < c + length bytes then bytes ! (j - c) else file_byte (settled s) j))"
proof (intro exI conjI allI impI)
  show "ext2_write TheFe bytes s = Inr (int (length bytes), after_write c bytes s)"
    using ext2_write_run [OF s c(1) _ m w na ok] c(2) b by simp
  show "io_state (after_write c bytes s)"
    by (rule after_write_state(1) [OF s ok b])
  show "fe_cursor (fe (after_write c bytes s)) = int (c + length bytes)"
    using c(1) by (simp add: after_write_fields [OF b(1)])
  show "unat (i_size (ino (after_write c bytes s))) = max (unat (i_size (ino s))) (c + length bytes)"
    using after_write_size [OF c b(1)] .
  fix j
  assume j: "byte_ok (settled s) j \<and> undisturbed (settled s) (byte_sector (settled s) c) j
    \<and> (byte_sector (settled s) j = byte_sector (settled s) c \<longrightarrow> j div 512 = c div 512)"
  then show "file_byte (settled (after_write c bytes s)) j
      = (if c \<le> j \<and> j < c + length bytes then bytes ! (j - c) else file_byte (settled s) j)"
    using file_byte_after_write [OF s ok b, of j] by blast
qed

lemma ext2_write_changes_the_bytes_under_the_cursor_witness:
  "\<exists>t. ext2_write TheFe [1, 2, 3] demo_fs = Inr (3, t) \<and> file_byte (settled t) 1 = 2
     \<and> file_byte (settled t) 3 = 65"
proof -
  obtain t where t: "ext2_write TheFe [1, 2, 3] demo_fs = Inr (3, t)" and
    j: "\<And>j. byte_ok demo_fs j \<and> undisturbed demo_fs (byte_sector demo_fs 0) j
      \<and> (byte_sector demo_fs j = byte_sector demo_fs 0 \<longrightarrow> j div 512 = 0) \<Longrightarrow>
      file_byte (settled t) j = (if j < 3 then [1, 2, 3] ! j else file_byte demo_fs j)"
    using ext2_write_changes_the_bytes_under_the_cursor [of demo_fs 0 "[1, 2, 3]"]
    by (auto simp: flag_defs)
  then show ?thesis
    using j [of 1] j [of 3] by (simp add: demo_file_byte)
qed

end
