(* ===== verification/Ext2_Inode_Io.thy ===== *)
theory Ext2_Inode_Io
  imports Ext2_Io
begin

text \<open>
  Where an inode lives on the disk and that both functions agree on it: \<open>ext2_open_inode\<close> finds the
  sector with shifts and the number of inodes per sector, \<open>ext2_flush_inode\<close> with products and the
  number of inodes per block. \<open>disk_inode s i\<close> is inode \<open>i\<close> as the disk holds it.
\<close>

unbundle bit_operations_syntax

section \<open>The specification\<close>

definition inode_group :: "fs \<Rightarrow> u32 \<Rightarrow> nat" where
  "inode_group s i = (unat i - 1) div unat (s_inodes_per_group (sb s))"

text \<open>The distance of an inode from the start of its group's table, in bytes.\<close>

definition inode_bytes :: "fs \<Rightarrow> u32 \<Rightarrow> nat" where
  "inode_bytes s i = (unat i - 1) mod unat (s_inodes_per_group (sb s)) * unat (s_inode_size (sb s))"

definition inode_sector :: "fs \<Rightarrow> u32 \<Rightarrow> nat" where
  "inode_sector s i = unat (bg_inode_table (bg_desc s (inode_group s i))) * spb s + inode_bytes s i div 512"

definition disk_inode :: "fs \<Rightarrow> u32 \<Rightarrow> inode" where
  "disk_inode s i = decode_inode (slice (inode_bytes s i mod 512) 128 (part_sector s (inode_sector s i)))"

text \<open>The inode exists, and its descriptor and its sector lie in the volume. Inodes have one of the
  sizes that divide a sector.\<close>

definition inode_ok :: "fs \<Rightarrow> u32 \<Rightarrow> bool" where
  "inode_ok s i \<longleftrightarrow> i \<noteq> 0 \<and> i \<le> s_inodes_count (sb s) \<and> s_inodes_per_group (sb s) \<noteq> 0
     \<and> unat (s_inode_size (sb s)) \<in> {128, 256, 512}
     \<and> unat (s_inodes_per_group (sb s)) * unat (s_inode_size (sb s)) < 2 ^ 32
     \<and> inode_group s i < unat (cx_num_blockgroups (ctx s)) \<and> 32 * inode_group s i < 2 ^ 32
     \<and> unat (s_log_block_size (sb s)) \<le> 2
     \<and> in_part s (bg_sector s (inode_group s i)) \<and> in_part s (inode_sector s i)"

section \<open>Opening\<close>

lemma inode_size_div:
  assumes "k \<in> {128, 256, 512 :: nat}"
  shows "n div (512 div k) = n * k div 512" "n mod (512 div k) * k = n * k mod 512" "0 < 512 div k"
proof -
  have k: "512 = 512 div k * k" "k \<noteq> 0" "0 < 512 div k"
    using assms by auto
  then show "n div (512 div k) = n * k div 512" "n mod (512 div k) * k = n * k mod 512" "0 < 512 div k"
    by (metis div_mult_mult2, metis mod_mult_mult2, simp)
qed

text \<open>The word computations of \<open>ext2_open_inode\<close>.\<close>

lemma unat_pred32: "(i :: u32) \<noteq> 0 \<Longrightarrow> unat (i - 1) = unat i - 1"
  by (simp add: unat_minus_one)

definition opened_inode :: "u32 \<Rightarrow> fs \<Rightarrow> fs" where
  "opened_inode i s = s\<lparr>ctx := (ctx s)\<lparr>cx_sysbuf := part_sector s (inode_sector s i)\<rparr>,
     fe := (fe s)\<lparr>fe_inode := disk_inode s i, fe_inode_number := i, fe_flags := EXT2_FLAG_READ, fe_cursor := 0\<rparr>\<rparr>"

lemma inode_fits:
  assumes "unat (s_inode_size (sb s)) \<in> {128, 256, 512}"
  shows "inode_bytes s i mod 512 + 128 \<le> 512"
proof -
  let ?k = "unat (s_inode_size (sb s))" and ?n = "(unat i - 1) mod unat (s_inodes_per_group (sb s))"
  have "?n mod (512 div ?k) + 1 \<le> 512 div ?k"
    using inode_size_div(3) [OF assms] by (simp add: Suc_leI)
  then have "(?n mod (512 div ?k) + 1) * ?k \<le> 512 div ?k * ?k"
    by (rule mult_le_mono1)
  moreover have "512 div ?k * ?k = 512" "128 \<le> ?k"
    using assms by auto
  ultimately show ?thesis
    using inode_size_div(2) [OF assms, of ?n] by (simp add: inode_bytes_def)
qed

lemma wf_disk_inode:
  assumes "pc_ok (dev s)" "inode_ok s k"
  shows "wf_inode (disk_inode s k)"
proof -
  have "length (slice (inode_bytes s k mod 512) 128 (part_sector s (inode_sector s k))) = 128"
    using assms inode_fits [of s k] by (simp add: inode_ok_def length_part_sector)
  then show ?thesis
    by (simp add: disk_inode_def sizeof_inode_def)
qed

lemma ext2_open_inode_run:
  assumes s: "pc_ok (dev s)" and ok: "inode_ok s i"
  shows "ext2_open_inode i s = Inr (0, opened_inode i s)"
proof -
  let ?ipg = "s_inodes_per_group (sb s)" and ?isz = "unat (s_inode_size (sb s))"
  let ?g = "(i - 1) div ?ipg" and ?x = "(i - 1) mod ?ipg"
  have o: "i \<noteq> 0" "i \<le> s_inodes_count (sb s)" "?ipg \<noteq> 0" "?isz \<in> {128, 256, 512}"
    "unat ?ipg * ?isz < 2 ^ 32" "32 * inode_group s i < 2 ^ 32" "unat (s_log_block_size (sb s)) \<le> 2"
    "in_part s (bg_sector s (inode_group s i))" "in_part s (inode_sector s i)"
    using ok by (auto simp: inode_ok_def)
  have g: "unat ?g = inode_group s i"
    using o(1) by (simp add: unat_div32 unat_pred32 inode_group_def)
  have x: "unat ?x * ?isz = inode_bytes s i"
    using o(1) by (simp add: unat_mod32 unat_pred32 inode_bytes_def)
  have g32: "unat (?g * 32) = 32 * inode_group s i"
    using o(6) g by (simp add: unat_mult32)
  define per where "per = (block_get_block_size :: u32) div ucast (s_inode_size (sb s))"
  have per: "unat per = 512 div ?isz"
    unfolding per_def unat_div32 unat_ucast16 by (simp add: block_get_block_size_def)
  have nz: "per \<noteq> 0" "(ucast (s_inode_size (sb s)) :: u32) \<noteq> 0"
    using o(4) per unat_ucast16 [of "s_inode_size (sb s)"] by (auto simp: unat_eq_0)
  have p: "pc_ok (dev s)" "bg_sector s (inode_group s i) < 2 ^ 22" "inode_sector s i < 2 ^ 22"
    using s in_part_bound [OF s o(8)] in_part_bound [OF s o(9)] by simp_all
  have b1: "(cx_superblock_block (ctx s) + 1) * of_nat (spb s) + ?g * 32 div block_get_block_size
      = of_nat (bg_sector s (inode_group s i))"
    by (simp add: word_div_nat [of "?g * 32"] g32 bg_sector_def block_get_block_size_def)
      (simp add: algebra_simps)
  have off1: "unat (?g * 32 mod block_get_block_size) = 32 * (inode_group s i mod 16)"
    by (simp add: unat_mod32 g32 block_get_block_size_def mult_mod_right)
  have b2: "bg_inode_table (bg_desc s (inode_group s i)) * of_nat (spb s) + ?x div per
      = of_nat (inode_sector s i)"
    by (simp add: word_div_nat [of ?x] per inode_size_div(1) [OF o(4)] x inode_sector_def)
  have "unat (?x mod per) * ?isz = inode_bytes s i mod 512"
    by (simp add: unat_mod32 per inode_size_div(2) [OF o(4)] x [symmetric])
  moreover have "inode_bytes s i mod 512 < 512"
    by simp
  ultimately have off2: "unat (?x mod per * ucast (s_inode_size (sb s))) = inode_bytes s i mod 512"
    by (subst unat_mult32) (simp_all add: unat_ucast16)
  have fits: "inode_bytes s i mod 512 + 128 \<le> 512"
    using o(4) by (rule inode_fits)
  have r1: "sys_read (of_nat (bg_sector s (inode_group s i)) + cx_part_start (ctx s)) s
      = Inr (0, s\<lparr>ctx := (ctx s)\<lparr>cx_sysbuf := part_sector s (bg_sector s (inode_group s i))\<rparr>\<rparr>)"
    using s o(8) by (intro sys_read_ok) simp_all
  let ?t = "s\<lparr>ctx := (ctx s)\<lparr>cx_sysbuf := part_sector s (bg_sector s (inode_group s i))\<rparr>\<rparr>"
  have r2: "sys_read (of_nat (inode_sector s i) + cx_part_start (ctx s)) ?t
      = Inr (0, s\<lparr>ctx := (ctx s)\<lparr>cx_sysbuf := part_sector s (inode_sector s i)\<rparr>\<rparr>)"
    using sys_read_ok [of ?t "inode_sector s i"] s o(9) by simp
  show ?thesis
    using o(1,2,3) nz fits
    by (simp add: ext2_open_inode_def bnd_Inr c_div_run c_mod_run c_shl_spb [OF o(7)] b1 r1 off1
        sizeof_block_group_descriptor_def sizeof_inode_def per_def [symmetric] b2 r2 off2
        bg_desc_def [symmetric] disk_inode_def [symmetric] upd_fe_def opened_inode_def)
qed

section \<open>Flushing\<close>

lemma stored_patched_sector:
  assumes "pc_ok (dev s)" "in_part s n" "k + length bytes \<le> 512" "in_part s m"
  shows "part_sector (stored (patched k bytes (loaded n s))) m
    = (if m = n then patch k bytes (part_sector s n) else part_sector s m)"
proof -
  let ?t = "patched k bytes (loaded n s)"
  have n32: "n < 4294967296"
    using in_part_bound [OF assms(1,2)] by simp
  have len: "length (part_sector s n) = 512"
    using assms(1,2) by (rule length_part_sector)
  have buf: "bo_buffer (buf ?t) = patch k bytes (part_sector s n)" "unat (bo_lba_block (buf ?t)) = n"
    by (simp_all add: patched_def unat_of_nat32 [OF n32])
  have view: "part_sector ?t = part_sector s" "in_part ?t = in_part s" "dev ?t = dev s"
    by (simp_all add: patched_def part_sector_def in_part_def fun_eq_iff)
  show ?thesis
    using part_sector_stored [of ?t m] assms len by (simp add: buf view)
qed

lemma stored_patched_run:
  assumes "pc_ok (dev s)" "in_part s n" "k + length bytes \<le> 512"
  shows "ext2_store_buffer (patched k bytes (loaded n s)) = Inr (0, stored (patched k bytes (loaded n s)))"
    "pc_ok (dev (stored (patched k bytes (loaded n s))))"
proof -
  let ?t = "patched k bytes (loaded n s)"
  have n32: "n < 4294967296"
    using in_part_bound [OF assms(1,2)] by simp
  have len: "length (part_sector s n) = 512"
    using assms(1,2) by (rule length_part_sector)
  have t: "pc_ok (dev ?t)" "length (bo_buffer (buf ?t)) = 512" "in_part ?t (unat (bo_lba_block (buf ?t)))"
    using assms len by (simp_all add: patched_def in_part_def unat_of_nat32 [OF n32])
  show "ext2_store_buffer ?t = Inr (0, stored ?t)" "pc_ok (dev (stored ?t))"
    using ext2_store_buffer_run [OF t] pc_ok_stored [OF t] .
qed

definition flushed_inode :: "fs \<Rightarrow> fs" where
  "flushed_inode s = (let i = fe_inode_number (fe s);
     t = stored (patched (inode_bytes s i mod 512) (encode_inode (ino s))
           (loaded (inode_sector s i) (sys_loaded (bg_sector s (inode_group s i)) s)))
   in t\<lparr>fe := (fe t)\<lparr>fe_flags := fe_flags (fe t) AND NOT EXT2_FLAG_FS_DIRTY\<rparr>\<rparr>)"

text \<open>The address arithmetic of \<open>ext2_flush_inode\<close>: blocks first, then the offset in the block.\<close>

lemma block_then_offset:
  assumes "b = 512 * k" "0 < z" "z dvd 512" "0 < (k::nat)"
  shows "x div (b div z) * k + x * z mod b div 512 = x * z div 512"
proof -
  obtain p where p: "z * p = 512"
    using assms(3) by (metis dvdE)
  have pz: "b div z = p * k"
    using assms(1,2) by (simp add: p [symmetric] mult.assoc)
  have "x * z div b = x * z div (z * (p * k))"
    by (simp only: assms(1) p [symmetric] mult.assoc)
  also have "\<dots> = x div (p * k)"
    using assms(2) by (simp add: mult.commute [of x z])
  finally have q: "x div (b div z) = x * z div b"
    by (simp add: pz)
  have "x * z mod (512 * k) = 512 * (x * z div 512 mod k) + x * z mod 512"
    by (rule mod_mult2_eq)
  then have "x * z mod b div 512 = x * z div 512 mod k"
    by (simp add: assms(1))
  moreover have "x * z div b = x * z div 512 div k"
    by (simp add: assms(1) div_mult2_eq)
  ultimately show ?thesis
    by (simp add: q)
qed

lemma ext2_flush_inode_run:
  assumes s: "map_state s" and ok: "inode_ok s (fe_inode_number (fe s))" and wf: "wf_inode (ino s)"
    and d: "fe_flags (fe s) AND EXT2_FLAG_FS_DIRTY \<noteq> 0"
  shows "ext2_flush_inode s = Inr (0, flushed_inode s)"
proof -
  let ?i = "fe_inode_number (fe s)"
  let ?ipg = "s_inodes_per_group (sb s)" and ?isz = "unat (s_inode_size (sb s))"
  let ?g = "(?i - 1) div ?ipg" and ?x = "(?i - 1) mod ?ipg"
  have o: "?i \<noteq> 0" "?ipg \<noteq> 0" "?isz \<in> {128, 256, 512}" "unat ?ipg * ?isz < 2 ^ 32"
    "unat (s_log_block_size (sb s)) \<le> 2" "inode_group s ?i < unat (cx_num_blockgroups (ctx s))"
    "in_part s (bg_sector s (inode_group s ?i))" "in_part s (inode_sector s ?i)" and pc: "pc_ok (dev s)"
    using ok s by (auto simp: inode_ok_def map_state_def)
  have g: "unat ?g = inode_group s ?i"
    using o(1) by (simp add: unat_div32 unat_pred32 inode_group_def)
  have ux: "unat ?x = (unat ?i - 1) mod unat ?ipg"
    using o(1) by (simp add: unat_mod32 unat_pred32)
  have "unat ?x < unat ?ipg"
    using o(2) by (simp add: ux unat_gt_0)
  then have "unat ?x * ?isz < 2 ^ 32"
    using o(4) by (meson le_less_trans less_imp_le_nat mult_le_mono1)
  then have x: "unat (?x * ucast (s_inode_size (sb s))) = inode_bytes s ?i"
    by (subst unat_mult32) (simp_all add: unat_ucast16 ux inode_bytes_def)
  let ?bs = "of_nat (bsize s) :: u32"
  have bs: "unat ?bs = bsize s" "0 < bsize s"
    using map_state_bsize [OF s] by (auto simp: unat_of_nat32)
  let ?pb = "?bs div ucast (s_inode_size (sb s))"
  have pb: "unat ?pb = bsize s div ?isz"
    by (simp add: unat_div32 bs unat_ucast16)
  have nz: "?pb \<noteq> 0" "(ucast (s_inode_size (sb s)) :: u32) \<noteq> 0" "?bs \<noteq> 0"
    using o(3) pb unat_ucast16 [of "s_inode_size (sb s)"] bs map_state_bsize [OF s]
      unat_eq_0 [of ?pb] unat_eq_0 [of ?bs] unat_eq_0 [of "ucast (s_inode_size (sb s)) :: u32"] by auto
  let ?tab = "bg_inode_table (bg_desc s (inode_group s ?i))"
  have k: "bsize s = 512 * spb s" "0 < ?isz" "?isz dvd 512" "0 < spb s"
    using o(3) by (auto simp: bsize_spb)
  have "unat ?x * ?isz = inode_bytes s ?i"
    by (simp add: ux inode_bytes_def)
  then have q: "unat ?x div (bsize s div ?isz) * spb s + inode_bytes s ?i mod bsize s div 512
      = inode_bytes s ?i div 512"
    using block_then_offset [OF k, of "unat ?x"] by simp
  have "inode_sector s ?i < 2 ^ 22"
    using in_part_bound [OF pc o(8)] by simp
  then have "(unat ?tab + unat ?x div (bsize s div ?isz)) * spb s < 2 ^ 22"
    using q by (simp add: inode_sector_def add_mult_distrib)
  then have "unat ?tab + unat ?x div (bsize s div ?isz) < 2 ^ 22"
    by (rule le_less_trans [rotated]) (use k(4) in \<open>simp add: Suc_leI\<close>)
  then have "unat (?tab + ?x div ?pb) = unat ?tab + unat ?x div (bsize s div ?isz)"
    using unat_add32 [of ?tab "?x div ?pb"] unfolding unat_div32 [of ?x ?pb] pb by simp
  then have n: "inode_sector s ?i = unat (?tab + ?x div ?pb) * spb s
      + unat (?x * ucast (s_inode_size (sb s)) mod ?bs) div 512"
    using q by (simp add: inode_sector_def unat_mod32 x bs add_mult_distrib)
  let ?t = "sys_loaded (bg_sector s (inode_group s ?i)) s"
  have get: "ext2_get_bg_descriptor ?g s = Inr ((0, Some (bg_desc s (inode_group s ?i))), ?t)"
    using ext2_get_bg_descriptor_run [OF pc o(5), of ?g] o(6,7) g by (simp add: word_less_nat_alt)
  have load: "ext2_load_buffer (?tab + ?x div ?pb) (?x * ucast (s_inode_size (sb s)) mod ?bs) ?t
      = Inr (0, loaded (inode_sector s ?i) ?t)"
    using s n o(8) by (intro ext2_load_buffer_clean) (simp_all add: map_state_def)
  let ?k = "inode_bytes s ?i mod 512"
  have fits: "?k + 128 \<le> 512" and len: "length (encode_inode (ino s)) = 128"
    using inode_fits [OF o(3), of ?i] wf by (simp_all add: sizeof_inode_def)
  have put: "ext2_write_buffer (encode_inode (ino s)) (?x * ucast (s_inode_size (sb s))) (loaded (inode_sector s ?i) ?t)
      = Inr (0, patched ?k (encode_inode (ino s)) (loaded (inode_sector s ?i) ?t))"
    using fits len by (simp add: ext2_write_buffer_run x)
  have store: "ext2_store_buffer (patched ?k (encode_inode (ino s)) (loaded (inode_sector s ?i) ?t))
      = Inr (0, stored (patched ?k (encode_inode (ino s)) (loaded (inode_sector s ?i) ?t)))"
    using stored_patched_run(1) [of ?t "inode_sector s ?i" ?k "encode_inode (ino s)"] pc o(8) fits len by simp
  have bsz: "ext2_block_size ?t = Inr (?bs, ?t)"
    using block_size_spb(1) [of ?t] o(5) by simp
  show ?thesis
    using o(2) d nz
    by (simp add: ext2_flush_inode_def bnd_Inr c_div_run c_mod_run get bsz load put store flushed_inode_def
        Let_def upd_fe_def)
qed

section \<open>The inode on the disk after a flush\<close>

lemma flushed_fields [simp]:
  "ino (flushed_inode s) = ino s" "sb (flushed_inode s) = sb s"
  "cx_part_start (ctx (flushed_inode s)) = cx_part_start (ctx s)"
  "cx_superblock_block (ctx (flushed_inode s)) = cx_superblock_block (ctx s)"
  "cx_num_blockgroups (ctx (flushed_inode s)) = cx_num_blockgroups (ctx s)"
  "bo_dirty (buf (flushed_inode s)) = 0" "fe_inode_number (fe (flushed_inode s)) = fe_inode_number (fe s)"
  "in_part (flushed_inode s) = in_part s" "spb (flushed_inode s) = spb s"
  by (simp_all add: flushed_inode_def Let_def stored_def patched_def loaded_def sys_loaded_def in_part_def
      spb_def fun_eq_iff)

lemma flushed_groups [simp]:
  "bg_sector (flushed_inode s) = bg_sector s" "inode_group (flushed_inode s) = inode_group s"
  "inode_bytes (flushed_inode s) = inode_bytes s"
  by (simp_all add: bg_sector_def inode_group_def inode_bytes_def fun_eq_iff)

lemma flushed_sectors:
  assumes s: "map_state s" and ok: "inode_ok s (fe_inode_number (fe s))" and wf: "wf_inode (ino s)"
    and m: "in_part s m"
  defines "i \<equiv> fe_inode_number (fe s)"
  shows "part_sector (flushed_inode s) m = (if m = inode_sector s i
      then patch (inode_bytes s i mod 512) (encode_inode (ino s)) (part_sector s m) else part_sector s m)"
    "pc_ok (dev (flushed_inode s))"
proof -
  let ?t = "sys_loaded (bg_sector s (inode_group s i)) s"
  have pc: "pc_ok (dev s)" and inp: "in_part s (inode_sector s i)" and isz: "unat (s_inode_size (sb s)) \<in> {128, 256, 512}"
    using s ok by (auto simp: map_state_def inode_ok_def i_def)
  have fits: "inode_bytes s i mod 512 + length (encode_inode (ino s)) \<le> 512"
    using inode_fits [OF isz] wf by (simp add: sizeof_inode_def)
  have "part_sector (flushed_inode s) m = part_sector (stored (patched (inode_bytes s i mod 512)
      (encode_inode (ino s)) (loaded (inode_sector s i) ?t))) m"
    by (simp add: flushed_inode_def Let_def part_sector_def i_def)
  then show "part_sector (flushed_inode s) m = (if m = inode_sector s i
      then patch (inode_bytes s i mod 512) (encode_inode (ino s)) (part_sector s m) else part_sector s m)"
    using stored_patched_sector [of ?t "inode_sector s i" "inode_bytes s i mod 512" "encode_inode (ino s)" m]
      pc inp fits m by simp
  have "dev (flushed_inode s) = dev (stored (patched (inode_bytes s i mod 512)
      (encode_inode (ino s)) (loaded (inode_sector s i) ?t)))"
    by (simp add: flushed_inode_def Let_def i_def)
  then show "pc_ok (dev (flushed_inode s))"
    using stored_patched_run(2) [of ?t "inode_sector s i" "inode_bytes s i mod 512" "encode_inode (ino s)"]
      pc inp fits by simp
qed

text \<open>Two inodes of one group whose records are in the same sector do not overlap.\<close>

lemma inode_slots:
  assumes k: "unat (s_inode_size (sb s)) \<in> {128, 256, 512}"
    and g: "inode_group s i = inode_group s j" and ne: "i \<noteq> j" "i \<noteq> 0" "j \<noteq> 0"
    and sec: "inode_sector s i = inode_sector s j"
  shows "inode_bytes s i mod 512 + 128 \<le> inode_bytes s j mod 512 \<or> inode_bytes s j mod 512 + 128 \<le> inode_bytes s i mod 512"
proof -
  let ?p = "unat (s_inodes_per_group (sb s))" and ?k = "unat (s_inode_size (sb s))"
  let ?x = "\<lambda>i :: u32. (unat i - 1) mod ?p"
  have "unat i - 1 \<noteq> unat j - 1"
    using ne by (metis One_nat_def Suc_pred unat_gt_0 word_unat_eq_iff)
  then have "?x i \<noteq> ?x j"
    using g by (metis div_mult_mod_eq inode_group_def)
  then consider "?x i + 1 \<le> ?x j" | "?x j + 1 \<le> ?x i"
    by linarith
  then have b: "inode_bytes s i + ?k \<le> inode_bytes s j \<or> inode_bytes s j + ?k \<le> inode_bytes s i"
    by cases (auto simp: inode_bytes_def dest: mult_le_mono1 [where k = ?k])
  have q: "inode_bytes s i div 512 = inode_bytes s j div 512"
    using sec g by (simp add: inode_sector_def)
  show ?thesis
    using b
  proof (rule disj_forward)
    have k': "128 \<le> ?k"
      using k by auto
    have e: "inode_bytes s l = inode_bytes s l div 512 * 512 + inode_bytes s l mod 512" for l
      by simp
    show "inode_bytes s i + ?k \<le> inode_bytes s j \<Longrightarrow> inode_bytes s i mod 512 + 128 \<le> inode_bytes s j mod 512"
      "inode_bytes s j + ?k \<le> inode_bytes s i \<Longrightarrow> inode_bytes s j mod 512 + 128 \<le> inode_bytes s i mod 512"
      using e [of i] e [of j] q k' by linarith+
  qed
qed

lemma disk_inode_flushed:
  assumes s: "map_state s" and ok: "inode_ok s (fe_inode_number (fe s))" and wf: "wf_inode (ino s)"
    and bg: "inode_sector s (fe_inode_number (fe s)) \<noteq> bg_sector s (inode_group s (fe_inode_number (fe s)))"
    and j: "inode_ok s j" "inode_group s j = inode_group s (fe_inode_number (fe s))"
  shows "disk_inode (flushed_inode s) j = (if j = fe_inode_number (fe s) then ino s else disk_inode s j)"
    "inode_ok (flushed_inode s) j"
proof -
  let ?i = "fe_inode_number (fe s)" and ?t = "flushed_inode s"
  have isz: "unat (s_inode_size (sb s)) \<in> {128, 256, 512}" and pc: "pc_ok (dev s)"
    and inp: "in_part s (inode_sector s ?i)" "in_part s (bg_sector s (inode_group s ?i))" "in_part s (inode_sector s j)"
    and nz: "?i \<noteq> 0" "j \<noteq> 0"
    using ok s j by (auto simp: inode_ok_def map_state_def)
  note sec = flushed_sectors(1) [OF s ok wf]
  have "bg_desc ?t (inode_group s ?i) = bg_desc s (inode_group s ?i)"
    using bg sec [OF inp(2)] by (simp add: bg_desc_def)
  then have at: "inode_sector ?t j = inode_sector s j"
    by (simp add: inode_sector_def j(2))
  then show "inode_ok ?t j"
    using j at by (simp add: inode_ok_def)
  let ?e = "encode_inode (ino s)" and ?k = "\<lambda>i. inode_bytes s i mod 512"
  have len: "length (part_sector s (inode_sector s ?i)) = 512" "length ?e = 128"
    using pc inp wf by (simp_all add: length_part_sector sizeof_inode_def)
  note fits = inode_fits [OF isz]
  show "disk_inode ?t j = (if j = ?i then ino s else disk_inode s j)"
  proof (cases "inode_sector s j = inode_sector s ?i")
    case same: True
    have "slice (?k j) 128 (patch (?k ?i) ?e (part_sector s (inode_sector s ?i)))
        = (if j = ?i then ?e else slice (?k j) 128 (part_sector s (inode_sector s j)))"
      using inode_slots [OF isz j(2) _ nz(2,1) same] len fits [of ?i] fits [of j] same
      by (cases "j = ?i") (auto simp: slice_patch_same slice_patch_disjoint)
    then show ?thesis
      using wf sec [OF inp(3)] same by (simp add: disk_inode_def at)
  next
    case False
    then show ?thesis
      using sec [OF inp(3)] by (auto simp: disk_inode_def at)
  qed
qed

section \<open>The properties\<close>

lemma demo_bg_sector [simp]: "bg_sector demo_fs 0 = 4"
  by (simp add: bg_sector_def)

lemma demo_bg_desc [simp]: "bg_desc demo_fs 0 = demo_bg"
  by (simp add: bg_desc_def demo_sector_def slice_patch_same sizeof_block_group_descriptor_def)

lemma demo_inode [simp]:
  "inode_group demo_fs 3 = 0" "inode_group demo_fs 2 = 0" "inode_bytes demo_fs 3 = 256" "inode_bytes demo_fs 2 = 128"
  "inode_sector demo_fs 3 = 10" "inode_sector demo_fs 2 = 10"
  by (simp_all add: inode_group_def inode_bytes_def inode_sector_def)

lemma demo_inode_ok [simp]: "inode_ok demo_fs 3" "inode_ok demo_fs 2"
  by (simp_all add: inode_ok_def)

lemma demo_disk_inode [simp]: "disk_inode demo_fs 3 = demo_file" "disk_inode demo_fs 2 = demo_root"
  by (simp_all add: disk_inode_def demo_sector_def slice_patch_same slice_patch_disjoint sizeof_inode_def)

text \<open>The open file of the demo volume with a changed inode.\<close>

definition demo_changed :: fs where
  "demo_changed = demo_fs\<lparr>fe := (fe demo_fs)\<lparr>fe_inode := demo_file\<lparr>i_size := 700\<rparr>,
     fe_flags := EXT2_FLAG_FS_DIRTY\<rparr>\<rparr>"

lemma demo_changed_view [simp]:
  "part_sector demo_changed = part_sector demo_fs" "in_part demo_changed = in_part demo_fs"
  "ctx demo_changed = demo_ctx" "fe_inode_number (fe demo_changed) = 3"
  "ino demo_changed = demo_file\<lparr>i_size := 700\<rparr>" "fe_flags (fe demo_changed) = EXT2_FLAG_FS_DIRTY"
  "spb demo_changed = 2"
  by (simp_all add: demo_changed_def part_sector_def in_part_def spb_def fun_eq_iff)

lemma demo_changed_state [simp]: "map_state demo_changed"
  by (simp add: map_state_def) (simp add: demo_changed_def)

lemma demo_changed_inode [simp]:
  "bg_sector demo_changed = bg_sector demo_fs" "bg_desc demo_changed = bg_desc demo_fs"
  "inode_group demo_changed = inode_group demo_fs" "inode_bytes demo_changed = inode_bytes demo_fs"
  "inode_sector demo_changed = inode_sector demo_fs" "inode_ok demo_changed = inode_ok demo_fs"
  "disk_inode demo_changed = disk_inode demo_fs"
  by (simp_all add: fun_eq_iff bg_sector_def bg_desc_def inode_group_def inode_bytes_def inode_sector_def
      inode_ok_def disk_inode_def)

text \<open>\<open>ext2_open_inode\<close> loads inode \<open>i\<close> from the table of its group: the record at distance
  \<open>index * s_inode_size\<close> from the table's first byte. It opens the file for reading at position 0.\<close>

theorem ext2_open_inode_loads_the_disk_inode:
  assumes "pc_ok (dev s)" "inode_ok s i"
  shows "\<exists>t. ext2_open_inode i s = Inr (0, t) \<and> ino t = disk_inode s i \<and> fe_inode_number (fe t) = i
    \<and> fe_flags (fe t) = EXT2_FLAG_READ \<and> fe_cursor (fe t) = 0 \<and> dev t = dev s \<and> sb t = sb s \<and> buf t = buf s"
  using ext2_open_inode_run [OF assms] by (simp add: opened_inode_def)

lemma ext2_open_inode_loads_the_disk_inode_witness:
  "\<exists>t. ext2_open_inode 2 demo_fs = Inr (0, t) \<and> ino t = demo_root"
  using ext2_open_inode_loads_the_disk_inode [of demo_fs 2] by auto

text \<open>The number 0 and numbers beyond the inode count are refused before anything is read.\<close>

theorem ext2_open_inode_refuses_bad_numbers:
  assumes "s_inodes_per_group (sb s) \<noteq> 0" "i = 0 \<or> s_inodes_count (sb s) < i"
  shows "ext2_open_inode i s = Inr (-1, s)"
  using assms by (auto simp: ext2_open_inode_def bnd_Inr c_div_run c_mod_run)

lemma ext2_open_inode_refuses_bad_numbers_witness:
  "ext2_open_inode 9 demo_fs = Inr (-1, demo_fs)"
  using ext2_open_inode_refuses_bad_numbers [of demo_fs 9] by simp

text \<open>C6: a dirty inode that is flushed is the inode that \<open>ext2_open_inode\<close> then reads: the two functions
  compute the same place by different arithmetic, and the encoding loses nothing.\<close>

theorem flush_then_open_inode:
  assumes s: "map_state s" and ok: "inode_ok s (fe_inode_number (fe s))" and wf: "wf_inode (ino s)"
    and d: "fe_flags (fe s) AND EXT2_FLAG_FS_DIRTY \<noteq> 0"
    and bg: "inode_sector s (fe_inode_number (fe s)) \<noteq> bg_sector s (inode_group s (fe_inode_number (fe s)))"
  shows "\<exists>u. bnd ext2_flush_inode (\<lambda>_. ext2_open_inode (fe_inode_number (fe s))) s = Inr (0, u) \<and> ino u = ino s"
proof -
  note run = ext2_flush_inode_run [OF s ok wf d] and disk = disk_inode_flushed [OF s ok wf bg ok refl]
  have "pc_ok (dev (flushed_inode s))"
    using flushed_sectors(2) [OF s ok wf, of "inode_sector s (fe_inode_number (fe s))"] ok by (simp add: inode_ok_def)
  then show ?thesis
    using ext2_open_inode_run [OF _ disk(2)] disk(1) by (simp add: bnd_Inr run opened_inode_def)
qed

lemma flush_then_open_inode_witness:
  "\<exists>u. bnd ext2_flush_inode (\<lambda>_. ext2_open_inode 3) demo_changed = Inr (0, u) \<and> i_size (ino u) = 700"
proof -
  have "\<exists>u. bnd ext2_flush_inode (\<lambda>_. ext2_open_inode 3) demo_changed = Inr (0, u) \<and> ino u = demo_file\<lparr>i_size := 700\<rparr>"
    using flush_then_open_inode [of demo_changed] wf_demo(2) by (simp add: wf_inode_def flag_defs)
  then show ?thesis
    by auto
qed

text \<open>C23: flushing an inode changes no other inode of its group: the records do not overlap.\<close>

theorem flushing_keeps_the_other_inodes:
  assumes s: "map_state s" and ok: "inode_ok s (fe_inode_number (fe s))" and wf: "wf_inode (ino s)"
    and d: "fe_flags (fe s) AND EXT2_FLAG_FS_DIRTY \<noteq> 0"
    and bg: "inode_sector s (fe_inode_number (fe s)) \<noteq> bg_sector s (inode_group s (fe_inode_number (fe s)))"
    and j: "inode_ok s j" "inode_group s j = inode_group s (fe_inode_number (fe s))" "j \<noteq> fe_inode_number (fe s)"
  shows "\<exists>t. ext2_flush_inode s = Inr (0, t) \<and> disk_inode t j = disk_inode s j"
  using ext2_flush_inode_run [OF s ok wf d] disk_inode_flushed [OF s ok wf bg j(1,2)] j(3) by simp

lemma flushing_keeps_the_other_inodes_witness:
  "\<exists>t. ext2_flush_inode demo_changed = Inr (0, t) \<and> disk_inode t 2 = demo_root"
  using flushing_keeps_the_other_inodes [of demo_changed 2] wf_demo(2) by (simp add: wf_inode_def flag_defs)

end
