(* ===== verification/Ext2_Alloc.thy ===== *)
theory Ext2_Alloc
  imports Ext2_Inode_Io
begin

text \<open>
  What allocation does to the volume: \<open>ext2_change_allocated\<close> flips exactly one bit of the sector it
  takes for the group's block bitmap, and none when the bit already has the wanted value; the
  descriptors on the disk are never written.
\<close>

unbundle bit_operations_syntax

section \<open>The descriptors are read and patched in memory only\<close>

definition with_sysbuf :: "u8 list \<Rightarrow> fs \<Rightarrow> fs" where
  "with_sysbuf x s = s\<lparr>ctx := (ctx s)\<lparr>cx_sysbuf := x\<rparr>\<rparr>"

lemma with_sysbuf_fields [simp]:
  "dev (with_sysbuf x s) = dev s" "fe (with_sysbuf x s) = fe s" "sb (with_sysbuf x s) = sb s"
  "cx_sysbuf (ctx (with_sysbuf x s)) = x" "cx_part_start (ctx (with_sysbuf x s)) = cx_part_start (ctx s)"
  "cx_num_blockgroups (ctx (with_sysbuf x s)) = cx_num_blockgroups (ctx s)"
  "cx_superblock_block (ctx (with_sysbuf x s)) = cx_superblock_block (ctx s)"
  "cx_num_superblocks (ctx (with_sysbuf x s)) = cx_num_superblocks (ctx s)"
  "cx_superblock_blocks (ctx (with_sysbuf x s)) = cx_superblock_blocks (ctx s)"
  "part_sector (with_sysbuf x s) = part_sector s" "in_part (with_sysbuf x s) = in_part s"
  "spb (with_sysbuf x s) = spb s" "bsize (with_sysbuf x s) = bsize s"
  "with_sysbuf y (with_sysbuf x s) = with_sysbuf y s"
  by (simp_all add: with_sysbuf_def part_sector_def in_part_def spb_def bsize_def fun_eq_iff)

lemma sysbuf_upd: "ctx_update (cx_sysbuf_update f) s = with_sysbuf (f (cx_sysbuf (ctx s))) s"
  by (cases s; cases "ctx s") (simp add: with_sysbuf_def)

lemma sys_loaded_with: "sys_loaded n s = with_sysbuf (part_sector s n) s"
  by (simp add: sys_loaded_def with_sysbuf_def)

text \<open>The sector of the descriptor table copy that follows superblock copy \<open>i\<close>.\<close>

definition table_sector :: "fs \<Rightarrow> nat \<Rightarrow> nat \<Rightarrow> nat" where
  "table_sector s i g = (unat (cx_superblock_blocks (ctx s) ! i) + 1) * spb s + g div 16"

definition tables_ok :: "fs \<Rightarrow> nat \<Rightarrow> bool" where
  "tables_ok s g \<longleftrightarrow> (\<forall>i < unat (cx_num_superblocks (ctx s)). in_part s (table_sector s i g))"

lemma write_bg_copy_run:
  assumes "pc_ok (dev s)" "unat (s_log_block_size (sb s)) \<le> 2" "in_part s (table_sector s i (unat g))"
  shows "\<exists>x. write_bg_copy bg g i s = Inr ((), with_sysbuf x s)
    \<and> (wf_block_group_descriptor bg \<longrightarrow> length x = 512)"
proof -
  have "unat g mod 16 < 16"
    by simp
  then have fits: "bg_offset g + 32 \<le> 512"
    by (simp add: bg_offset_def bgs_per_sector_16 unat_mod32 sizeof_block_group_descriptor_def)
  then have len: "wf_block_group_descriptor bg
      \<Longrightarrow> length (patch (bg_offset g) (encode_block_group_descriptor bg) (part_sector s n)) = 512" if "in_part s n" for n
    using length_part_sector [OF assms(1) that] by (simp add: sizeof_block_group_descriptor_def)
  have lba: "bg_lba (cx_superblock_blocks (ctx s) ! i + 1) (of_nat (bsize s)) g = of_nat (table_sector s i (unat g))"
    unfolding bg_lba_def block_size_spb(2) [OF assms(2)] bgs_per_sector_16
    by (simp add: word_div_nat [of g] table_sector_def) (simp add: algebra_simps)
  show ?thesis
    using sys_read_loaded [OF assms(1,3) lba] len [OF assms(3)]
    by (simp add: write_bg_copy_def bnd_Inr block_size_spb(1) [OF assms(2)] sys_loaded_with upd_ctx_def
        sysbuf_upd) blast
qed

lemma for_each_write_bg:
  assumes "pc_ok (dev s)" "unat (s_log_block_size (sb s)) \<le> 2" "\<forall>i\<in>set is. in_part s (table_sector s i (unat g))"
  shows "\<exists>x. for_each is (write_bg_copy bg g) s = Inr ((), with_sysbuf x s)
    \<and> (wf_block_group_descriptor bg \<and> length (cx_sysbuf (ctx s)) = 512 \<longrightarrow> length x = 512)"
  using assms
proof (induction "is" arbitrary: s)
  case Nil
  have "s = with_sysbuf (cx_sysbuf (ctx s)) s"
    by (simp add: with_sysbuf_def)
  then show ?case
    by (intro exI [of _ "cx_sysbuf (ctx s)"]) simp
next
  case (Cons i js)
  obtain x where x: "write_bg_copy bg g i s = Inr ((), with_sysbuf x s)"
    "wf_block_group_descriptor bg \<longrightarrow> length x = 512"
    using write_bg_copy_run [of s i g bg] Cons.prems by auto
  have "\<forall>i\<in>set js. in_part (with_sysbuf x s) (table_sector (with_sysbuf x s) i (unat g))"
    using Cons.prems by (simp add: table_sector_def)
  then show ?case
    using Cons.IH [of "with_sysbuf x s"] Cons.prems by (auto simp: seq_Inr x)
qed

lemma ext2_write_bg_descriptor_len:
  assumes "pc_ok (dev s)" "unat (s_log_block_size (sb s)) \<le> 2" "g < cx_num_blockgroups (ctx s)" "tables_ok s (unat g)"
  shows "\<exists>x. ext2_write_bg_descriptor bg g s = Inr (0, with_sysbuf x s)
    \<and> (wf_block_group_descriptor bg \<and> length (cx_sysbuf (ctx s)) = 512 \<longrightarrow> length x = 512)"
  using for_each_write_bg [OF assms(1,2), of "[0..<unat (cx_num_superblocks (ctx s))]" g bg] assms(3,4)
  by (auto simp: ext2_write_bg_descriptor_def tables_ok_def seq_Inr)

lemma ext2_write_bg_descriptor_run:
  assumes "pc_ok (dev s)" "unat (s_log_block_size (sb s)) \<le> 2" "g < cx_num_blockgroups (ctx s)" "tables_ok s (unat g)"
  shows "\<exists>x. ext2_write_bg_descriptor bg g s = Inr (0, with_sysbuf x s)"
  using ext2_write_bg_descriptor_len [OF assms, of bg] by blast

section \<open>The bitmap\<close>

definition block_group :: "fs \<Rightarrow> u32 \<Rightarrow> nat" where
  "block_group s b = unat b div unat (s_blocks_per_group (sb s))"

definition block_bit :: "fs \<Rightarrow> u32 \<Rightarrow> nat" where
  "block_bit s b = unat b mod unat (s_blocks_per_group (sb s))"

text \<open>The sector \<open>ext2_change_allocated\<close> takes for the bitmap: the block number is used as it is.\<close>

definition bitmap_sector :: "fs \<Rightarrow> u32 \<Rightarrow> nat" where
  "bitmap_sector s b = unat (bg_block_bitmap (bg_desc s (block_group s b))) + block_bit s b div 4096"

definition is_allocated :: "fs \<Rightarrow> u32 \<Rightarrow> bool" where
  "is_allocated s b = bit (part_sector s (bitmap_sector s b) ! (block_bit s b div 8 mod 512)) (block_bit s b mod 8)"

definition alloc_ok :: "fs \<Rightarrow> u32 \<Rightarrow> bool" where
  "alloc_ok s b \<longleftrightarrow> pc_ok (dev s) \<and> unat (s_log_block_size (sb s)) \<le> 2 \<and> s_blocks_per_group (sb s) \<noteq> 0
     \<and> block_group s b < unat (cx_num_blockgroups (ctx s)) \<and> in_part s (bg_sector s (block_group s b))
     \<and> in_part s (bitmap_sector s b) \<and> tables_ok s (block_group s b)
     \<and> bitmap_sector s b \<noteq> bg_sector s (block_group s b)"

lemma bit_mask: "(x :: u8) AND push_bit k 1 \<noteq> 0 \<longleftrightarrow> bit x k"
  by (simp add: bit_iff_and_push_bit_not_eq_0)

text \<open>The byte with the bit set or cleared.\<close>

lemma bit_changed:
  assumes "k < 8" "j < 8"
  shows "bit ((x :: u8) OR push_bit k 1) j = (j = k \<or> bit x j)"
    "bit (x AND NOT (push_bit k 1)) j = (j \<noteq> k \<and> bit x j)"
  using assms by (auto simp: bit_simps)

section \<open>Writing a sector from \<open>sysbuf\<close>\<close>

definition put_sector :: "nat \<Rightarrow> u8 list \<Rightarrow> fs \<Rightarrow> fs" where
  "put_sector n x s = s\<lparr>dev := pc_put (of_nat n + cx_part_start (ctx s)) x (dev s)\<rparr>"

lemma put_sector_fields [simp]:
  "ctx (put_sector n x s) = ctx s" "fe (put_sector n x s) = fe s" "in_part (put_sector n x s) = in_part s"
  "spb (put_sector n x s) = spb s"
  by (simp_all add: put_sector_def in_part_def spb_def fun_eq_iff)

lemma of_nat_sector_eq:
  assumes "n + unat p < 4294967296" "m + unat p < 4294967296"
  shows "(of_nat n + (p :: u32) = of_nat m + p) = (n = m)"
  using assms by (simp add: w32_eq)

lemma put_sector_run:
  assumes s: "pc_ok (dev s)" and n: "in_part s n" and x: "length x = 512"
  shows "cx_sysbuf (ctx s) = x \<Longrightarrow> sys_write (of_nat n + cx_part_start (ctx s)) s = Inr (0, put_sector n x s)"
    "pc_ok (dev (put_sector n x s))"
    "in_part s m \<Longrightarrow> part_sector (put_sector n x s) m = (if m = n then x else part_sector s m)"
proof -
  let ?p = "cx_part_start (ctx s)"
  have v: "pc_valid (dev s) (of_nat n + ?p)"
    using in_part_valid [OF s n] by simp
  show "cx_sysbuf (ctx s) = x \<Longrightarrow> sys_write (of_nat n + ?p) s = Inr (0, put_sector n x s)"
    using s v x by (simp add: sys_write_def on_dev_def block_write_put BLOCK_SIZE_def put_sector_def)
  show "pc_ok (dev (put_sector n x s))"
    using s v x by (simp add: put_sector_def pc_ok_put BLOCK_SIZE_def)
  assume m: "in_part s m"
  have "n + unat ?p < 4294967296" "m + unat ?p < 4294967296"
    using in_part_bound [OF s n] in_part_bound [OF s m] by simp_all
  note eq = of_nat_sector_eq [OF this]
  have "pc_valid (dev s) (of_nat m + ?p)"
    using in_part_valid [OF s m] by simp
  then show "part_sector (put_sector n x s) m = (if m = n then x else part_sector s m)"
    using s v x eq by (auto simp: part_sector_def put_sector_def pc_sector_put BLOCK_SIZE_def)
qed

section \<open>Changing one bit\<close>

text \<open>The bitmap sector with the bit of block \<open>b\<close> flipped.\<close>

definition flipped_sector :: "fs \<Rightarrow> u32 \<Rightarrow> u8 list" where
  "flipped_sector s b = (let x = part_sector s (bitmap_sector s b); i = block_bit s b div 8 mod 512;
     k = block_bit s b mod 8
   in x[i := (if is_allocated s b then x ! i AND NOT (push_bit k 1) else x ! i OR push_bit k 1)])"

lemma alloc_words:
  shows "unat (b div s_blocks_per_group (sb s)) = block_group s b"
    "bitmap_index (b mod s_blocks_per_group (sb s)) = block_bit s b div 8 mod 512"
    "bitmap_mask (b mod s_blocks_per_group (sb s)) = push_bit (block_bit s b mod 8) 1"
    "bg_block_bitmap (bg_desc s (block_group s b)) + b mod s_blocks_per_group (sb s) div 8 div block_get_block_size
      = of_nat (bitmap_sector s b)"
proof -
  let ?w = "b mod s_blocks_per_group (sb s)"
  have "?w div 8 div 512 = of_nat (block_bit s b div 4096)"
    unfolding word_div_nat [of "?w div 8" 512] unat_div32 unat_mod32 by (simp add: block_bit_def flip: div_mult2_eq)
  then show "bg_block_bitmap (bg_desc s (block_group s b)) + ?w div 8 div block_get_block_size
      = of_nat (bitmap_sector s b)"
    by (simp add: block_get_block_size_def bitmap_sector_def)
qed (simp_all add: unat_div32 unat_mod32 block_group_def block_bit_def bitmap_index_def bitmap_mask_def
    block_get_block_size_def)

text \<open>The common first part: the descriptor and the bitmap sector are read.\<close>

lemma change_allocated_start:
  assumes ok: "alloc_ok s b"
  shows "ext2_get_bg_descriptor (b div s_blocks_per_group (sb s)) s
      = Inr ((0, Some (bg_desc s (block_group s b))), sys_loaded (bg_sector s (block_group s b)) s)"
    "sys_read (of_nat (bitmap_sector s b) + cx_part_start (ctx s)) (sys_loaded (bg_sector s (block_group s b)) s)
      = Inr (0, with_sysbuf (part_sector s (bitmap_sector s b)) s)"
proof -
  let ?t = "sys_loaded (bg_sector s (block_group s b)) s"
  show "ext2_get_bg_descriptor (b div s_blocks_per_group (sb s)) s
      = Inr ((0, Some (bg_desc s (block_group s b))), ?t)"
    using ext2_get_bg_descriptor_run [of s "b div s_blocks_per_group (sb s)"] ok
    by (simp add: alloc_ok_def alloc_words word_less_nat_alt)
  show "sys_read (of_nat (bitmap_sector s b) + cx_part_start (ctx s)) ?t
      = Inr (0, with_sysbuf (part_sector s (bitmap_sector s b)) s)"
    using sys_read_loaded [of ?t "bitmap_sector s b"] ok by (simp add: alloc_ok_def sys_loaded_with)
qed

lemma is_allocated_mask:
  "part_sector s (bitmap_sector s b) ! (block_bit s b div 8 mod 512) AND 2 ^ (block_bit s b mod 8) = 0
   \<longleftrightarrow> \<not> is_allocated s b"
  unfolding is_allocated_def bit_mask [symmetric] by simp

lemma change_allocated_refused:
  assumes ok: "alloc_ok s b" and same: "is_allocated s b = alloc"
  shows "ext2_change_allocated b (if alloc then EXT2_ALLOCATED else EXT2_DEALLOCATED) d s
    = Inr (-1, with_sysbuf (part_sector s (bitmap_sector s b)) s)"
proof -
  have "s_blocks_per_group (sb s) \<noteq> 0"
    using ok by (simp add: alloc_ok_def)
  then show ?thesis
    using same by (cases alloc) (simp_all add: ext2_change_allocated_def bnd_Inr c_div_run c_mod_run
      change_allocated_start [OF ok] alloc_words is_allocated_mask Let_def EXT2_ALLOCATED_def EXT2_DEALLOCATED_def)
qed

text \<open>The state after a successful change, up to what is left in \<open>sysbuf\<close>.\<close>

definition changed_alloc :: "u32 \<Rightarrow> fs \<Rightarrow> fs" where
  "changed_alloc b s = (let t = put_sector (bitmap_sector s b) (flipped_sector s b) s in
     t\<lparr>ctx := (ctx t)\<lparr>cx_superblock := (sb t)\<lparr>s_free_blocks_count :=
       (if is_allocated s b then s_free_blocks_count (sb s) + 1 else s_free_blocks_count (sb s) - 1)\<rparr>\<rparr>\<rparr>)"

lemma changed_alloc_end:
  assumes "h = (if is_allocated s b then (\<lambda>n. n + 1) else (\<lambda>n. n - 1))"
  shows "ctx_update (cx_superblock_update (s_free_blocks_count_update h))
    (with_sysbuf y (put_sector (bitmap_sector s b) (flipped_sector s b) (with_sysbuf z s)))
    = with_sysbuf y (changed_alloc b s)"
  unfolding assms changed_alloc_def Let_def
  by (cases s; cases "ctx s"; cases "sb s") (simp add: with_sysbuf_def put_sector_def)

lemma change_allocated_run:
  assumes ok: "alloc_ok s b" and diff: "is_allocated s b \<noteq> alloc"
  shows "\<exists>x. ext2_change_allocated b (if alloc then EXT2_ALLOCATED else EXT2_DEALLOCATED) d s
    = Inr (0, with_sysbuf x (changed_alloc b s))"
proof -
  let ?B = "bitmap_sector s b" and ?g = "b div s_blocks_per_group (sb s)"
  have o: "s_blocks_per_group (sb s) \<noteq> 0" "pc_ok (dev s)" "in_part s ?B" "unat (s_log_block_size (sb s)) \<le> 2"
    "tables_ok s (block_group s b)" "?g < cx_num_blockgroups (ctx s)"
    using ok by (simp_all add: alloc_ok_def alloc_words word_less_nat_alt)
  have len: "length (flipped_sector s b) = 512"
    using length_part_sector [OF o(2,3)] by (simp add: flipped_sector_def Let_def)
  let ?u = "with_sysbuf (flipped_sector s b) s" and ?p = "put_sector ?B (flipped_sector s b)"
  have wr: "sys_write (of_nat ?B + cx_part_start (ctx s)) ?u = Inr (0, ?p ?u)"
    using put_sector_run(1) [of ?u ?B "flipped_sector s b"] o len by simp
  have "pc_ok (dev (?p ?u))"
    using put_sector_run(2) [of ?u ?B "flipped_sector s b"] o len by simp
  moreover have "tables_ok (?p ?u) (unat ?g)"
    using o(5) by (simp add: tables_ok_def table_sector_def alloc_words)
  ultimately have "\<exists>x. ext2_write_bg_descriptor bg ?g (?p ?u) = Inr (0, with_sysbuf x (?p ?u))" for bg
    using o by (intro ext2_write_bg_descriptor_run) simp_all
  then obtain f where bg: "\<And>bg. ext2_write_bg_descriptor bg ?g (?p ?u) = Inr (0, with_sysbuf (f bg) (?p ?u))"
    by metis
  let ?mask = "2 ^ (block_bit s b mod 8) :: u8" and ?i = "block_bit s b div 8 mod 512"
  have flip: "(part_sector s ?B)[?i := if is_allocated s b then part_sector s ?B ! ?i AND NOT ?mask
      else part_sector s ?B ! ?i OR ?mask] = flipped_sector s b"
    by (simp add: flipped_sector_def Let_def)
  show ?thesis
    using o(1) diff flip
    by (cases alloc) (simp_all add: ext2_change_allocated_def bnd_Inr c_div_run c_mod_run
        change_allocated_start [OF ok] alloc_words is_allocated_mask Let_def EXT2_ALLOCATED_def
        EXT2_DEALLOCATED_def upd_ctx_def sysbuf_upd wr bg upd_sb_def changed_alloc_end, auto)
qed

section \<open>The volume after a change\<close>

lemma changed_alloc_fields [simp]:
  "fe (changed_alloc b s) = fe s" "cx_part_start (ctx (changed_alloc b s)) = cx_part_start (ctx s)"
  "cx_num_blockgroups (ctx (changed_alloc b s)) = cx_num_blockgroups (ctx s)"
  "cx_superblock_block (ctx (changed_alloc b s)) = cx_superblock_block (ctx s)"
  "cx_num_superblocks (ctx (changed_alloc b s)) = cx_num_superblocks (ctx s)"
  "cx_superblock_blocks (ctx (changed_alloc b s)) = cx_superblock_blocks (ctx s)"
  "sb (changed_alloc b s) = (sb s)\<lparr>s_free_blocks_count :=
     (if is_allocated s b then s_free_blocks_count (sb s) + 1 else s_free_blocks_count (sb s) - 1)\<rparr>"
  "in_part (changed_alloc b s) = in_part s" "spb (changed_alloc b s) = spb s"
  by (simp_all add: changed_alloc_def Let_def put_sector_def in_part_def spb_def fun_eq_iff)

lemma changed_alloc_groups [simp]:
  "block_group (changed_alloc b s) = block_group s" "block_bit (changed_alloc b s) = block_bit s"
  "bg_sector (changed_alloc b s) = bg_sector s"
  by (simp_all add: block_group_def block_bit_def bg_sector_def fun_eq_iff)

lemma with_sysbuf_groups [simp]:
  "block_group (with_sysbuf x s) = block_group s" "block_bit (with_sysbuf x s) = block_bit s"
  "bg_sector (with_sysbuf x s) = bg_sector s" "bg_desc (with_sysbuf x s) = bg_desc s"
  "bitmap_sector (with_sysbuf x s) = bitmap_sector s" "is_allocated (with_sysbuf x s) = is_allocated s"
  "alloc_ok (with_sysbuf x s) = alloc_ok s"
  by (simp_all add: fun_eq_iff block_group_def block_bit_def bg_sector_def bg_desc_def bitmap_sector_def
      is_allocated_def alloc_ok_def tables_ok_def table_sector_def)

lemma changed_alloc_sectors:
  assumes ok: "alloc_ok s b"
  shows "pc_ok (dev (changed_alloc b s))"
    "in_part s m \<Longrightarrow> part_sector (changed_alloc b s) m
       = (if m = bitmap_sector s b then flipped_sector s b else part_sector s m)"
proof -
  have o: "pc_ok (dev s)" "in_part s (bitmap_sector s b)"
    using ok by (simp_all add: alloc_ok_def)
  then have len: "length (flipped_sector s b) = 512"
    by (simp add: flipped_sector_def Let_def length_part_sector)
  have "dev (changed_alloc b s) = dev (put_sector (bitmap_sector s b) (flipped_sector s b) s)"
    by (simp add: changed_alloc_def Let_def)
  moreover from this have "part_sector (changed_alloc b s) m
      = part_sector (put_sector (bitmap_sector s b) (flipped_sector s b) s) m"
    by (simp add: part_sector_def)
  ultimately show "pc_ok (dev (changed_alloc b s))"
    "in_part s m \<Longrightarrow> part_sector (changed_alloc b s) m
       = (if m = bitmap_sector s b then flipped_sector s b else part_sector s m)"
    using put_sector_run(2,3) [OF o len] by simp_all
qed

lemma changed_alloc_desc:
  assumes ok: "alloc_ok s b" and c: "alloc_ok s c" "block_group s c = block_group s b"
  shows "bg_desc (changed_alloc b s) (block_group s c) = bg_desc s (block_group s c)"
    "bitmap_sector (changed_alloc b s) c = bitmap_sector s c" "alloc_ok (changed_alloc b s) c"
proof -
  have "part_sector (changed_alloc b s) (bg_sector s (block_group s c)) = part_sector s (bg_sector s (block_group s c))"
    using changed_alloc_sectors(2) [OF ok] ok c by (auto simp: alloc_ok_def)
  then show d: "bg_desc (changed_alloc b s) (block_group s c) = bg_desc s (block_group s c)"
    by (simp add: bg_desc_def)
  then show e: "bitmap_sector (changed_alloc b s) c = bitmap_sector s c"
    by (simp add: bitmap_sector_def)
  show "alloc_ok (changed_alloc b s) c"
    using c(1) e changed_alloc_sectors(1) [OF ok] by (simp add: alloc_ok_def tables_ok_def table_sector_def)
qed

lemma is_allocated_changed:
  assumes ok: "alloc_ok s b" and c: "alloc_ok s c" "block_group s c = block_group s b"
  shows "is_allocated (changed_alloc b s) c = (if c = b then \<not> is_allocated s b else is_allocated s c)"
proof -
  let ?B = "bitmap_sector s" and ?n = "block_bit s"
  have len: "length (part_sector s (?B b)) = 512" and inp: "in_part s (?B c)"
    using ok c by (simp_all add: alloc_ok_def length_part_sector)
  have alloc: "is_allocated (changed_alloc b s) c
      = bit (part_sector (changed_alloc b s) (?B c) ! (?n c div 8 mod 512)) (?n c mod 8)"
    by (simp add: is_allocated_def changed_alloc_desc [OF ok c])
  show ?thesis
  proof (cases "?B c = ?B b \<and> ?n c div 8 mod 512 = ?n b div 8 mod 512")
    case True
    then have sec: "part_sector (changed_alloc b s) (?B c) ! (?n c div 8 mod 512)
        = flipped_sector s b ! (?n b div 8 mod 512)"
      using changed_alloc_sectors(2) [OF ok inp] by simp
    have "?n c div 4096 = ?n b div 4096"
      using True c(2) by (simp add: bitmap_sector_def)
    then have "?n c div 8 div 512 = ?n b div 8 div 512"
      by (simp flip: div_mult2_eq)
    then have d: "?n c div 8 = ?n b div 8"
      using True by (metis div_mult_mod_eq)
    then have "(?n c mod 8 = ?n b mod 8) = (?n c = ?n b)"
      by (metis div_mult_mod_eq)
    moreover have "(?n c = ?n b) = (c = b)"
      using c(2) by (metis block_bit_def block_group_def div_mult_mod_eq word_unat_eq_iff)
    ultimately have same: "(?n c mod 8 = ?n b mod 8) = (c = b)"
      by simp
    show ?thesis
      unfolding alloc sec using len same True bit_changed [of "?n b mod 8" "?n c mod 8"]
      by (auto simp: flipped_sector_def Let_def is_allocated_def)
  next
    case False
    then have ne: "c \<noteq> b"
      by auto
    have "part_sector (changed_alloc b s) (?B c) ! (?n c div 8 mod 512) = part_sector s (?B c) ! (?n c div 8 mod 512)"
      using changed_alloc_sectors(2) [OF ok inp] False by (auto simp: flipped_sector_def Let_def)
    then show ?thesis
      unfolding alloc using ne by (simp add: is_allocated_def)
  qed
qed

section \<open>The properties of changing a block\<close>

lemma flip_back:
  "\<not> bit x k \<Longrightarrow> ((x :: u8) OR push_bit k 1) AND NOT (push_bit k 1) = x"
  "bit x k \<Longrightarrow> (x AND NOT (push_bit k 1)) OR push_bit k 1 = x"
  by (rule bit_word_eqI; auto simp: bit_simps)+

lemma flipped_twice:
  assumes ok: "alloc_ok s b"
  shows "flipped_sector (changed_alloc b s) b = part_sector s (bitmap_sector s b)"
proof -
  let ?x = "part_sector s (bitmap_sector s b)" and ?i = "block_bit s b div 8 mod 512" and ?k = "block_bit s b mod 8"
  have inp: "in_part s (bitmap_sector s b)" and len: "length ?x = 512"
    using ok by (simp_all add: alloc_ok_def length_part_sector)
  have "is_allocated s b = bit (?x ! ?i) ?k"
    by (simp add: is_allocated_def)
  then show ?thesis
    using flip_back [of "?x ! ?i" ?k] len changed_alloc_sectors(2) [OF ok inp] is_allocated_changed [OF ok ok]
      changed_alloc_desc(2) [OF ok ok]
    by (simp add: flipped_sector_def Let_def)
qed

lemma demo_tables_ok [simp]: "tables_ok demo_fs 0"
  by (simp add: tables_ok_def table_sector_def)

lemma demo_block_group [simp]:
  "block_group demo_fs 7 = 0" "block_bit demo_fs 7 = 7" "bitmap_sector demo_fs 7 = 3"
  "block_group demo_fs 6 = 0" "block_bit demo_fs 6 = 6" "bitmap_sector demo_fs 6 = 3"
  by (simp_all add: block_group_def block_bit_def bitmap_sector_def)

lemma demo_alloc [simp]:
  "alloc_ok demo_fs 7" "\<not> is_allocated demo_fs 7" "alloc_ok demo_fs 6" "\<not> is_allocated demo_fs 6"
  by (simp_all add: alloc_ok_def is_allocated_def demo_sector_def)

text \<open>C7: changing the allocation of a block flips its bit, keeps the bits of all other blocks of the group,
  writes no sector but the one that holds the bit, and adjusts the count of free blocks in memory.\<close>

theorem change_allocated_flips_one_bit:
  assumes ok: "alloc_ok s b" and diff: "is_allocated s b \<noteq> alloc"
  shows "\<exists>t. ext2_change_allocated b (if alloc then EXT2_ALLOCATED else EXT2_DEALLOCATED) d s = Inr (0, t)
    \<and> (\<forall>c. alloc_ok s c \<and> block_group s c = block_group s b
          \<longrightarrow> is_allocated t c = (if c = b then alloc else is_allocated s c))
    \<and> (\<forall>m. in_part s m \<and> m \<noteq> bitmap_sector s b \<longrightarrow> part_sector t m = part_sector s m)
    \<and> s_free_blocks_count (sb t) = (if alloc then s_free_blocks_count (sb s) - 1 else s_free_blocks_count (sb s) + 1)
    \<and> fe t = fe s"
proof -
  obtain x where "ext2_change_allocated b (if alloc then EXT2_ALLOCATED else EXT2_DEALLOCATED) d s
      = Inr (0, with_sysbuf x (changed_alloc b s))"
    using change_allocated_run [OF ok diff] by blast
  then show ?thesis
    using diff is_allocated_changed [OF ok] changed_alloc_sectors(2) [OF ok] by auto
qed

lemma change_allocated_flips_one_bit_witness:
  "\<exists>t. ext2_change_allocated 7 EXT2_ALLOCATED False demo_fs = Inr (0, t) \<and> is_allocated t 7 \<and> \<not> is_allocated t 6
     \<and> s_free_blocks_count (sb t) = 0"
proof -
  have six: "block_group demo_fs 6 = block_group demo_fs 7"
    by simp
  obtain t where t: "ext2_change_allocated 7 EXT2_ALLOCATED False demo_fs = Inr (0, t)"
    "\<And>c. alloc_ok demo_fs c \<Longrightarrow> block_group demo_fs c = block_group demo_fs 7 \<Longrightarrow>
       is_allocated t c = (if c = 7 then True else is_allocated demo_fs c)"
    "s_free_blocks_count (sb t) = 0"
    using change_allocated_flips_one_bit [of demo_fs 7 True False] demo_alloc(1,2) by auto
  show ?thesis
    using t(1,3) t(2) [of 7] t(2) [OF _ six] by auto
qed

text \<open>A block that already is as wanted is refused: the result is \<open>-1\<close> and neither the device nor the
  counts change, so no block is allocated twice or freed twice.\<close>

theorem change_allocated_refuses:
  assumes ok: "alloc_ok s b" and same: "is_allocated s b = alloc"
  shows "\<exists>t. ext2_change_allocated b (if alloc then EXT2_ALLOCATED else EXT2_DEALLOCATED) d s = Inr (-1, t)
    \<and> dev t = dev s \<and> fe t = fe s \<and> sb t = sb s"
  using change_allocated_refused [OF ok same] by auto

lemma change_allocated_refuses_witness:
  "\<exists>t. ext2_change_allocated 7 EXT2_DEALLOCATED False demo_fs = Inr (-1, t) \<and> dev t = demo_dev"
  using change_allocated_refuses [of demo_fs 7 False False] by auto

text \<open>Allocating a block and freeing it again puts back every sector of the volume and the superblock
  in memory.\<close>

theorem allocate_then_free:
  assumes ok: "alloc_ok s b" and free: "\<not> is_allocated s b"
  shows "\<exists>u. bnd (ext2_change_allocated b EXT2_ALLOCATED d) (\<lambda>_. ext2_change_allocated b EXT2_DEALLOCATED d) s
      = Inr (0, u) \<and> sb u = sb s \<and> (\<forall>m. in_part s m \<longrightarrow> part_sector u m = part_sector s m)"
proof -
  obtain x where x: "ext2_change_allocated b EXT2_ALLOCATED d s = Inr (0, with_sysbuf x (changed_alloc b s))"
    using change_allocated_run [OF ok, of True] free by auto
  let ?t = "with_sysbuf x (changed_alloc b s)"
  have t: "alloc_ok ?t b" "is_allocated ?t b" "bitmap_sector ?t b = bitmap_sector s b"
    using changed_alloc_desc(2,3) [OF ok ok refl] is_allocated_changed [OF ok ok refl] free by auto
  obtain y where y: "ext2_change_allocated b EXT2_DEALLOCATED d ?t = Inr (0, with_sysbuf y (changed_alloc b ?t))"
    using change_allocated_run [OF t(1), of False] t(2) by auto
  have "flipped_sector ?t b = flipped_sector (changed_alloc b s) b"
    by (simp add: flipped_sector_def Let_def)
  then have "part_sector (changed_alloc b ?t) m = part_sector s m" if "in_part s m" for m
    using that changed_alloc_sectors(2) [OF t(1), of m] changed_alloc_sectors(2) [OF ok, of m]
      flipped_twice [OF ok] t(3) by auto
  then show ?thesis
    using x y t(2) free by (simp add: bnd_Inr)
qed

lemma allocate_then_free_witness:
  "\<exists>u. bnd (ext2_change_allocated 7 EXT2_ALLOCATED False) (\<lambda>_. ext2_change_allocated 7 EXT2_DEALLOCATED False) demo_fs
     = Inr (0, u) \<and> sb u = demo_super \<and> part_sector u 3 = replicate 512 0"
proof -
  obtain u where "bnd (ext2_change_allocated 7 EXT2_ALLOCATED False) (\<lambda>_. ext2_change_allocated 7 EXT2_DEALLOCATED False)
      demo_fs = Inr (0, u)" "sb u = demo_super" "\<And>m. in_part demo_fs m \<Longrightarrow> part_sector u m = part_sector demo_fs m"
    using allocate_then_free [of demo_fs 7 False] demo_alloc(1,2) by auto
  then show ?thesis
    by (simp add: demo_sector_def)
qed

text \<open>With a bitmap in block 2 or later, the sector is one before that block.\<close>

lemma bitmap_sector_before:
  assumes nz: "s_blocks_per_group (sb s) \<noteq> 0" and bpg: "unat (s_blocks_per_group (sb s)) \<le> 8 * bsize s"
    and bm: "2 \<le> unat (bg_block_bitmap (bg_desc s (block_group s b)))"
  shows "bitmap_sector s b < unat (bg_block_bitmap (bg_desc s (block_group s b))) * spb s"
proof -
  let ?bm = "unat (bg_block_bitmap (bg_desc s (block_group s b)))"
  have "0 < unat (s_blocks_per_group (sb s))"
    using nz by (simp add: unat_gt_0)
  then have "block_bit s b < 4096 * spb s"
    using bpg unfolding block_bit_def bsize_spb by (metis less_le_trans mod_less_divisor mult.assoc numeral_times_numeral semiring_norm(11,12,13,14))
  then have "block_bit s b div 4096 < spb s"
    by (simp add: less_mult_imp_div_less mult.commute)
  moreover have "?bm + spb s \<le> ?bm * spb s"
  proof -
    have "2 \<le> spb s"
      by (simp add: spb_def)
    then obtain j where "spb s = 2 + j"
      using le_Suc_ex by blast
    moreover obtain i where "?bm = 2 + i"
      using le_Suc_ex [OF bm] by blast
    ultimately show ?thesis
      by (simp add: algebra_simps)
  qed
  ultimately show ?thesis
    by (simp add: bitmap_sector_def)
qed

text \<open>C29: the bitmap sector is computed from the block number of the bitmap without converting it to
  sectors: a bitmap that starts at block 2 or later is never reached, the change goes to a sector
  before it.\<close>

theorem change_allocated_misses_the_bitmap_block:
  assumes ok: "alloc_ok s b" and diff: "is_allocated s b \<noteq> alloc"
    and bpg: "unat (s_blocks_per_group (sb s)) \<le> 8 * bsize s"
    and bm: "2 \<le> unat (bg_block_bitmap (bg_desc s (block_group s b)))"
  shows "\<exists>t. ext2_change_allocated b (if alloc then EXT2_ALLOCATED else EXT2_DEALLOCATED) d s = Inr (0, t)
    \<and> (\<forall>k. let m = unat (bg_block_bitmap (bg_desc s (block_group s b))) * spb s + k
          in in_part s m \<longrightarrow> part_sector t m = part_sector s m)"
proof -
  obtain x where run: "ext2_change_allocated b (if alloc then EXT2_ALLOCATED else EXT2_DEALLOCATED) d s
      = Inr (0, with_sysbuf x (changed_alloc b s))"
    using change_allocated_run [OF ok diff] by blast
  have "s_blocks_per_group (sb s) \<noteq> 0"
    using ok by (simp add: alloc_ok_def)
  from bitmap_sector_before [OF this bpg bm] show ?thesis
    using run changed_alloc_sectors(2) [OF ok] by (simp add: Let_def)
qed

lemma change_allocated_misses_the_bitmap_block_witness:
  "\<exists>t. ext2_change_allocated 7 EXT2_ALLOCATED False demo_fs = Inr (0, t) \<and> part_sector t 6 = demo_sector 6"
proof -
  obtain t where "ext2_change_allocated 7 EXT2_ALLOCATED False demo_fs = Inr (0, t)"
    "\<forall>k. let m = 3 * 2 + k in in_part demo_fs m \<longrightarrow> part_sector t m = part_sector demo_fs m"
    using change_allocated_misses_the_bitmap_block [of demo_fs 7 True False] demo_alloc(1,2) by auto
  then show ?thesis
    by (auto simp: Let_def dest: spec [of _ 0])
qed

text \<open>\<open>ext2_write_bg_descriptor\<close> reads the table copies and patches the descriptor in memory but never
  writes it: the device stays as it was.\<close>

theorem write_bg_descriptor_writes_nothing:
  assumes "pc_ok (dev s)" "unat (s_log_block_size (sb s)) \<le> 2" "g < cx_num_blockgroups (ctx s)" "tables_ok s (unat g)"
  shows "\<exists>t. ext2_write_bg_descriptor bg g s = Inr (0, t) \<and> dev t = dev s \<and> bg_desc t = bg_desc s"
  using ext2_write_bg_descriptor_run [OF assms, of bg] by auto

lemma write_bg_descriptor_writes_nothing_witness:
  "\<exists>t. ext2_write_bg_descriptor (demo_bg\<lparr>bg_free_blocks_count := 0\<rparr>) 0 demo_fs = Inr (0, t) \<and> dev t = demo_dev"
  using write_bg_descriptor_writes_nothing [of demo_fs 0] by auto

end
