(* ===== verification/Ext2_Calls.thy ===== *)
theory Ext2_Calls
  imports Ext2_Frame Ext2_Alloc
begin

text \<open>
  Properties of whole sequences of calls, from opening a file on: the shape and the geometry of the
  volume survive every sequence, and reading never changes the volume.
\<close>

unbundle bit_operations_syntax

section \<open>The demo volume through the calls\<close>

lemma same_disk_inode:
  assumes "dev t = dev s" "ctx t = ctx s"
  shows "inode_ok t = inode_ok s" "disk_inode t = disk_inode s"
proof -
  have v: "part_sector t = part_sector s" "in_part t = in_part s" "spb t = spb s"
    using assms by (simp_all add: part_sector_def in_part_def spb_def fun_eq_iff)
  then have "bg_sector t = bg_sector s" "inode_group t = inode_group s" "inode_bytes t = inode_bytes s"
    using assms by (simp_all add: bg_sector_def inode_group_def inode_bytes_def fun_eq_iff)
  moreover from this v have "bg_desc t = bg_desc s"
    by (simp add: bg_desc_def fun_eq_iff)
  ultimately have "inode_sector t = inode_sector s" "bg_sector t = bg_sector s" "inode_group t = inode_group s"
    "inode_bytes t = inode_bytes s"
    using v by (simp_all add: inode_sector_def fun_eq_iff)
  then show "inode_ok t = inode_ok s" "disk_inode t = disk_inode s"
    using v assms by (simp_all add: inode_ok_def disk_inode_def fun_eq_iff)
qed

text \<open>Opening the root directory: the empty path has no elements.\<close>

lemma path_elements_root [simp]: "path_elements [] = []" "path_elements [slash] = []"
  by (simp_all add: path_elements_def MAX_PATH_LEN_def tokens.simps [of "[]"] tokens.simps [of "[slash]"])

definition demo_root_open :: fs where
  "demo_root_open = (let s = demo_fs\<lparr>mallocs := Suc 0, fe := zero_file_ent\<lparr>fe_magic := EMBEXT_MAGIC\<rparr>\<rparr>;
     t = opened_inode 2 s in t\<lparr>fe := (fe t)\<lparr>fe_flags := fe_flags (fe t) OR EXT2_FLAG_READ\<rparr>\<rparr>)"

lemma demo_open_root: "ext2_open (Suc n) [slash] 0 0 demo_fs = Inr (True, demo_root_open)"
proof -
  let ?s = "demo_fs\<lparr>mallocs := Suc 0, fe := zero_file_ent\<lparr>fe_magic := EMBEXT_MAGIC\<rparr>\<rparr>"
  have m: "malloc demo_fs = Inr (True, demo_fs\<lparr>mallocs := Suc 0\<rparr>)"
    by (simp add: malloc_def demo_fs_def)
  have l: "ext2_lookup_path n [slash] ?s = Inr (2, ?s)"
    by (simp add: ext2_lookup_path_def EXT2_ROOT_INO_def to_int32_id)
  have "inode_ok ?s = inode_ok demo_fs"
    by (rule same_disk_inode) simp_all
  then have o: "ext2_open_inode 2 ?s = Inr (0, opened_inode 2 ?s)"
    by (intro ext2_open_inode_run) simp_all
  show ?thesis
    by (simp add: bnd_Inr m l o set_flag_def upd_fe_def O_ACCESS_FLAGS_def open_existing_def Let_def
        demo_root_open_def open_flag_defs)
qed

section \<open>The properties\<close>



text \<open>The calls a reader makes.\<close>

fun reader :: "call \<Rightarrow> bool" where
  "reader (Read v n) = True"
| "reader (Lseek v off w) = True"
| "reader (Fstat v) = True"
| "reader (Isatty v) = True"
| "reader (Readdir v) = True"
| "reader _ = False"

lemma quiet_reader: "reader c \<Longrightarrow> keeps quiet (exec c)"
  by (cases c) (simp_all only: exec.simps reader.simps, (intro quiet_intros quiet_keeps)+)

lemma quiet_readers:
  assumes "\<forall>c\<in>set cs. reader c"
  shows "keeps quiet (for_each cs exec)"
  using assms by (induction cs) (auto intro: quiet_frame.keeps_ret quiet_frame.keeps_seq quiet_reader)

text \<open>C8: a file that is opened for reading (no \<open>O_CREAT\<close>, no write access) and then read, searched and
  queried in any way leaves every byte of the volume as it was; only \<open>ext2_close\<close> can write.\<close>

theorem reading_leaves_the_volume_unchanged:
  assumes fl: "fl AND (O_WRONLY OR O_RDWR) = 0" "fl AND O_CREAT = 0"
    and "ext2_open (Suc n) name fl mode s = Inr (True, t)"
    and "\<forall>c\<in>set cs. reader c" and "for_each cs exec t = Inr ((), u)"
  shows "dev u = dev s"
  using open_read_only_dev [OF assms(1-3)] keepsD [OF quiet_readers [OF assms(4)] assms(5)]
  by (simp add: quiet_def)

lemma reading_leaves_the_volume_unchanged_witness:
  "\<exists>u. for_each [Lseek TheFe 12 SEEK_SET, Isatty TheFe] exec demo_root_open = Inr ((), u) \<and> dev u = demo_dev"
proof -
  let ?cs = "[Lseek TheFe 12 SEEK_SET, Isatty TheFe]"
  have op: "is_open TheFe demo_root_open" "cursor_ok demo_root_open"
    by (simp_all add: is_open_def demo_root_open_def opened_inode_def Let_def cursor_ok_def INT64_MAX_def)
  have "ext2_lseek TheFe 12 SEEK_SET demo_root_open = Inr (12, seeked 12 demo_root_open)"
    using ext2_lseek_cases [OF op, of 12 SEEK_SET] by (simp add: seek_base_def INT64_MAX_def to_int32_id)
  then obtain u where u: "for_each ?cs exec demo_root_open = Inr ((), u)"
    by (simp add: bnd_Inr seq_def ext2_isatty_def bnd_bad_file set_errno_def)
  have "dev u = dev demo_fs"
    using reading_leaves_the_volume_unchanged [OF _ _ demo_open_root _ u] by simp
  then show ?thesis
    using u by auto
qed

end
