(* ===== verification/Ext2_Session.thy ===== *)
theory Ext2_Session
  imports Ext2_Calls
begin

text \<open>
  Sequences of calls on one open file: what was written is read back after a seek.
\<close>

unbundle bit_operations_syntax

section \<open>What a file looks like depends on the device, the context and the block list only\<close>

lemma same_file_view:
  assumes "dev t = dev s" "ctx t = ctx s" "i_block (ino t) = i_block (ino s)"
  shows "byte_ok t = byte_ok s" "byte_sector t = byte_sector s" "file_byte t = file_byte s"
    "undisturbed t = undisturbed s"
proof -
  have v: "part_sector t = part_sector s" "in_part t = in_part s" "spb t = spb s" "bsize t = bsize s" "epb t = epb s"
    using assms by (simp_all add: part_sector_def in_part_def spb_def bsize_def epb_def fun_eq_iff)
  then have e: "blk_ok t = blk_ok s" "entry_at t = entry_at s" "entry_sector t = entry_sector s"
    by (simp_all add: blk_ok_def entry_at_def entry_sector_def fun_eq_iff)
  then have f: "file_block t = file_block s" "file_block_ok t = file_block_ok s" "map_path t = map_path s"
    by (simp_all only: fun_eq_iff [of "file_block t"] fun_eq_iff [of "file_block_ok t"] fun_eq_iff [of "map_path t"]
        file_block_def file_block_ok_def map_path_def v e assms simp_thms)
  then show "byte_ok t = byte_ok s" "undisturbed t = undisturbed s"
    using v e by (simp_all add: byte_ok_def undisturbed_def fun_eq_iff)
  show b: "byte_sector t = byte_sector s"
    using v f by (simp add: byte_sector_def fun_eq_iff)
  then show "file_byte t = file_byte s"
    using v by (simp add: file_byte_def fun_eq_iff)
qed

lemma seeked_fields [simp]:
  "dev (seeked p s) = dev s" "ctx (seeked p s) = ctx s" "ino (seeked p s) = ino s" "buf (seeked p s) = buf s"
  "fe_magic (fe (seeked p s)) = fe_magic (fe s)" "fe_flags (fe (seeked p s)) = fe_flags (fe s)"
  "fe_cursor (fe (seeked p s)) = p" "in_part (seeked p s) = in_part s"
  by (simp_all add: seeked_def in_part_def fun_eq_iff)

lemma settled_seeked: "settled (seeked p s) = seeked p (settled s)"
  by (simp add: settled_def) (simp add: stored_def seeked_def)

lemma io_state_seeked [simp]: "io_state (seeked p s) = io_state s"
  by (simp add: io_state_def buffer_ok_def)

lemma file_byte_seeked [simp]:
  "byte_ok (seeked p s) = byte_ok s" "file_byte (seeked p s) = file_byte s"
  by (rule same_file_view; simp)+

text \<open>The bytes of one sector are reached together.\<close>

lemma sector_mates:
  assumes "j div 512 = c div 512"
  shows "byte_ok s j = byte_ok s c" "undisturbed s k j = undisturbed s k c" "byte_sector s j = byte_sector s c"
proof -
  have "j div bsize s = c div bsize s"
    by (simp only: bsize_spb div_mult2_eq assms)
  then show "byte_ok s j = byte_ok s c" "undisturbed s k j = undisturbed s k c"
    by (simp_all add: byte_ok_def undisturbed_def)
  show "byte_sector s j = byte_sector s c"
    by (simp only: byte_sector_alt assms)
qed

lemma written_bytes:
  assumes s: "io_state s" and ok: "byte_ok (settled s) c"
    and b: "bytes \<noteq> []" "c mod 512 + length bytes \<le> 512"
    and u: "undisturbed (settled s) (byte_sector (settled s) c) c"
  shows "map (file_byte (settled (after_write c bytes s))) [c..<c + length bytes] = bytes"
proof (rule nth_equalityI)
  fix i
  assume "i < length (map (file_byte (settled (after_write c bytes s))) [c..<c + length bytes])"
  then have i: "i < length bytes"
    by simp
  then have mate: "(c + i) div 512 = c div 512"
    using b(2) by (intro same_sector)
  note m = sector_mates [OF mate, of "settled s"]
  have "file_byte (settled (after_write c bytes s)) (c + i)
      = (if c \<le> c + i \<and> c + i < c + length bytes then bytes ! (c + i - c) else file_byte (settled s) (c + i))"
    by (rule file_byte_after_write [OF s ok b]) (simp_all only: m ok u mate)
  then show "map (file_byte (settled (after_write c bytes s))) [c..<c + length bytes] ! i = bytes ! i"
    using i by simp
qed simp

section \<open>The properties\<close>

text \<open>C10: after a write that stays within one sector, seeking back to where it began and reading as many
  bytes returns the bytes written, also when the buffer was still dirty at each step.\<close>

theorem write_seek_read:
  assumes s: "io_state s" and c: "fe_cursor (fe s) = int c" "c + length bytes < 2 ^ 31"
    and m: "fe_magic (fe s) = EMBEXT_MAGIC" and w: "fe_flags (fe s) AND EXT2_FLAG_WRITE \<noteq> 0"
    and na: "fe_flags (fe s) AND EXT2_FLAG_APPEND = 0"
    and b: "bytes \<noteq> []" "c mod 512 + length bytes \<le> 512" and ok: "byte_ok (settled s) c"
    and u: "undisturbed (settled s) (byte_sector (settled s) c) c"
  shows "\<exists>t. bnd (ext2_write TheFe bytes) (\<lambda>_. bnd (ext2_lseek TheFe (int c) SEEK_SET) (\<lambda>_.
      ext2_read TheFe (of_nat (length bytes)))) s = Inr ((int (length bytes), bytes), t)"
proof -
  let ?w = "after_write c bytes s" and ?n = "length bytes"
  note f = after_write_fields [OF b(1), of c s]
  have n: "unat (of_nat ?n :: u64) = ?n" "0 < ?n"
    using b by (simp_all only: unat_of_nat) simp_all
  have w: "ext2_write TheFe bytes s = Inr (int ?n, ?w)"
    using ext2_write_run [OF s c(1) _ m w na ok] c(2) b by simp
  have op: "is_open TheFe ?w" "cursor_ok ?w"
    using m c f by (simp_all add: is_open_def cursor_ok_def INT64_MAX_def)
  have l: "ext2_lseek TheFe (int c) SEEK_SET ?w = Inr (int c, seeked (int c) ?w)"
    using ext2_lseek_cases [OF op, of "int c" SEEK_SET] c(2)
    by (simp add: seek_base_def INT64_MAX_def to_int32_id)
  have sz: "unat (i_size (ino ?w)) = max (unat (i_size (ino s))) (c + ?n)"
    using after_write_size [OF c(1) _ b(1)] c(2) by simp
  have "io_state ?w" "byte_ok (settled ?w) c"
    using after_write_state(1) [OF s ok b] after_write_map(1) [OF s ok b ok u] by simp_all
  then have "ext2_read TheFe (of_nat ?n) (seeked (int c) ?w)
      = Inr ((int ?n, map (file_byte (settled (seeked (int c) ?w))) [c..<c + ?n]),
          if ?n = 0 then seeked (int c) ?w else after_read c ?n (settled (seeked (int c) ?w)))"
    using m b(2) n sz f by (intro ext2_read_in_sector) (simp_all add: settled_seeked)
  then show ?thesis
    using written_bytes [OF s ok b u] by (simp add: bnd_Inr w l settled_seeked)
qed

lemma write_seek_read_witness:
  "\<exists>t. bnd (ext2_write TheFe [1, 2, 3]) (\<lambda>_. bnd (ext2_lseek TheFe 0 SEEK_SET) (\<lambda>_.
      ext2_read TheFe 3)) demo_fs = Inr ((3, [1, 2, 3]), t)"
  using write_seek_read [of demo_fs 0 "[1, 2, 3]"] by (simp add: flag_defs)

end
