(* ===== verification/Ext2_Dir.thy ===== *)
theory Ext2_Dir
  imports Ext2_Session
begin

text \<open>
  Directories: what an entry at a position of a directory file is, that \<open>ext2_readdir\<close> returns the
  entry under the cursor and moves to the next one, and that path lookup follows the entries.
\<close>

unbundle bit_operations_syntax

section \<open>States with the same disk\<close>

definition same_disk :: "fs \<Rightarrow> fs \<Rightarrow> bool" where
  "same_disk s t \<longleftrightarrow> dev t = dev s \<and> (\<exists>x. ctx t = (ctx s)\<lparr>cx_sysbuf := x\<rparr>)"

lemma same_disk_refl [simp]: "same_disk s s"
  by (auto simp: same_disk_def intro!: exI [of _ "cx_sysbuf (ctx s)"])

lemma same_disk_trans: "same_disk s t \<Longrightarrow> same_disk t u \<Longrightarrow> same_disk s u"
  by (auto simp: same_disk_def)

lemma same_disk_sectors:
  assumes "same_disk s t"
  shows "dev t = dev s" "sb t = sb s" "part_sector t = part_sector s" "in_part t = in_part s" "spb t = spb s"
    "bsize t = bsize s" "blk_ok t = blk_ok s"
proof -
  show v: "dev t = dev s" "sb t = sb s" "part_sector t = part_sector s" "in_part t = in_part s" "spb t = spb s"
    "bsize t = bsize s"
    using assms by (auto simp: same_disk_def part_sector_def in_part_def spb_def bsize_def fun_eq_iff)
  show "blk_ok t = blk_ok s"
    using v by (simp add: blk_ok_def fun_eq_iff)
qed

lemma same_disk_file:
  assumes "same_disk s t" "i_block (ino t) = i_block (ino s)"
  shows "byte_ok t = byte_ok s" "file_byte t = file_byte s"
proof -
  note v = same_disk_sectors [OF assms(1)]
  have e: "epb t = epb s" "entry_at t = entry_at s"
    using v by (simp_all add: epb_def entry_at_def fun_eq_iff)
  then have f: "file_block t = file_block s" "file_block_ok t = file_block_ok s"
    by (simp_all only: fun_eq_iff [of "file_block t"] fun_eq_iff [of "file_block_ok t"]
        file_block_def file_block_ok_def v e assms(2) simp_thms)
  then show "byte_ok t = byte_ok s"
    using v by (simp add: byte_ok_def fun_eq_iff)
  have "byte_sector t = byte_sector s"
    using v f by (simp add: byte_sector_def fun_eq_iff)
  then show "file_byte t = file_byte s"
    using v by (simp add: file_byte_def fun_eq_iff)
qed

lemma same_disk_inodes:
  assumes "same_disk s t"
  shows "inode_ok t = inode_ok s" "disk_inode t = disk_inode s"
proof -
  note v = same_disk_sectors [OF assms]
  have c: "cx_superblock_block (ctx t) = cx_superblock_block (ctx s)" "cx_num_blockgroups (ctx t) = cx_num_blockgroups (ctx s)"
    using assms by (auto simp: same_disk_def)
  have "bg_sector t = bg_sector s" "inode_group t = inode_group s" "inode_bytes t = inode_bytes s"
    using v c by (simp_all add: bg_sector_def inode_group_def inode_bytes_def fun_eq_iff)
  moreover from this v have "bg_desc t = bg_desc s"
    by (simp add: bg_desc_def fun_eq_iff)
  ultimately have "inode_sector t = inode_sector s" "bg_sector t = bg_sector s" "inode_group t = inode_group s"
    "inode_bytes t = inode_bytes s"
    using v by (simp_all add: inode_sector_def fun_eq_iff)
  then show "inode_ok t = inode_ok s" "disk_inode t = disk_inode s"
    using v c by (simp_all add: inode_ok_def disk_inode_def fun_eq_iff)
qed

section \<open>Reading pieces of an entry\<close>

text \<open>An open directory with the cursor at \<open>c\<close>, and how the states of a reader of it are related.\<close>

definition dir_at :: "nat \<Rightarrow> fs \<Rightarrow> bool" where
  "dir_at c s \<longleftrightarrow> map_state s \<and> fe_magic (fe s) = EMBEXT_MAGIC \<and> fe_cursor (fe s) = int c"

definition same_dir :: "fs \<Rightarrow> fs \<Rightarrow> bool" where
  "same_dir s t \<longleftrightarrow> same_disk s t \<and> i_block (ino t) = i_block (ino s) \<and> i_size (ino t) = i_size (ino s)"

lemma same_dir_refl [simp]: "same_dir s s"
  by (simp add: same_dir_def)

lemma same_dir_trans: "same_dir s t \<Longrightarrow> same_dir t u \<Longrightarrow> same_dir s u"
  by (auto simp: same_dir_def intro: same_disk_trans)

lemma same_dir_view:
  assumes "same_dir s t"
  shows "byte_ok t = byte_ok s" "file_byte t = file_byte s" "i_size (ino t) = i_size (ino s)"
  using assms same_disk_file by (simp_all add: same_dir_def)

lemma after_read_fields:
  "dev (after_read c n s) = dev s" "ctx (after_read c n s) = ctx s" "i_block (ino (after_read c n s)) = i_block (ino s)"
  "i_size (ino (after_read c n s)) = i_size (ino s)" "fe_magic (fe (after_read c n s)) = fe_magic (fe s)"
  "static_de (after_read c n s) = static_de s" "bo_dirty (buf s) = 0 \<Longrightarrow> bo_dirty (buf (after_read c n s)) = 0"
  "fe_cursor (fe (after_read c n s)) = fe_cursor (fe s) + int n"
  by (simp_all add: after_read_def accessed_def advanced_def loaded_def)

lemma dir_read:
  assumes d: "dir_at c s" and n: "unat count = n" "c + n \<le> unat (i_size (ino s))" "c mod 512 + n \<le> 512"
    and ok: "0 < n \<Longrightarrow> byte_ok s c"
  shows "\<exists>t. ext2_read TheFe count s = Inr ((int n, map (file_byte s) [c..<c + n]), t)
     \<and> dir_at (c + n) t \<and> same_dir s t \<and> static_de t = static_de s"
proof -
  have r: "n = read_count s c (unat count)"
    using n by (simp add: read_count_def)
  have "ext2_read TheFe count s = Inr ((int n, map (file_byte s) [c..<c + n]), after_read c n s)"
    using ext2_read_run [OF _ _ _ r] d n(3) ok by (simp add: dir_at_def)
  moreover have "dir_at (c + n) (after_read c n s)" "same_dir s (after_read c n s)"
    using d by (auto simp: dir_at_def same_dir_def same_disk_def map_state_def after_read_fields
        intro!: exI [of _ "cx_sysbuf (ctx s)"])
  ultimately show ?thesis
    by (auto simp: after_read_fields)
qed

lemma dir_read_end:
  assumes "dir_at c s" "unat (i_size (ino s)) \<le> c"
  shows "ext2_read TheFe count s = Inr ((0, []), s)"
  using assms read_nothing [of s c count] by (simp add: dir_at_def read_count_def)

text \<open>The static entry is not part of the file.\<close>

lemma dir_static [simp]:
  "dir_at c (static_de_update f s) = dir_at c s" "same_dir s (static_de_update f t) = same_dir s t"
proof -
  have "part_sector (static_de_update f s) = part_sector s" "in_part (static_de_update f s) = in_part s"
    by (simp_all add: part_sector_def in_part_def fun_eq_iff)
  then show "dir_at c (static_de_update f s) = dir_at c s"
    by (simp add: dir_at_def map_state_def)
  show "same_dir s (static_de_update f t) = same_dir s t"
    by (simp add: same_dir_def same_disk_def)
qed

text \<open>Reading on in a directory that was opened in the state \<open>s\<close>.\<close>

lemma dir_read_on:
  assumes d: "dir_at c t" "same_dir s t" and n: "unat count = n" "c + n \<le> unat (i_size (ino s))" "c mod 512 + n \<le> 512"
    and ok: "0 < n \<Longrightarrow> byte_ok s c" and e: "e = c + n" "k = int n"
  obtains u where "ext2_read TheFe count t = Inr ((k, map (file_byte s) [c..<e]), u)"
    "dir_at e u" "same_dir s u" "static_de u = static_de t"
proof -
  note v = same_dir_view [OF d(2)]
  show thesis
    using dir_read [OF d(1) n(1), unfolded v] n(2,3) ok d(2) that same_dir_trans unfolding e by blast
qed

section \<open>Entries\<close>

definition entry_ino :: "fs \<Rightarrow> nat \<Rightarrow> u32" where
  "entry_ino s c = rd4 (map (file_byte s) [c..<c + 4]) 0"

definition entry_rec_len :: "fs \<Rightarrow> nat \<Rightarrow> nat" where
  "entry_rec_len s c = unat (rd2 (map (file_byte s) [c + 4..<c + 6]) 0)"

definition entry_name_len :: "fs \<Rightarrow> nat \<Rightarrow> nat" where
  "entry_name_len s c = unat (file_byte s (c + 6))"

definition entry_name :: "fs \<Rightarrow> nat \<Rightarrow> u8 list" where
  "entry_name s c = map (file_byte s) [c + 8..<c + 8 + entry_name_len s c]"

text \<open>An entry at \<open>c\<close> that can be read: aligned, inside the directory and its blocks reachable, its name
  within one sector. It is in use when its inode number is positive as a signed number.\<close>

definition header_ok :: "fs \<Rightarrow> nat \<Rightarrow> bool" where
  "header_ok s c \<longleftrightarrow> c mod 4 = 0 \<and> c + 8 \<le> unat (i_size (ino s)) \<and> byte_ok s c \<and> byte_ok s (c + 4)"

definition name_ok :: "fs \<Rightarrow> nat \<Rightarrow> bool" where
  "name_ok s c \<longleftrightarrow> c + 8 + entry_name_len s c \<le> unat (i_size (ino s)) \<and> (c + 8) mod 512 + entry_name_len s c \<le> 512
     \<and> (0 < entry_name_len s c \<longrightarrow> byte_ok s (c + 8))"

definition used :: "fs \<Rightarrow> nat \<Rightarrow> bool" where
  "used s c \<longleftrightarrow> 0 < sint (entry_ino s c)"

lemma entry_view:
  assumes "same_dir s t"
  shows "entry_ino t = entry_ino s" "entry_rec_len t = entry_rec_len s" "entry_name t = entry_name s"
    "header_ok t = header_ok s" "name_ok t = name_ok s" "used t = used s"
proof -
  note v = same_dir_view [OF assms]
  show "entry_ino t = entry_ino s" "entry_rec_len t = entry_rec_len s" "entry_name t = entry_name s"
    "header_ok t = header_ok s" "name_ok t = name_ok s" "used t = used s"
    by (intro ext, simp only: entry_ino_def entry_rec_len_def entry_name_def header_ok_def name_ok_def used_def
        entry_name_len_def v)+
qed

text \<open>Within four aligned bytes there is no sector boundary.\<close>

lemma aligned_mod: "c mod 4 = 0 \<Longrightarrow> n \<le> 4 \<Longrightarrow> c mod 512 + n \<le> (512 :: nat)"
proof -
  assume "c mod 4 = 0" "n \<le> 4"
  moreover from this obtain k where k: "c = 4 * k"
    by (auto simp: mod_eq_0_iff_dvd)
  have "4 * k mod 512 = 4 * (k mod 128)" "k mod 128 < 128"
    by (simp_all add: mult_mod_right)
  ultimately show ?thesis
    unfolding k by linarith
qed

lemma aligned_div: "c mod 4 = 0 \<Longrightarrow> k < 4 \<Longrightarrow> (c + k) div 512 = c div (512 :: nat)"
  by (rule same_sector [of c 4]) (simp_all add: aligned_mod)

text \<open>The state of the static entry after each part of \<open>ext2_readdir\<close>.\<close>

lemma readdir_end:
  assumes "dir_at c s" "unat (i_size (ino s)) \<le> c"
  shows "\<exists>t. ext2_readdir TheFe s = Inr (False, t) \<and> dir_at c t \<and> same_dir s t \<and> d_name (static_de t) = d_name (static_de s)"
  using assms
  by (simp add: ext2_readdir_def upd_de_def bnd_Inr dir_read_end [OF assms])

lemma readdir_header:
  assumes d: "dir_at c s" and h: "header_ok s c"
  obtains t where "dir_at (c + 8) t" "same_dir s t" "d_ino (static_de t) = entry_ino s c"
    "d_name (static_de t) = d_name (static_de s)"
    "ext2_readdir TheFe s = (if \<not> used s c then Inr (False, t) else
       bnd (ext2_read TheFe (ucast (file_byte s (c + 6)))) (\<lambda>(_, bytes).
       seq (upd_de (d_name_update (patch 0 bytes)))
       (seq (upd_de (d_name_update (\<lambda>nm. nm[entry_name_len s c := 0])))
       (bnd (ext2_lseek TheFe (int (entry_rec_len s c) - 8 - int (entry_name_len s c)) SEEK_CUR) (\<lambda>_. ret True)))) t)"
proof -
  have a: "c mod 4 = 0" "c + 8 \<le> unat (i_size (ino s))" "byte_ok s c" "byte_ok s (c + 4)"
    using h by (simp_all add: header_ok_def)
  then have a4: "(c + 4) mod 4 = 0"
    by simp
  have mate: "byte_ok s (c + 6)" "byte_ok s (c + 7)"
    using aligned_div [OF a4, of 2] aligned_div [OF a4, of 3] a(4) sector_mates(1) [of "c + 6" "c + 4" s]
      sector_mates(1) [of "c + 7" "c + 4" s] by (simp_all add: add.assoc)
  have m: "(c + 6) mod 512 + 1 \<le> 512" "(c + 7) mod 512 + 1 \<le> 512" "c mod 512 + 4 \<le> 512" "(c + 4) mod 512 + 2 \<le> 512"
    using a(1) aligned_mod [of c 4] aligned_mod [OF a4, of 2] mod_less_divisor [of 512 "c + 6"] mod_less_divisor [of 512 "c + 7"] by simp_all
  obtain t1 where t1: "ext2_read TheFe 4 s = Inr ((4, map (file_byte s) [c..<c + 4]), t1)" "dir_at (c + 4) t1"
      "same_dir s t1" "static_de t1 = static_de s"
    by (rule dir_read_on [OF d same_dir_refl, of 4 4 "c + 4" 4]) (use a m in simp_all)
  let ?u = "static_de_update (d_ino_update (\<lambda>_. entry_ino s c)) t1"
  have u: "dir_at (c + 4) ?u" "same_dir s ?u"
    using t1 by simp_all
  obtain t2 where t2: "ext2_read TheFe 2 ?u = Inr ((2, map (file_byte s) [c + 4..<c + 6]), t2)" "dir_at (c + 6) t2"
      "same_dir s t2" "static_de t2 = static_de ?u"
    by (rule dir_read_on [OF u, of 2 2 "c + 6" 2]) (use a m in simp_all)
  obtain t3 where t3: "ext2_read TheFe 1 t2 = Inr ((1, map (file_byte s) [c + 6..<c + 7]), t3)" "dir_at (c + 7) t3"
      "same_dir s t3" "static_de t3 = static_de t2"
    by (rule dir_read_on [OF t2(2,3), of 1 1 "c + 7" 1]) (use a m mate in simp_all)
  obtain t4 where t4: "ext2_read TheFe 1 t3 = Inr ((1, map (file_byte s) [c + 7..<c + 8]), t4)" "dir_at (c + 8) t4"
      "same_dir s t4" "static_de t4 = static_de t3"
    by (rule dir_read_on [OF t3(2,3), of 1 1 "c + 8" 1]) (use a m mate in simp_all)
  have one: "map (file_byte s) [c + 6..<c + 7] = [file_byte s (c + 6)]" "map (file_byte s) [c + 7..<c + 8] = [file_byte s (c + 7)]"
    by (simp_all add: upt_conv_Cons)
  have de: "static_de t4 = static_de ?u"
    by (simp only: t4(4) t3(4) t2(4))
  have p: "rd4 (patch 0 (map (file_byte s) [c..<c + 4]) (le4 n)) 0 = entry_ino s c" for n
    by (simp add: patch_def entry_ino_def)
  have e: "static_de_update (d_ino_update (\<lambda>n. rd4 (patch 0 (map (file_byte s) [c..<c + 4]) (le4 n)) 0)) t1 = ?u"
    by (simp only: p)
  have n: "uint (rd2 (map (file_byte s) [c + 4..<c + 6]) 0) = int (entry_rec_len s c)"
    "unat (file_byte s (c + 6)) = entry_name_len s c" "uint (file_byte s (c + 6)) = int (entry_name_len s c)"
    by (simp_all only: entry_rec_len_def entry_name_len_def uint_nat)
  show thesis
  proof (rule that [of t4])
    show "dir_at (c + 8) t4" "same_dir s t4" "d_ino (static_de t4) = entry_ino s c"
      "d_name (static_de t4) = d_name (static_de s)"
      using t4(2,3) t1(4) by (simp_all add: de)
    show "ext2_readdir TheFe s = (if \<not> used s c then Inr (False, t4) else
       bnd (ext2_read TheFe (ucast (file_byte s (c + 6)))) (\<lambda>(_, bytes).
       seq (upd_de (d_name_update (patch 0 bytes)))
       (seq (upd_de (d_name_update (\<lambda>nm. nm[entry_name_len s c := 0])))
       (bnd (ext2_lseek TheFe (int (entry_rec_len s c) - 8 - int (entry_name_len s c)) SEEK_CUR) (\<lambda>_. ret True)))) t4)"
      by (simp add: ext2_readdir_def upd_de_def bnd_Inr t1(1) e t2(1) t3(1) t4(1) de one used_def Let_def n split: prod.split)
  qed
qed

text \<open>The whole call on an entry that is in use.\<close>

lemma c_string_name: "length ys + k \<le> length xs \<Longrightarrow> 0 < k \<Longrightarrow> c_string ((patch 0 ys xs)[length ys := 0]) = takeWhile (\<lambda>c. c \<noteq> 0) ys"
proof -
  assume l: "length ys + k \<le> length xs" "0 < k"
  then obtain z zs where z: "drop (length ys) xs = z # zs"
    by (cases "drop (length ys) xs") auto
  have "(patch 0 ys xs)[length ys := 0] = ys @ 0 # zs"
    by (simp add: patch_def z list_update_append)
  then show ?thesis
    by (auto simp: c_string_def takeWhile_append takeWhile_eq_all_conv [THEN iffD2])
qed

lemma readdir_entry:
  assumes d: "dir_at c s" and h: "header_ok s c" "name_ok s c" "used s c" and l: "length (d_name (static_de s)) = 256"
  shows "\<exists>t. ext2_readdir TheFe s = Inr (True, t) \<and> dir_at (c + entry_rec_len s c) t \<and> same_dir s t
     \<and> d_ino (static_de t) = entry_ino s c \<and> c_string (d_name (static_de t)) = takeWhile (\<lambda>c. c \<noteq> 0) (entry_name s c)
     \<and> length (d_name (static_de t)) = 256"
proof -
  let ?n = "entry_name_len s c"
  obtain t where t: "dir_at (c + 8) t" "same_dir s t" "d_ino (static_de t) = entry_ino s c"
    "d_name (static_de t) = d_name (static_de s)"
    "ext2_readdir TheFe s = bnd (ext2_read TheFe (ucast (file_byte s (c + 6)))) (\<lambda>(_, bytes).
       seq (upd_de (d_name_update (patch 0 bytes)))
       (seq (upd_de (d_name_update (\<lambda>nm. nm[?n := 0])))
       (bnd (ext2_lseek TheFe (int (entry_rec_len s c) - 8 - int ?n) SEEK_CUR) (\<lambda>_. ret True)))) t"
    using readdir_header [OF d h(1)] h(3) by auto
  have n: "unat (ucast (file_byte s (c + 6)) :: u64) = ?n" "?n < 256"
    using unat_byte [of "file_byte s (c + 6)"]
    by (simp_all only: entry_name_len_def unsigned_ucast_eq) (simp add: take_bit_nat_eq_self)
  obtain v where v: "ext2_read TheFe (ucast (file_byte s (c + 6))) t = Inr ((int ?n, entry_name s c), v)"
    "dir_at (c + 8 + ?n) v" "same_dir s v" "static_de v = static_de t"
    unfolding entry_name_def
    by (rule dir_read_on [OF t(1,2) n(1), of "c + 8 + ?n" "int ?n"]) (use h(2) in \<open>simp_all add: name_ok_def\<close>)
  define w where "w = static_de_update (d_name_update (\<lambda>nm. (patch 0 (entry_name s c) nm)[?n := 0])) v"
  have w: "dir_at (c + 8 + ?n) w" "same_dir s w" "d_ino (static_de w) = entry_ino s c"
    "d_name (static_de w) = (patch 0 (entry_name s c) (d_name (static_de s)))[?n := 0]"
    using v t by (simp_all add: w_def)
  have r: "entry_rec_len s c < 65536"
    unfolding entry_rec_len_def by (rule unat_lt16)
  have "c + 8 + ?n < 2 ^ 32"
    using h(2) unat_lt32 [of "i_size (ino s)"] by (simp add: name_ok_def)
  then have op: "is_open TheFe w" "cursor_ok w"
    using w(1) by (simp_all add: dir_at_def is_open_def cursor_ok_def INT64_MAX_def)
  let ?c = "int (c + entry_rec_len s c)"
  have "ext2_lseek TheFe (int (entry_rec_len s c) - 8 - int ?n) SEEK_CUR w = Inr (to_int32 ?c, seeked ?c w)"
    using ext2_lseek_cases [OF op, of "int (entry_rec_len s c) - 8 - int ?n" SEEK_CUR] w(1) r n(2) \<open>c + 8 + ?n < 2 ^ 32\<close>
    by (simp add: seek_base_def seek_target_def dir_at_def SEEK_SET_def SEEK_CUR_def SEEK_END_def INT64_MAX_def)
  then have run: "ext2_readdir TheFe s = Inr (True, seeked ?c w)"
    by (simp add: t(5) bnd_Inr v(1) upd_de_def w_def comp_def)
  have len: "length (entry_name s c) = ?n"
    by (simp add: entry_name_def)
  have "map_state (seeked ?c w)"
    using w(1) by (simp add: dir_at_def map_state_def)
  then have "dir_at (c + entry_rec_len s c) (seeked ?c w)" "same_dir s (seeked ?c w)"
    using w(1,2) by (simp_all add: dir_at_def same_dir_def same_disk_def)
  moreover have "static_de (seeked ?c w) = static_de w"
    by (simp add: seeked_def)
  ultimately show ?thesis
    using run w(3,4) l n(2) len c_string_name [of "entry_name s c" 1 "d_name (static_de s)"] by auto
qed

section \<open>Searching a directory\<close>

text \<open>The entries \<open>es\<close> follow one another from \<open>c\<close> up to \<open>c'\<close>; all are in use.\<close>

fun entries :: "fs \<Rightarrow> nat \<Rightarrow> nat list \<Rightarrow> nat \<Rightarrow> bool" where
  "entries s c [] c' \<longleftrightarrow> c' = c"
| "entries s c (e # es) c' \<longleftrightarrow> e = c \<and> header_ok s c \<and> name_ok s c \<and> used s c \<and> entries s (c + entry_rec_len s c) es c'"

text \<open>Where the list stops for the driver: at the end of the directory, or at an unused entry.\<close>

definition entries_end :: "fs \<Rightarrow> nat \<Rightarrow> bool" where
  "entries_end s c \<longleftrightarrow> unat (i_size (ino s)) \<le> c \<or> header_ok s c \<and> \<not> used s c"

definition shown_name :: "fs \<Rightarrow> nat \<Rightarrow> u8 list" where
  "shown_name s c = takeWhile (\<lambda>c. c \<noteq> 0) (entry_name s c)"

lemma entries_view:
  assumes "same_dir s t"
  shows "entries t c es c' = entries s c es c'" "entries_end t c = entries_end s c" "shown_name t = shown_name s"
proof -
  note v = entry_view [OF assms] same_dir_view(3) [OF assms]
  show "entries t c es c' = entries s c es c'"
    by (induction es arbitrary: c) (simp_all add: v)
  show "entries_end t c = entries_end s c" "shown_name t = shown_name s"
    by (simp_all add: entries_end_def shown_name_def v fun_eq_iff)
qed

text \<open>A reader of the directory: an open directory whose static entry has its 256 characters.\<close>

definition reader_at :: "nat \<Rightarrow> fs \<Rightarrow> bool" where
  "reader_at c s \<longleftrightarrow> dir_at c s \<and> length (d_name (static_de s)) = 256"

lemma readdir_stops:
  assumes "reader_at c s" "entries_end s c"
  shows "\<exists>t k. ext2_readdir TheFe s = Inr (False, t) \<and> same_dir s t \<and> reader_at k t"
proof (cases "unat (i_size (ino s)) \<le> c")
  case True
  then show ?thesis
    using readdir_end [of c s] assms by (auto simp: reader_at_def)
next
  case False
  then have h: "header_ok s c" "\<not> used s c"
    using assms by (auto simp: entries_end_def)
  have r: "dir_at c s" "length (d_name (static_de s)) = 256"
    using assms(1) by (simp_all add: reader_at_def)
  from readdir_header [OF r(1) h(1)] obtain t where "ext2_readdir TheFe s = Inr (False, t)" "dir_at (c + 8) t" "same_dir s t"
    "d_name (static_de t) = d_name (static_de s)"
    using h(2) by metis
  then show ?thesis
    using r(2) by (intro exI [of _ t] exI [of _ "c + 8"]) (simp add: reader_at_def)
qed

lemma readdir_next:
  assumes "reader_at c s" "header_ok s c" "name_ok s c" "used s c"
  obtains t where "ext2_readdir TheFe s = Inr (True, t)" "reader_at (c + entry_rec_len s c) t" "same_dir s t"
    "d_ino (static_de t) = entry_ino s c" "c_string (d_name (static_de t)) = shown_name s c"
  using readdir_entry [of c s] assms by (auto simp: reader_at_def shown_name_def)

lemma find_entry_found:
  assumes "reader_at c s" "entries s c (es @ [e]) c'" "\<forall>x\<in>set es. shown_name s x \<noteq> name" "shown_name s e = name"
    and "length es < fuel"
  shows "\<exists>t. find_entry fuel name s = Inr (True, t) \<and> same_dir s t \<and> d_ino (static_de t) = entry_ino s e
     \<and> reader_at (e + entry_rec_len s e) t"
  using assms
proof (induction es arbitrary: c s fuel)
  case Nil
  then obtain f where f: "fuel = Suc f"
    by (cases fuel) auto
  have "header_ok s e" "name_ok s e" "used s e" "c = e"
    using Nil.prems(2) by simp_all
  then obtain t where "ext2_readdir TheFe s = Inr (True, t)" "reader_at (e + entry_rec_len s e) t" "same_dir s t"
    "d_ino (static_de t) = entry_ino s e" "c_string (d_name (static_de t)) = shown_name s e"
    using readdir_next [of e s] Nil.prems(1) by blast
  then show ?case
    using Nil.prems(4) by (intro exI [of _ t]) (simp add: f bnd_Inr)
next
  case (Cons x es)
  then obtain f where f: "fuel = Suc f" "length es < f"
    by (cases fuel) auto
  have x: "header_ok s c" "name_ok s c" "used s c" "x = c" "entries s (c + entry_rec_len s c) (es @ [e]) c'"
    using Cons.prems(2) by simp_all
  obtain t where t: "ext2_readdir TheFe s = Inr (True, t)" "reader_at (c + entry_rec_len s c) t" "same_dir s t"
    "c_string (d_name (static_de t)) = shown_name s c"
    using readdir_next [OF Cons.prems(1) x(1-3)] by blast
  note v = entries_view [OF t(3)] entry_view [OF t(3)]
  obtain u where "find_entry f name t = Inr (True, u)" "same_dir t u" "d_ino (static_de u) = entry_ino s e"
    "reader_at (e + entry_rec_len s e) u"
    using Cons.IH [OF t(2), of f] Cons.prems(3,4) x(5) f(2) by (auto simp: v)
  then show ?case
    using t Cons.prems(3) x(4) same_dir_trans by (auto simp: f bnd_Inr)
qed

lemma find_entry_missing:
  assumes "reader_at c s" "entries s c es c'" "\<forall>x\<in>set es. shown_name s x \<noteq> name" "entries_end s c'"
    and "length es < fuel"
  shows "\<exists>t k. find_entry fuel name s = Inr (False, t) \<and> same_dir s t \<and> reader_at k t"
  using assms
proof (induction es arbitrary: c s fuel)
  case Nil
  then obtain f where f: "fuel = Suc f"
    by (cases fuel) auto
  have "c' = c"
    using Nil.prems(2) by simp
  then obtain t k where "ext2_readdir TheFe s = Inr (False, t)" "same_dir s t" "reader_at k t"
    using readdir_stops [of c s] Nil.prems(1,4) by blast
  then show ?case
    by (intro exI [of _ t] exI [of _ k]) (simp add: f bnd_Inr [of "ext2_readdir TheFe" s False t])
next
  case (Cons x es)
  then obtain f where f: "fuel = Suc f" "length es < f"
    by (cases fuel) auto
  have x: "header_ok s c" "name_ok s c" "used s c" "x = c" "entries s (c + entry_rec_len s c) es c'"
    using Cons.prems(2) by simp_all
  obtain t where t: "ext2_readdir TheFe s = Inr (True, t)" "reader_at (c + entry_rec_len s c) t" "same_dir s t"
    "c_string (d_name (static_de t)) = shown_name s c"
    using readdir_next [OF Cons.prems(1) x(1-3)] by blast
  note v = entries_view [OF t(3)]
  obtain u k where "find_entry f name t = Inr (False, u)" "same_dir t u" "reader_at k u"
    using Cons.IH [OF t(2), of f] Cons.prems(3,4) x(5) f(2) by (auto simp: v)
  then show ?case
    using t Cons.prems(3) x(4) same_dir_trans by (auto simp: f bnd_Inr)
qed

end
