(* ===== verification/Ext2_Lookup.thy ===== *)
theory Ext2_Lookup
  imports Ext2_Dir
begin

text \<open>
  Path lookup: \<open>resolves\<close> says what a path means on the disk, directory by directory;
  \<open>ext2_lookup_path\<close> computes it and \<open>ext2_open\<close> opens the inode it ends at.
\<close>

unbundle bit_operations_syntax

section \<open>What a path means\<close>

text \<open>Directory \<open>i\<close> of the disk as an open file, and an entry in it that the driver finds under a name:
  the first with that name among the entries in use, after fewer than \<open>n\<close> others.\<close>

definition names_entry :: "fs \<Rightarrow> nat \<Rightarrow> u8 list \<Rightarrow> nat \<Rightarrow> bool" where
  "names_entry d n name e \<longleftrightarrow> (\<exists>es c'. entries d 0 (es @ [e]) c' \<and> (\<forall>x\<in>set es. shown_name d x \<noteq> name)
     \<and> shown_name d e = name \<and> length es < n)"

definition names_nothing :: "fs \<Rightarrow> nat \<Rightarrow> u8 list \<Rightarrow> bool" where
  "names_nothing d n name \<longleftrightarrow> (\<exists>es c'. entries d 0 es c' \<and> (\<forall>x\<in>set es. shown_name d x \<noteq> name)
     \<and> entries_end d c' \<and> length es < n)"

inductive resolves :: "fs \<Rightarrow> nat \<Rightarrow> u32 \<Rightarrow> u8 list list \<Rightarrow> u32 \<Rightarrow> bool" for s n where
  here: "resolves s n i [] i"
| down: "inode_ok s i \<Longrightarrow> names_entry (opened_inode i s) n name e
     \<Longrightarrow> resolves s n (entry_ino (opened_inode i s) e) names j \<Longrightarrow> resolves s n i (name # names) j"

inductive_simps resolves_Nil: "resolves s n i [] j"
inductive_simps resolves_Cons: "resolves s n i (name # names) j"

section \<open>Opening a directory of the path\<close>

definition lookup_state :: "fs \<Rightarrow> bool" where
  "lookup_state s \<longleftrightarrow> map_state s \<and> fe_magic (fe s) = EMBEXT_MAGIC \<and> length (d_name (static_de s)) = 256"

lemma opened_inode_same_disk: "same_disk s (opened_inode i s)"
  by (auto simp: same_disk_def opened_inode_def)

lemma same_dir_opened: "same_dir (opened_inode i s) t \<Longrightarrow> same_disk s t"
  using same_disk_trans [OF opened_inode_same_disk] by (auto simp: same_dir_def)

lemma opened_inode_reader:
  assumes "lookup_state s"
  shows "reader_at 0 (opened_inode i s)"
proof -
  have "dev (opened_inode i s) = dev s" "sb (opened_inode i s) = sb s"
    using same_disk_sectors [OF opened_inode_same_disk] by simp_all
  then show ?thesis
    using assms by (simp add: lookup_state_def reader_at_def dir_at_def map_state_def opened_inode_def)
qed

lemma opened_inode_same_dir:
  assumes "same_disk s t"
  shows "same_dir (opened_inode i s) (opened_inode i t)"
proof -
  have "same_disk (opened_inode i s) (opened_inode i t)"
    using assms by (auto simp: same_disk_def opened_inode_def)
  then show ?thesis
    using same_disk_inodes(2) [OF assms] by (simp add: same_dir_def opened_inode_def)
qed

lemma names_view:
  assumes "same_dir s t"
  shows "names_entry t n name e = names_entry s n name e" "names_nothing t n name = names_nothing s n name"
  using entries_view [OF assms] by (simp_all add: names_entry_def names_nothing_def)

lemma resolves_same_disk:
  assumes "resolves s n i names j" "same_disk s t"
  shows "resolves t n i names j"
  using assms
proof (induction rule: resolves.induct)
  case (here i)
  show ?case
    by (rule resolves.here)
next
  case (down i name e names j)
  note v = opened_inode_same_dir [OF down.prems, of i]
  show ?case
    using down same_disk_inodes(1) [OF down.prems] names_view(1) [OF v] entry_view(1) [OF v]
    by (auto intro!: resolves.down)
qed

text \<open>One element of the path.\<close>

lemma lookup_state_after: "reader_at c t \<Longrightarrow> lookup_state t"
  by (simp add: reader_at_def dir_at_def lookup_state_def)

lemma lookup_step:
  assumes s: "lookup_state s" and i: "inode_ok s i" and e: "names_entry (opened_inode i s) n name e"
  obtains t where "lookup_elements n (name # names) i s
      = lookup_elements n names (entry_ino (opened_inode i s) e) t" "lookup_state t" "same_disk s t"
proof -
  have o: "ext2_open_inode i s = Inr (0, opened_inode i s)"
    using s i by (intro ext2_open_inode_run) (simp_all add: lookup_state_def map_state_def)
  obtain es c' where "entries (opened_inode i s) 0 (es @ [e]) c'" "\<forall>x\<in>set es. shown_name (opened_inode i s) x \<noteq> name"
    "shown_name (opened_inode i s) e = name" "length es < n"
    using e by (auto simp: names_entry_def)
  from find_entry_found [OF opened_inode_reader [OF s] this]
  obtain t where t: "find_entry n name (opened_inode i s) = Inr (True, t)" "same_dir (opened_inode i s) t"
    "d_ino (static_de t) = entry_ino (opened_inode i s) e" "lookup_state t"
    using lookup_state_after by blast
  have "same_disk s t"
    using t(2) by (rule same_dir_opened)
  moreover have "lookup_elements n (name # names) i s = lookup_elements n names (entry_ino (opened_inode i s) e) t"
    using t by (simp add: bnd_Inr o)
  ultimately show thesis
    using that t(4) by blast
qed

lemma lookup_elements_run:
  assumes "resolves s n i names j" "lookup_state s"
  shows "\<exists>t. lookup_elements n names i s = Inr (to_int32 (uint j), t) \<and> lookup_state t \<and> same_disk s t"
  using assms
proof (induction names arbitrary: s i)
  case Nil
  then show ?case
    by (auto simp: resolves_Nil)
next
  case (Cons name names)
  then obtain e where e: "inode_ok s i" "names_entry (opened_inode i s) n name e"
    "resolves s n (entry_ino (opened_inode i s) e) names j"
    by (auto simp: resolves_Cons)
  obtain t where t: "lookup_elements n (name # names) i s = lookup_elements n names (entry_ino (opened_inode i s) e) t"
    "lookup_state t" "same_disk s t"
    using lookup_step [OF Cons.prems(2) e(1,2)] by blast
  show ?case
    using Cons.IH [OF resolves_same_disk [OF e(3) t(3)] t(2)] t same_disk_trans by auto
qed

lemma lookup_elements_missing:
  assumes "resolves s n i pre k" "lookup_state s" "inode_ok s k" "names_nothing (opened_inode k s) n name"
  shows "\<exists>t. lookup_elements n (pre @ name # post) i s = Inr (-1, t) \<and> rerrno t = ENOENT \<and> same_disk s t \<and> lookup_state t"
  using assms
proof (induction pre arbitrary: s i)
  case Nil
  then have k: "i = k"
    by (simp add: resolves_Nil)
  have o: "ext2_open_inode k s = Inr (0, opened_inode k s)"
    using Nil.prems by (intro ext2_open_inode_run) (simp_all add: lookup_state_def map_state_def)
  obtain es c' where "entries (opened_inode k s) 0 es c'" "\<forall>x\<in>set es. shown_name (opened_inode k s) x \<noteq> name"
    "entries_end (opened_inode k s) c'" "length es < n"
    using Nil.prems(4) by (auto simp: names_nothing_def)
  from find_entry_missing [OF opened_inode_reader [OF Nil.prems(2)] this]
  obtain t c where t: "find_entry n name (opened_inode k s) = Inr (False, t)" "same_dir (opened_inode k s) t" "reader_at c t"
    by blast
  have "same_disk s t"
    using t(2) by (rule same_dir_opened)
  then have "same_disk s (rerrno_update (\<lambda>_. ENOENT) t)"
    by (simp add: same_disk_def)
  moreover have "lookup_state (rerrno_update (\<lambda>_. ENOENT) t)"
    using lookup_state_after [OF t(3)] by (simp add: lookup_state_def map_state_def)
  ultimately show ?case
    by (simp add: k bnd_Inr o bnd_Inr [of "find_entry n name" _ False t] t(1) set_errno_def)
next
  case (Cons d pre)
  then obtain e where e: "inode_ok s i" "names_entry (opened_inode i s) n d e"
    "resolves s n (entry_ino (opened_inode i s) e) pre k"
    by (auto simp: resolves_Cons)
  obtain t where t: "lookup_elements n (d # pre @ name # post) i s
      = lookup_elements n (pre @ name # post) (entry_ino (opened_inode i s) e) t" "lookup_state t" "same_disk s t"
    using lookup_step [OF Cons.prems(2) e(1,2)] by blast
  have "inode_ok t k" "names_nothing (opened_inode k t) n name"
    using Cons.prems(3,4) same_disk_inodes(1) [OF t(3)] names_view(2) [OF opened_inode_same_dir [OF t(3)]] by simp_all
  then show ?case
    using Cons.IH [OF resolves_same_disk [OF e(3) t(3)] t(2)] t same_disk_trans by auto
qed

section \<open>Opening by path\<close>

text \<open>The state in which \<open>ext2_open\<close> looks the path up: a new \<open>file_ent\<close>.\<close>

definition fresh :: "fs \<Rightarrow> fs" where
  "fresh s = s\<lparr>mallocs := Suc (mallocs s), fe := zero_file_ent\<lparr>fe_magic := EMBEXT_MAGIC\<rparr>\<rparr>"

definition mounted_ok :: "fs \<Rightarrow> bool" where
  "mounted_ok s \<longleftrightarrow> pc_ok (dev s) \<and> unat (s_log_block_size (sb s)) \<le> 2 \<and> length (d_name (static_de s)) = 256
     \<and> heap_ok s (mallocs s) \<and> s_inodes_per_group (sb s) \<noteq> 0 \<and> unat (s_inodes_count (sb s)) < 2 ^ 31"

lemma fresh_state:
  assumes "mounted_ok s"
  shows "same_disk s (fresh s)" "lookup_state (fresh s)"
proof -
  show "same_disk s (fresh s)"
    by (auto simp: same_disk_def fresh_def intro!: exI [of _ "cx_sysbuf (ctx s)"])
  show "lookup_state (fresh s)"
    using assms by (simp add: lookup_state_def map_state_def mounted_ok_def fresh_def zero_file_ent_def)
qed

lemma ext2_open_unfold:
  assumes "mounted_ok s" and "ext2_lookup_path n name (fresh s) = Inr (r, t)"
    and "ext2_open_inode (word_of_int r) t = Inr (i, u)" "i = 0"
  shows "ext2_open (Suc n) name fl mode s
    = open_existing fl (mode AND 0x200 \<noteq> 0) (u\<lparr>fe := (fe u)\<lparr>fe_flags := fe_flags (fe u) OR O_ACCESS_FLAGS fl\<rparr>\<rparr>)"
proof -
  have m: "malloc s = Inr (True, s\<lparr>mallocs := Suc (mallocs s)\<rparr>)"
    using assms(1) by (simp add: malloc_def mounted_ok_def)
  have f: "fe_update (\<lambda>_. zero_file_ent\<lparr>fe_magic := EMBEXT_MAGIC\<rparr>) (s\<lparr>mallocs := Suc (mallocs s)\<rparr>) = fresh s"
    by (simp add: fresh_def)
  have e: "fe_update (fe_flags_update g) u = u\<lparr>fe := (fe u)\<lparr>fe_flags := g (fe_flags (fe u))\<rparr>\<rparr>" for g
    by (cases u; cases "fe u") simp
  show ?thesis
    using assms(2-4) by (simp add: bnd_Inr m f set_flag_def upd_fe_def Let_def e)
qed

lemma ext2_open_missing:
  assumes "mounted_ok s" and "ext2_lookup_path n name (fresh s) = Inr (-1, t)" "same_disk (fresh s) t"
    and "rerrno t = ENOENT" "fl AND O_CREAT = 0"
  shows "\<exists>u. ext2_open (Suc n) name fl mode s = Inr (False, u) \<and> rerrno u = ENOENT \<and> dev u = dev s"
proof -
  have m: "malloc s = Inr (True, s\<lparr>mallocs := Suc (mallocs s)\<rparr>)"
    using assms(1) by (simp add: malloc_def mounted_ok_def)
  have f: "fe_update (\<lambda>_. zero_file_ent\<lparr>fe_magic := EMBEXT_MAGIC\<rparr>) (s\<lparr>mallocs := Suc (mallocs s)\<rparr>) = fresh s"
    by (simp add: fresh_def)
  have d: "same_disk s t"
    using same_disk_trans [OF fresh_state(1) [OF assms(1)] assms(3)] .
  have "s_inodes_count (sb t) < - 1" "s_inodes_per_group (sb t) \<noteq> 0"
    using assms(1) by (simp_all add: same_disk_sectors [OF d] mounted_ok_def word_less_nat_alt unsigned_minus_1_eq_mask mask_eq_exp_minus_1)
  then have "ext2_open_inode (- 1) t = Inr (-1, t)"
    by (simp add: ext2_open_inode_def bnd_Inr c_div_run c_mod_run)
  then show ?thesis
    using assms(2,4,5) same_disk_sectors(1) [OF d]
    by (simp add: bnd_Inr m f set_flag_def upd_fe_def Let_def open_fails_def set_errno_def)
qed

lemma inode_number_word:
  assumes "mounted_ok s" "inode_ok s k"
  shows "word_of_int (to_int32 (uint k)) = k"
proof -
  have "unat k < 2147483648"
    using assms by (simp add: inode_ok_def mounted_ok_def word_le_nat_alt)
  then have "uint k < 2147483648"
    by (simp only: uint_nat)
  then show ?thesis
    using to_int32_id [of "uint k"] uint_nonnegative [of k] by simp
qed

section \<open>The demo volume\<close>

text \<open>The root directory of the demo volume, and its one entry \<open>a\<close>.\<close>

abbreviation demo_root_dir :: fs where
  "demo_root_dir \<equiv> opened_inode 2 (fresh demo_fs)"

lemma demo_fresh: "mounted_ok demo_fs" "same_disk demo_fs (fresh demo_fs)" "ino demo_root_dir = demo_root"
proof -
  show m: "mounted_ok demo_fs"
    by (simp add: mounted_ok_def demo_fs_def)
  show f: "same_disk demo_fs (fresh demo_fs)"
    using fresh_state(1) [OF m] .
  show "ino demo_root_dir = demo_root"
    using same_disk_inodes(2) [OF f] by (simp add: opened_inode_def)
qed

lemma demo_root_fields [simp]: "i_block demo_root = (replicate 15 0)[0 := 6]" "i_size demo_root = 1024"
  by (simp_all add: demo_root_def)

lemma demo_root_view:
  "part_sector demo_root_dir = part_sector demo_fs" "in_part demo_root_dir = in_part demo_fs" "spb demo_root_dir = 2"
  "bsize demo_root_dir = 1024"
  using same_disk_sectors [OF same_disk_trans [OF demo_fresh(2) opened_inode_same_disk]] by simp_all

lemma demo_root_byte_ok: "c < 1024 \<Longrightarrow> byte_ok demo_root_dir c" "c < 512 \<Longrightarrow> byte_sector demo_root_dir c = 12"
  by (simp_all add: byte_ok_def file_block_ok_def file_block_def blk_ok_def byte_sector_def Let_def demo_root_view
      demo_fresh(3))

lemma demo_root_state: "map_state demo_root_dir"
  using opened_inode_reader [OF fresh_state(2) [OF demo_fresh(1)]] by (simp add: reader_at_def dir_at_def)

lemma demo_root_bytes: "c + n \<le> 512 \<Longrightarrow> 0 < n \<Longrightarrow> map (file_byte demo_root_dir) [c..<c + n] = slice c n (demo_sector 12)"
  using sector_bytes [OF demo_root_state, of c n] demo_root_byte_ok(2) [of c] by (simp add: demo_root_view)

lemma demo_sector_12: "demo_sector 12 = (le4 3 @ le2 1024 @ [1, 1, 97]) @ replicate 503 0"
  by (simp add: demo_sector_def patch_def encode_dir_header_def demo_entry_def)

lemma demo_root_entry:
  "entry_ino demo_root_dir 0 = 3" "entry_rec_len demo_root_dir 0 = 1024" "entry_name_len demo_root_dir 0 = 1"
  "shown_name demo_root_dir 0 = [97]"
proof -
  show "entry_ino demo_root_dir 0 = 3"
    using demo_root_bytes [of 0 4] by (simp add: entry_ino_def demo_sector_12 slice_append_left)
  show "entry_rec_len demo_root_dir 0 = 1024"
    using demo_root_bytes [of 4 2] by (simp add: entry_rec_len_def demo_sector_12 slice_append_left slice_append_right)
  show n: "entry_name_len demo_root_dir 0 = 1"
    using demo_root_bytes [of 6 1] by (simp add: entry_name_len_def demo_sector_12 slice_def upt_conv_Cons)
  show "shown_name demo_root_dir 0 = [97]"
    using demo_root_bytes [of 8 1] n by (simp add: shown_name_def entry_name_def demo_sector_12 slice_def upt_conv_Cons)
qed

lemma demo_root_entries: "entries demo_root_dir 0 [0] 1024" "entries_end demo_root_dir 1024"
  by (simp_all add: header_ok_def name_ok_def used_def demo_root_entry demo_root_byte_ok demo_fresh(3) entries_end_def)

lemma demo_path: "path_elements [slash, x] = (if x = slash then [] else [[x]])"
  by (simp add: path_elements_def MAX_PATH_LEN_def MAX_PATH_LEVELS_def tokens.simps [of "[slash, x]"] tokens.simps [of "[]"])

lemma demo_inode_ok_fresh: "inode_ok (fresh demo_fs) 2" "inode_ok (fresh demo_fs) 3"
  using same_disk_inodes(1) [OF demo_fresh(2)] by simp_all

section \<open>The properties\<close>

text \<open>The state of a file that is opened for reading.\<close>

lemma open_read_run:
  assumes s: "mounted_ok s" and r: "resolves (fresh s) n EXT2_ROOT_INO (path_elements name) j" and j: "inode_ok s j"
    and fl: "fl AND (O_WRONLY OR O_RDWR) = 0" "fl AND (O_CREAT OR O_EXCL) \<noteq> (O_CREAT OR O_EXCL)"
  shows "\<exists>t. ext2_open (Suc n) name fl mode s = Inr (True, t) \<and> fe_inode_number (fe t) = j \<and> ino t = disk_inode s j
     \<and> fe_flags (fe t) = EXT2_FLAG_READ OR O_ACCESS_FLAGS fl \<and> dir_at 0 t \<and> same_dir (opened_inode j s) t \<and> dev t = dev s"
proof -
  obtain t where t: "ext2_lookup_path n name (fresh s) = Inr (to_int32 (uint j), t)" "lookup_state t" "same_disk s t"
    using lookup_elements_run [OF r fresh_state(2) [OF s]] same_disk_trans [OF fresh_state(1) [OF s]]
    by (auto simp: ext2_lookup_path_def)
  note w = inode_number_word [OF s j]
  have o: "ext2_open_inode j t = Inr (0, opened_inode j t)"
    using t j same_disk_inodes(1) [OF t(3)] by (intro ext2_open_inode_run) (simp_all add: lookup_state_def map_state_def)
  let ?o = "opened_inode j t"
  let ?u = "?o\<lparr>fe := (fe ?o)\<lparr>fe_flags := fe_flags (fe ?o) OR O_ACCESS_FLAGS fl\<rparr>\<rparr>"
  have "ext2_open (Suc n) name fl mode s = Inr (True, ?u)"
    using ext2_open_unfold [OF s t(1), unfolded w, OF o refl, of fl mode] fl by (simp add: open_existing_def)
  moreover have "dir_at 0 ?o" "same_dir (opened_inode j s) ?o"
    using opened_inode_reader [OF t(2)] opened_inode_same_dir [OF t(3)] by (simp_all add: reader_at_def)
  then have "dir_at 0 ?u" "same_dir (opened_inode j s) ?u"
    by (simp_all add: dir_at_def map_state_def same_dir_def same_disk_def)
  ultimately show ?thesis
    using same_disk_inodes(2) [OF t(3)] same_disk_sectors(1) [OF t(3)]
    by (intro exI [of _ ?u]) (simp add: opened_inode_def)
qed

text \<open>C4: opening for reading a path that leads, directory by directory, to inode \<open>j\<close> returns a file on that
  inode: its number, its contents from the disk, the cursor at the start and the access mode asked for.
  The volume is not changed.\<close>

theorem open_finds_the_file:
  assumes s: "mounted_ok s" and r: "resolves (fresh s) n EXT2_ROOT_INO (path_elements name) j" and j: "inode_ok s j"
    and fl: "fl AND (O_WRONLY OR O_RDWR) = 0" "fl AND (O_CREAT OR O_EXCL) \<noteq> (O_CREAT OR O_EXCL)"
  shows "\<exists>t. ext2_open (Suc n) name fl mode s = Inr (True, t) \<and> fe_inode_number (fe t) = j \<and> ino t = disk_inode s j
     \<and> fe_cursor (fe t) = 0 \<and> fe_magic (fe t) = EMBEXT_MAGIC
     \<and> fe_flags (fe t) = EXT2_FLAG_READ OR O_ACCESS_FLAGS fl \<and> dev t = dev s"
proof -
  obtain t where "ext2_open (Suc n) name fl mode s = Inr (True, t)" "fe_inode_number (fe t) = j" "ino t = disk_inode s j"
    "fe_flags (fe t) = EXT2_FLAG_READ OR O_ACCESS_FLAGS fl" "dir_at 0 t" "dev t = dev s"
    using open_read_run [OF assms, of mode] by (elim exE conjE)
  then show ?thesis
    by (intro exI [of _ t]) (simp add: dir_at_def)
qed

lemma open_finds_the_file_witness:
  "\<exists>t. ext2_open (Suc 1) [slash, 97] 0 0 demo_fs = Inr (True, t) \<and> fe_inode_number (fe t) = 3 \<and> ino t = demo_file"
proof -
  have "names_entry demo_root_dir 1 [97] 0"
    unfolding names_entry_def using demo_root_entries(1) by (intro exI [of _ "[]"] exI [of _ 1024]) (simp add: demo_root_entry)
  then have "resolves (fresh demo_fs) 1 2 [[97]] 3"
    using resolves.down [OF demo_inode_ok_fresh(1), of 1 "[97]" 0 "[]" 3] resolves.here by (simp add: demo_root_entry)
  moreover have "path_elements [slash, 97] = [[97]]"
    using demo_path [of 97] by (simp add: slash_def)
  ultimately show ?thesis
    using open_finds_the_file [OF demo_fresh(1), of 1 "[slash, 97]" 3 0 0]
    by (auto simp: EXT2_ROOT_INO_def open_flag_defs simp del: ext2_open.simps)
qed

text \<open>C18: when the path leads to a directory whose entries, up to its end or to the first unused one, do not
  have the next name, opening without \<open>O_CREAT\<close> fails with \<open>ENOENT\<close> and does not change the volume.\<close>

theorem open_reports_missing_files:
  assumes s: "mounted_ok s" and p: "path_elements name = pre @ d # post" and r: "resolves (fresh s) n EXT2_ROOT_INO pre k"
    and k: "inode_ok s k" "names_nothing (opened_inode k (fresh s)) n d" and fl: "fl AND O_CREAT = 0"
  shows "\<exists>t. ext2_open (Suc n) name fl mode s = Inr (False, t) \<and> rerrno t = ENOENT \<and> dev t = dev s"
proof -
  have "inode_ok (fresh s) k"
    using k(1) same_disk_inodes(1) [OF fresh_state(1) [OF s]] by simp
  then obtain t where "ext2_lookup_path n name (fresh s) = Inr (-1, t)" "rerrno t = ENOENT" "same_disk (fresh s) t"
    using lookup_elements_missing [OF r fresh_state(2) [OF s] _ k(2), of post] by (auto simp: ext2_lookup_path_def p)
  then show ?thesis
    using ext2_open_missing [OF s] fl by blast
qed


lemma open_reports_missing_files_witness:
  "\<exists>t. ext2_open (Suc 2) [slash, 98] 0 0 demo_fs = Inr (False, t) \<and> rerrno t = ENOENT \<and> dev t = demo_dev"
proof -
  have "names_nothing demo_root_dir 2 [98]"
    unfolding names_nothing_def using demo_root_entries by (intro exI [of _ "[0]"] exI [of _ 1024]) (simp add: demo_root_entry)
  moreover have "path_elements [slash, 98] = [[98]]"
    using demo_path [of 98] by (simp add: slash_def)
  ultimately show ?thesis
    using open_reports_missing_files [OF demo_fresh(1), of "[slash, 98]" "[]" "[98]" "[]" 2 2 0 0]
    by (simp add: EXT2_ROOT_INO_def resolves_Nil del: ext2_open.simps)
qed

text \<open>C11: \<open>ext2_readdir\<close> on a directory with the cursor at an entry in use returns it, with the inode number and
  the name of the entry in the static \<open>struct dirent\<close>, and leaves the cursor at the next entry; at the end
  of the directory and at an unused entry it returns \<open>NULL\<close>. The device is not touched.\<close>

theorem ext2_readdir_returns_the_entry:
  assumes "reader_at c s"
  shows "(header_ok s c \<and> name_ok s c \<and> used s c \<longrightarrow> (\<exists>t. ext2_readdir TheFe s = Inr (True, t)
       \<and> reader_at (c + entry_rec_len s c) t \<and> d_ino (static_de t) = entry_ino s c
       \<and> c_string (d_name (static_de t)) = shown_name s c \<and> dev t = dev s))
    \<and> (entries_end s c \<longrightarrow> (\<exists>t. ext2_readdir TheFe s = Inr (False, t) \<and> dev t = dev s))"
proof (intro conjI impI)
  assume h: "header_ok s c \<and> name_ok s c \<and> used s c"
  then obtain t where "ext2_readdir TheFe s = Inr (True, t)" "reader_at (c + entry_rec_len s c) t" "same_dir s t"
    "d_ino (static_de t) = entry_ino s c" "c_string (d_name (static_de t)) = shown_name s c"
    using readdir_next [OF assms] by blast
  then show "\<exists>t. ext2_readdir TheFe s = Inr (True, t) \<and> reader_at (c + entry_rec_len s c) t
       \<and> d_ino (static_de t) = entry_ino s c \<and> c_string (d_name (static_de t)) = shown_name s c \<and> dev t = dev s"
    using same_disk_sectors(1) by (auto simp: same_dir_def)
next
  assume "entries_end s c"
  then show "\<exists>t. ext2_readdir TheFe s = Inr (False, t) \<and> dev t = dev s"
    using readdir_stops [OF assms] same_disk_sectors(1) by (auto simp: same_dir_def)
qed

lemma ext2_readdir_returns_the_entry_witness:
  "\<exists>t. ext2_readdir TheFe demo_root_dir = Inr (True, t) \<and> d_ino (static_de t) = 3 \<and> c_string (d_name (static_de t)) = [97]
     \<and> fe_cursor (fe t) = 1024"
  using ext2_readdir_returns_the_entry [OF opened_inode_reader [OF fresh_state(2) [OF demo_fresh(1)]], of 2] demo_root_entries(1)
  by (auto simp: demo_root_entry reader_at_def dir_at_def)

text \<open>C3: \<open>ext2_block_from_offset\<close> computes the block map: the partition block of the file block at a byte offset,
  through the twelve direct entries and the single, double and triple indirect blocks, for block sizes
  of 1, 2 and 4 KiB; at most the clean buffer of the file changes.\<close>

theorem block_from_offset_follows_the_map:
  assumes "map_state s" "file_block_ok s (unat off div bsize s)" "unat off div bsize s < 2 ^ 32"
  shows "\<exists>t. ext2_block_from_offset off s = Inr (file_block s (unat off div bsize s), t) \<and> same_but_buffer s t"
  using ext2_block_from_offset_run [OF assms(1,2)] assms(3) by simp

lemma block_from_offset_follows_the_map_witness:
  "\<exists>t. ext2_block_from_offset 12288 (demo_fs\<lparr>fe := (fe demo_fs)\<lparr>fe_inode := demo_file\<lparr>i_block := (replicate 15 0)[12 := 7]\<rparr>\<rparr>\<rparr>)
     = Inr (0x41414141, t)"
proof -
  let ?s = "demo_fs\<lparr>fe := (fe demo_fs)\<lparr>fe_inode := demo_file\<lparr>i_block := (replicate 15 0)[12 := 7]\<rparr>\<rparr>\<rparr>"
  have d: "same_disk demo_fs ?s"
    by (auto simp: same_disk_def intro!: exI [of _ "cx_sysbuf demo_ctx"])
  have e: "epb ?s = 256"
    by (simp add: epb_def)
  have "file_block ?s 12 = 0x41414141" "file_block_ok ?s 12"
    by (simp_all add: file_block_def file_block_ok_def Let_def e entry_at_def blk_ok_def same_disk_sectors [OF d]
        demo_sector_def rd4_def)
  moreover have "map_state ?s"
    by (simp add: map_state_def)
  ultimately show ?thesis
    using block_from_offset_follows_the_map [of ?s 12288] by (auto simp: same_disk_sectors [OF d])
qed

end
