(* ===== verification/Ext2_Edit.thy ===== *)
theory Ext2_Edit
  imports Ext2_Lookup
begin

text \<open>
  Editing an open file whose sectors are its own: what a sequence of seeks, reads and writes does to
  its bytes, whatever the state of the buffer in between, and what closing it leaves on the disk.
\<close>

unbundle bit_operations_syntax

section \<open>Files whose sectors are their own\<close>

text \<open>The first \<open>n\<close> bytes are reachable, no two pieces of 512 bytes share a sector, and no piece lies in
  an indirect block of the file's own map.\<close>

definition layout_ok :: "fs \<Rightarrow> nat \<Rightarrow> bool" where
  "layout_ok s n \<longleftrightarrow> (\<forall>j<n. byte_ok s j) \<and> (\<forall>j<n. \<forall>k<n. undisturbed s (byte_sector s k) j
     \<and> (byte_sector s j = byte_sector s k \<longrightarrow> j div 512 = k div 512))"

lemma map_path_cong:
  assumes "i_block (ino t) = i_block (ino s)" "spb t = spb s" "epb t = epb s"
    and "\<forall>m\<in>set (map_path s n). part_sector t m = part_sector s m"
  shows "map_path t n = map_path s n"
  using assms entry_at_cong [OF assms(2)]
  by (auto simp: map_path_def Let_def entry_sector_def split: if_splits)

lemma after_write_layout:
  assumes s: "io_state s" and l: "layout_ok (settled s) n" and b: "bytes \<noteq> []" "c + length bytes \<le> n"
    and fits: "c mod 512 + length bytes \<le> 512"
  defines "w \<equiv> after_write c bytes s"
  shows "layout_ok (settled w) n" "j < n \<Longrightarrow> byte_sector (settled w) j = byte_sector (settled s) j"
    "j < n \<Longrightarrow> undisturbed (settled w) k j = undisturbed (settled s) k j"
    "j < n \<Longrightarrow> file_byte (settled w) j
       = (if c \<le> j \<and> j < c + length bytes then bytes ! (j - c) else file_byte (settled s) j)"
proof -
  have c: "c < n"
    using b by (cases bytes) auto
  have ok: "byte_ok (settled s) j" "undisturbed (settled s) (byte_sector (settled s) k) j"
    "byte_sector (settled s) j = byte_sector (settled s) k \<Longrightarrow> j div 512 = k div 512" if "j < n" "k < n" for j k
    using l that unfolding layout_ok_def by blast+
  note okc = ok(1) [OF c c]
  note m = after_write_map [OF s okc b(1) fits, folded w_def]
  show bs: "byte_sector (settled w) j = byte_sector (settled s) j" if "j < n" for j
    using m(2) [OF ok(1) [OF that that] ok(2) [OF that c]] .
  show "file_byte (settled w) j
       = (if c \<le> j \<and> j < c + length bytes then bytes ! (j - c) else file_byte (settled s) j)" if "j < n"
    unfolding w_def
    by (rule file_byte_after_write [OF s okc b(1) fits ok(1) [OF that that] ok(2) [OF that c] ok(3) [OF that c]])
  note st = after_write_state [OF s okc b(1) fits, folded w_def]
  have v: "i_block (ino (settled w)) = i_block (ino (settled s))" "spb (settled w) = spb (settled s)"
    "epb (settled w) = epb (settled s)" "bsize w = bsize s"
    using after_write_fields [OF b(1), of c s] by (simp_all add: w_def spb_def epb_def bsize_def)
  have path: "map_path (settled w) i = map_path (settled s) i"
    if "file_block_ok (settled s) i" "byte_sector (settled s) c \<notin> set (map_path (settled s) i)" for i
  proof (rule map_path_cong [OF v(1-3)], intro ballI)
    fix k
    assume k: "k \<in> set (map_path (settled s) i)"
    then have "in_part s k"
      using map_path_in_part [OF map_state_settled [OF s] that(1)] by simp
    then show "part_sector (settled w) k = part_sector (settled s) k"
      using st(6) k that(2) by auto
  qed
  show u: "undisturbed (settled w) k j = undisturbed (settled s) k j" if "j < n" for j k
  proof -
    have "file_block_ok (settled s) (j div bsize s)" "0 < j div bsize s \<longrightarrow> file_block_ok (settled s) (j div bsize s - 1)"
      using ok(1) [OF that that] by (auto simp: byte_ok_def Let_def)
    moreover have "undisturbed (settled s) (byte_sector (settled s) c) j"
      by (rule ok(2) [OF that c])
    ultimately have "map_path (settled w) (j div bsize s) = map_path (settled s) (j div bsize s)"
      "map_path (settled w) (j div bsize s - 1) = map_path (settled s) (j div bsize s - 1)"
      using path by (cases "0 < j div bsize s"; simp add: undisturbed_def)+
    then show ?thesis
      by (simp add: undisturbed_def v(4))
  qed
  show "layout_ok (settled w) n"
    unfolding layout_ok_def
  proof (intro conjI allI impI)
    fix j k
    assume j: "j < n" "k < n"
    show "undisturbed (settled w) (byte_sector (settled w) k) j"
      using ok(2) [OF j] by (simp add: bs [OF j(2)] u [OF j(1)])
    show "byte_sector (settled w) j = byte_sector (settled w) k \<Longrightarrow> j div 512 = k div 512"
      using ok(3) [OF j] by (simp add: bs j)
  qed (use m(1) ok(1) ok(2) c in blast)
qed

section \<open>A file being edited\<close>

text \<open>\<open>editing d n f s\<close>: \<open>s\<close> is a state reached from \<open>d\<close> by calls on the open file that did not change its
  size: its first \<open>n\<close> bytes are now \<open>f\<close>, and outside its sectors the volume is that of \<open>d\<close>.\<close>

definition editing :: "fs \<Rightarrow> nat \<Rightarrow> (nat \<Rightarrow> u8) \<Rightarrow> fs \<Rightarrow> bool" where
  "editing d n f s \<longleftrightarrow> io_state s \<and> fe_magic (fe s) = EMBEXT_MAGIC \<and> fe_flags (fe s) AND EXT2_FLAG_WRITE \<noteq> 0
     \<and> fe_flags (fe s) AND EXT2_FLAG_APPEND = 0 \<and> unat (i_size (ino s)) = n \<and> n < 2 ^ 31
     \<and> layout_ok (settled s) n \<and> (\<forall>j<n. file_byte (settled s) j = f j)
     \<and> ctx s = ctx d \<and> in_part s = in_part d \<and> i_block (ino s) = i_block (ino d) \<and> wf_inode (ino s)
     \<and> fe_inode_number (fe s) = fe_inode_number (fe d)
     \<and> (\<forall>j<n. byte_sector (settled s) j = byte_sector d j \<and> (\<forall>k. undisturbed (settled s) k j = undisturbed d k j))
     \<and> (\<forall>m. in_part d m \<and> m \<notin> byte_sector d ` {..<n} \<longrightarrow> part_sector (settled s) m = part_sector d m)
     \<and> heap_ok s = heap_ok d \<and> mallocs s = mallocs d \<and> static_de s = static_de d"

definition put_at :: "nat \<Rightarrow> u8 list \<Rightarrow> (nat \<Rightarrow> u8) \<Rightarrow> nat \<Rightarrow> u8" where
  "put_at c bytes f = (\<lambda>j. if c \<le> j \<and> j < c + length bytes then bytes ! (j - c) else f j)"

lemma environment_kept [simp]:
  "heap_ok (settled s) = heap_ok s" "mallocs (settled s) = mallocs s" "static_de (settled s) = static_de s"
  "fe_inode_number (fe (settled s)) = fe_inode_number (fe s)"
  "heap_ok (loaded m s) = heap_ok s" "mallocs (loaded m s) = mallocs s"
  "heap_ok (seeked p s) = heap_ok s" "mallocs (seeked p s) = mallocs s" "static_de (seeked p s) = static_de s"
  "fe_inode_number (fe (seeked p s)) = fe_inode_number (fe s)"
  by (simp_all add: settled_def stored_def loaded_def seeked_def)

lemma dirty_flag:
  "(fl OR EXT2_FLAG_FS_DIRTY) AND EXT2_FLAG_WRITE = fl AND EXT2_FLAG_WRITE"
  "(fl OR EXT2_FLAG_FS_DIRTY) AND EXT2_FLAG_APPEND = fl AND EXT2_FLAG_APPEND"
  "(fl OR EXT2_FLAG_FS_DIRTY) AND EXT2_FLAG_FS_DIRTY \<noteq> 0"
  by (simp_all add: flag_defs bit.conj_disj_distrib2)

text \<open>The fields of the states after reading and writing that the editor looks at.\<close>

lemma after_read_more:
  "heap_ok (after_read c k s) = heap_ok s" "mallocs (after_read c k s) = mallocs s"
  "fe_inode_number (fe (after_read c k s)) = fe_inode_number (fe s)" "wf_inode (ino (after_read c k s)) = wf_inode (ino s)"
  "0 < k \<Longrightarrow> fe_flags (fe (after_read c k s)) = fe_flags (fe s) OR EXT2_FLAG_FS_DIRTY"
  by (simp_all add: after_read_def accessed_def advanced_def wf_inode_def)

lemma after_write_more:
  assumes "bytes \<noteq> []" "fe_cursor (fe s) = int c" "c + length bytes \<le> unat (i_size (ino s))"
  shows "heap_ok (after_write c bytes s) = heap_ok s" "mallocs (after_write c bytes s) = mallocs s"
    "static_de (after_write c bytes s) = static_de s"
    "fe_inode_number (fe (after_write c bytes s)) = fe_inode_number (fe s)"
    "wf_inode (ino (after_write c bytes s)) = wf_inode (ino s)" "i_size (ino (after_write c bytes s)) = i_size (ino s)"
    "fe_flags (fe (after_write c bytes s)) = fe_flags (fe s) OR EXT2_FLAG_FS_DIRTY"
proof -
  have "\<not> int c + int (length bytes) > uint (i_size (ino s))"
    using assms(3) by (simp only: uint_nat not_less of_nat_le_iff flip: of_nat_add)
  then have "after_write c bytes s = modified (advanced (length bytes) (put_bytes c bytes s))"
    using assms(1,2) by (simp add: after_write_def grown_def advanced_def)
  then show "heap_ok (after_write c bytes s) = heap_ok s" "mallocs (after_write c bytes s) = mallocs s"
    "static_de (after_write c bytes s) = static_de s"
    "fe_inode_number (fe (after_write c bytes s)) = fe_inode_number (fe s)"
    "wf_inode (ino (after_write c bytes s)) = wf_inode (ino s)" "i_size (ino (after_write c bytes s)) = i_size (ino s)"
    "fe_flags (fe (after_write c bytes s)) = fe_flags (fe s) OR EXT2_FLAG_FS_DIRTY"
    by (simp_all add: modified_def advanced_def put_bytes_def patched_def wf_inode_def)
qed

lemma edit_write:
  assumes e: "editing d n f s" and c: "fe_cursor (fe s) = int c" and b: "bytes \<noteq> []" "c + length bytes \<le> n"
    and fits: "c mod 512 + length bytes \<le> 512"
  shows "\<exists>t. ext2_write TheFe bytes s = Inr (int (length bytes), t) \<and> editing d n (put_at c bytes f) t
    \<and> fe_cursor (fe t) = int (c + length bytes) \<and> fe_flags (fe t) AND EXT2_FLAG_FS_DIRTY \<noteq> 0"
proof -
  let ?w = "after_write c bytes s"
  have s: "io_state s" and l: "layout_ok (settled s) n" and n: "unat (i_size (ino s)) = n" "n < 2 ^ 31"
    using e by (simp_all add: editing_def)
  have cn: "c < n"
    using b by (cases bytes) auto
  have ok: "byte_ok (settled s) c"
    using l cn by (simp add: layout_ok_def)
  note st = after_write_state [OF s ok b(1) fits] and ly = after_write_layout [OF s l b fits]
  note g = after_write_fields [OF b(1), of c s] and h = after_write_more [OF b(1) c, unfolded n(1), OF b(2)]
  have run: "ext2_write TheFe bytes s = Inr (int (length bytes), ?w)"
    using ext2_write_run [OF s c] e ok cn n b(2) fits by (simp add: editing_def)
  have sec: "\<forall>j<n. byte_sector (settled s) j = byte_sector d j \<and> (\<forall>k. undisturbed (settled s) k j = undisturbed d k j)"
    "\<forall>m. in_part d m \<and> m \<notin> byte_sector d ` {..<n} \<longrightarrow> part_sector (settled s) m = part_sector d m"
    "in_part s = in_part d"
    using e by (simp_all add: editing_def)
  have "part_sector (settled ?w) m = part_sector d m" if "in_part d m" "m \<notin> byte_sector d ` {..<n}" for m
    using that sec st(6) [of m] cn by auto
  then have "editing d n (put_at c bytes f) ?w"
    using e st(1,4) ly g(2,4,6) h n sec(1) by (auto simp: editing_def put_at_def dirty_flag)
  moreover have "fe_flags (fe ?w) AND EXT2_FLAG_FS_DIRTY \<noteq> 0"
    unfolding h(7) by (rule dirty_flag(3))
  ultimately show ?thesis
    using run g(5) c by auto
qed

lemma edit_seek:
  assumes e: "editing d n f s" and p: "p \<le> n" and c: "cursor_ok s"
  shows "ext2_lseek TheFe (int p) SEEK_SET s = Inr (int p, seeked (int p) s) \<and> editing d n f (seeked (int p) s)
    \<and> cursor_ok (seeked (int p) s)"
proof -
  have n: "n < 2 ^ 31" "fe_magic (fe s) = EMBEXT_MAGIC"
    using e by (simp_all add: editing_def)
  then have "ext2_lseek TheFe (int p) SEEK_SET s = Inr (int p, seeked (int p) s)"
    using ext2_lseek_cases [of TheFe s "int p" SEEK_SET] p c
    by (simp add: is_open_def seek_base_def INT64_MAX_def to_int32_id)
  moreover have "layout_ok (settled (seeked (int p) s)) = layout_ok (settled s)" "file_byte (settled (seeked (int p) s)) = file_byte (settled s)"
    "byte_sector (settled (seeked (int p) s)) = byte_sector (settled s)" "undisturbed (settled (seeked (int p) s)) = undisturbed (settled s)"
    "part_sector (settled (seeked (int p) s)) = part_sector (settled s)"
    using same_file_view [of "seeked (int p) (settled s)" "settled s"]
    by (simp_all add: settled_seeked layout_ok_def part_sector_def fun_eq_iff)
  ultimately show ?thesis
    using e p n by (simp add: editing_def cursor_ok_def INT64_MAX_def)
qed

lemma edit_read:
  assumes e: "editing d n f s" and c: "fe_cursor (fe s) = int c" and k: "unat count = k" "0 < k" "c + k \<le> n"
    and fits: "c mod 512 + k \<le> 512"
  shows "\<exists>t. ext2_read TheFe count s = Inr ((int k, map f [c..<c + k]), t) \<and> editing d n f t
    \<and> fe_cursor (fe t) = int (c + k) \<and> fe_flags (fe t) AND EXT2_FLAG_FS_DIRTY \<noteq> 0"
proof -
  let ?t = "after_read c k (settled s)"
  have s: "io_state s" "layout_ok (settled s) n" "unat (i_size (ino s)) = n" "fe_magic (fe s) = EMBEXT_MAGIC"
    "\<forall>j<n. file_byte (settled s) j = f j"
    using e by (simp_all add: editing_def)
  have "byte_ok (settled s) c"
    using s(2) k(2,3) by (simp add: layout_ok_def)
  then have run: "ext2_read TheFe count s = Inr ((int k, map f [c..<c + k]), ?t)"
    using ext2_read_in_sector [OF s(1) c s(4), of k count] s(3,5) k fits by simp
  note r = after_read_fields [where s = "settled s" and c = c and n = k] and m = after_read_more [where s = "settled s" and c = c and k = k]
  have clean: "bo_dirty (buf ?t) = 0"
    using r(7) by simp
  then have set: "settled ?t = ?t"
    by (simp add: settled_def)
  have v: "byte_ok ?t = byte_ok (settled s)" "byte_sector ?t = byte_sector (settled s)" "file_byte ?t = file_byte (settled s)"
    "undisturbed ?t = undisturbed (settled s)"
    using same_file_view [of ?t "settled s"] r by simp_all
  have p: "part_sector ?t = part_sector (settled s)" "in_part ?t = in_part (settled s)"
    using r unfolding part_sector_def in_part_def fun_eq_iff by simp_all
  have "io_state ?t"
    using map_state_settled [OF s(1)] clean r by (simp add: io_state_def map_state_def)
  moreover have "layout_ok ?t n"
    using s(2) by (simp only: layout_ok_def v)
  ultimately have "editing d n f ?t"
    using e r m k(2) by (simp add: editing_def set v p dirty_flag)
  moreover have "fe_flags (fe ?t) AND EXT2_FLAG_FS_DIRTY \<noteq> 0"
    unfolding m(5) [OF k(2)] by (rule dirty_flag(3))
  moreover have "fe_cursor (fe ?t) = int (c + k)"
    using r(8) c by simp
  ultimately show ?thesis
    using run by blast
qed

text \<open>The start: the file just opened, with a clean buffer.\<close>

lemma edit_start:
  assumes "io_state s" "bo_dirty (buf s) = 0" "fe_magic (fe s) = EMBEXT_MAGIC" "fe_flags (fe s) AND EXT2_FLAG_WRITE \<noteq> 0"
    and "fe_flags (fe s) AND EXT2_FLAG_APPEND = 0" "unat (i_size (ino s)) = n" "n < 2 ^ 31" "layout_ok s n" "wf_inode (ino s)"
  shows "editing s n (file_byte s) s"
  using assms by (simp add: editing_def settled_def)

section \<open>Closing\<close>

text \<open>What a change outside a file and its map leaves alone.\<close>

text \<open>What of the context places the blocks, the inodes and the descriptors.\<close>

definition same_geometry :: "fs \<Rightarrow> fs \<Rightarrow> bool" where
  "same_geometry s t \<longleftrightarrow> s_log_block_size (sb t) = s_log_block_size (sb s)
     \<and> s_inodes_per_group (sb t) = s_inodes_per_group (sb s) \<and> s_inode_size (sb t) = s_inode_size (sb s)
     \<and> s_inodes_count (sb t) = s_inodes_count (sb s) \<and> cx_superblock_block (ctx t) = cx_superblock_block (ctx s)
     \<and> cx_num_blockgroups (ctx t) = cx_num_blockgroups (ctx s) \<and> in_part t = in_part s"

lemma layout_transfer:
  assumes s: "map_state s" and l: "layout_ok s n"
    and v: "i_block (ino t) = i_block (ino s)" "same_geometry s t"
    and p: "\<And>m. in_part s m \<Longrightarrow> m \<notin> X \<Longrightarrow> part_sector t m = part_sector s m"
    and x: "\<And>j. j < n \<Longrightarrow> byte_sector s j \<notin> X \<and> (\<forall>k\<in>X. undisturbed s k j)"
  shows "layout_ok t n" "j < n \<Longrightarrow> byte_sector t j = byte_sector s j" "j < n \<Longrightarrow> file_byte t j = file_byte s j"
    "j < n \<Longrightarrow> undisturbed t k j = undisturbed s k j"
proof -
  have g: "spb t = spb s" "epb t = epb s" "bsize t = bsize s" "blk_ok t = blk_ok s"
    using v(2) unfolding same_geometry_def by (simp_all add: spb_def epb_def bsize_def blk_ok_def fun_eq_iff)
  have path: "map_path t i = map_path s i" "file_block t i = file_block s i" "file_block_ok t i = file_block_ok s i"
    if "file_block_ok s i" "X \<inter> set (map_path s i) = {}" for i
  proof -
    have same: "\<forall>m\<in>set (map_path s i). part_sector t m = part_sector s m"
      using map_path_in_part [OF s that(1)] p that(2) by blast
    show "map_path t i = map_path s i" "file_block t i = file_block s i" "file_block_ok t i = file_block_ok s i"
      using map_path_cong [OF v(1) g(1,2) same] file_block_cong [OF v(1) g(1,2,4) same] by simp_all
  qed
  have ok: "byte_ok s j" "file_block_ok s (j div bsize s)" "X \<inter> set (map_path s (j div bsize s)) = {}"
    "0 < j div bsize s \<Longrightarrow> file_block_ok s (j div bsize s - 1)" "X \<inter> set (map_path s (j div bsize s - 1)) = {}" if "j < n" for j
    using l x [OF that] that by (auto simp: layout_ok_def byte_ok_def undisturbed_def Let_def)
  show bs: "byte_sector t j = byte_sector s j" if "j < n" for j
    using path(2) [OF ok(2,3)] that g by (intro byte_sector_cong) simp_all
  have bo: "byte_ok t j" if "j < n" for j
    using ok [OF that] path(2,3) g by (auto simp: byte_ok_def Let_def)
  show u: "undisturbed t k j = undisturbed s k j" if "j < n" for j k
    using path(1) [OF ok(2,3) [OF that]] path(1) [OF ok(4,5) [OF that]] path(1) [OF ok(2,3) [OF that]]
    by (cases "0 < j div bsize s") (simp_all add: undisturbed_def g)
  have ll: "undisturbed s (byte_sector s k) j" "byte_sector s j = byte_sector s k \<Longrightarrow> j div 512 = k div 512"
    if "j < n" "k < n" for j k
    using l that unfolding layout_ok_def by blast+
  show "layout_ok t n"
    unfolding layout_ok_def
  proof (intro conjI allI impI)
    fix j k
    assume j: "j < n" "k < n"
    show "undisturbed t (byte_sector t k) j"
      using ll(1) [OF j] by (simp add: bs [OF j(2)] u [OF j(1)])
    show "byte_sector t j = byte_sector t k \<Longrightarrow> j div 512 = k div 512"
      using ll(2) [OF j] by (simp add: bs j)
  qed (rule bo)
  show "file_byte t j = file_byte s j" if "j < n"
    using p [OF byte_ok_in_part [OF s ok(1)]] x [OF that] that by (simp add: file_byte_def bs)
qed

text \<open>Where an inode is depends on the geometry and its group's descriptor only.\<close>

lemma inode_view:
  assumes geo: "same_geometry s t" and "part_sector t (bg_sector s (inode_group s i)) = part_sector s (bg_sector s (inode_group s i))"
  shows "inode_group t i = inode_group s i" "inode_bytes t i = inode_bytes s i" "bg_sector t = bg_sector s"
    "inode_sector t i = inode_sector s i" "inode_ok t i = inode_ok s i"
proof -
  note o = geo [unfolded same_geometry_def]
  have spb: "spb t = spb s"
    using o by (simp add: spb_def)
  show g: "inode_group t i = inode_group s i" "inode_bytes t i = inode_bytes s i" "bg_sector t = bg_sector s"
    using o by (simp_all add: inode_group_def inode_bytes_def bg_sector_def spb_def fun_eq_iff)
  then have "bg_desc t (inode_group s i) = bg_desc s (inode_group s i)"
    using assms(2) by (simp add: bg_desc_def)
  then show "inode_sector t i = inode_sector s i"
    using g by (simp add: inode_sector_def spb)
  then show "inode_ok t i = inode_ok s i"
    using o g by (simp add: inode_ok_def)
qed

text \<open>The inode and its descriptor are apart from each other and from the file.\<close>

definition inode_apart :: "fs \<Rightarrow> nat \<Rightarrow> bool" where
  "inode_apart d n \<longleftrightarrow> (let i = fe_inode_number (fe d); x = inode_sector d i; b = bg_sector d (inode_group d i) in
     inode_ok d i \<and> x \<noteq> b \<and> (\<forall>j<n. byte_sector d j \<noteq> x \<and> byte_sector d j \<noteq> b \<and> undisturbed d x j))"

lemma close_run:
  assumes "io_state s" "fe_magic (fe s) = EMBEXT_MAGIC" "fe_flags (fe s) AND EXT2_FLAG_FS_DIRTY \<noteq> 0"
    and "inode_ok (settled s) (fe_inode_number (fe s))" "wf_inode (ino s)"
  shows "ext2_close TheFe s = Inr (0, fe_update (fe_magic_update (\<lambda>_. 0)) (flushed_inode (settled s)))"
proof -
  have store: "(if bo_dirty (buf s) \<noteq> 0 then ext2_store_buffer else ret 0) s = Inr (0, settled s)"
    using assms(1) ext2_store_buffer_run [of s] by (simp add: settled_def io_state_def buffer_ok_def)
  have flush: "ext2_flush_inode (settled s) = Inr (0, flushed_inode (settled s))"
    using assms by (intro ext2_flush_inode_run) (simp_all add: map_state_settled)
  have bad: "bad_file TheFe s = Inr (False, s)"
    using assms(2) by (simp add: bad_file_def)
  show ?thesis
    using assms(3) by (simp add: ext2_close_def bnd_Inr [of "bad_file TheFe", OF bad] bnd_Inr [of "if b then ext2_store_buffer else ret 0" for b, OF store]
        bnd_Inr [of ext2_flush_inode, OF flush] upd_fe_def)
qed

lemma edit_close:
  assumes e: "editing d n f s" and dirty: "fe_flags (fe s) AND EXT2_FLAG_FS_DIRTY \<noteq> 0" and a: "inode_apart d n"
  defines "i \<equiv> fe_inode_number (fe d)"
  shows "\<exists>t x. ext2_close TheFe s = Inr (0, t) \<and> ctx t = (ctx d)\<lparr>cx_sysbuf := x\<rparr> \<and> pc_ok (dev t) \<and> in_part t = in_part d
    \<and> inode_ok t i \<and> disk_inode t i = ino t \<and> i_block (ino t) = i_block (ino d) \<and> unat (i_size (ino t)) = n
    \<and> layout_ok t n \<and> (\<forall>j<n. file_byte t j = f j)
    \<and> (\<forall>j<n. byte_sector t j = byte_sector d j \<and> (\<forall>k. undisturbed t k j = undisturbed d k j))
    \<and> (\<forall>m. in_part d m \<and> m \<notin> byte_sector d ` {..<n} \<and> m \<noteq> inode_sector d i \<longrightarrow> part_sector t m = part_sector d m)
    \<and> heap_ok t = heap_ok d \<and> mallocs t = mallocs d \<and> static_de t = static_de d"
proof -
  let ?S = "settled s" and ?x = "inode_sector d i" and ?b = "bg_sector d (inode_group d i)"
  have s: "io_state s" "fe_magic (fe s) = EMBEXT_MAGIC" "wf_inode (ino s)" "ctx ?S = ctx d" "in_part ?S = in_part d"
    "fe_inode_number (fe s) = i" "i_block (ino s) = i_block (ino d)" "unat (i_size (ino s)) = n" "layout_ok ?S n"
    "\<forall>j<n. file_byte ?S j = f j"
    and sec: "\<And>j. j < n \<Longrightarrow> byte_sector ?S j = byte_sector d j" "\<And>j k. j < n \<Longrightarrow> undisturbed ?S k j = undisturbed d k j"
      "\<And>m. in_part d m \<Longrightarrow> m \<notin> byte_sector d ` {..<n} \<Longrightarrow> part_sector ?S m = part_sector d m"
    using e by (simp_all add: editing_def i_def)
  have ap: "inode_ok d i" "?x \<noteq> ?b" "\<And>j. j < n \<Longrightarrow> byte_sector d j \<noteq> ?x \<and> byte_sector d j \<noteq> ?b \<and> undisturbed d ?x j"
    using a by (simp_all add: inode_apart_def Let_def i_def)
  have "part_sector ?S ?b = part_sector d ?b"
  proof (rule sec(3))
    show "in_part d ?b"
      using ap(1) by (simp add: inode_ok_def)
    show "?b \<notin> byte_sector d ` {..<n}"
      using ap(3) by fastforce
  qed
  then have iv: "inode_group ?S i = inode_group d i" "bg_sector ?S = bg_sector d" "inode_sector ?S i = ?x" "inode_ok ?S i"
    using inode_view [of d ?S i] s(4,5) ap(1) by (simp_all add: same_geometry_def)
  note M = map_state_settled [OF s(1)]
  let ?T = "flushed_inode ?S" and ?t = "fe_update (fe_magic_update (\<lambda>_. 0)) (flushed_inode ?S)"
  have iS: "inode_ok ?S (fe_inode_number (fe ?S))" "wf_inode (ino ?S)"
    using iv(4) s(3,6) by simp_all
  note fl = flushed_sectors [OF M iS]
  have close: "ext2_close TheFe s = Inr (0, ?t)"
    using close_run [OF s(1,2) dirty _ s(3)] iv(4) s(6) by simp
  have ipt: "in_part ?t = in_part ?T"
    unfolding in_part_def fun_eq_iff by simp
  then have view: "part_sector ?t = part_sector ?T" "in_part ?t = in_part d" "dev ?t = dev ?T" "sb ?t = sb ?T" "ino ?t = ino ?T"
    "ctx ?t = ctx ?T"
    using s(5) by (simp_all add: part_sector_def fun_eq_iff)
  have same: "part_sector ?t m = part_sector ?S m" if "in_part d m" "m \<noteq> ?x" for m
    using fl(1) [of m] that s(5,6) iv(3) by (simp add: view)
  have lay: "layout_ok ?t n" "\<And>j. j < n \<Longrightarrow> file_byte ?t j = file_byte ?S j" "\<And>j. j < n \<Longrightarrow> byte_sector ?t j = byte_sector d j"
    "\<And>j k. j < n \<Longrightarrow> undisturbed ?t k j = undisturbed d k j"
  proof -
    have x: "byte_sector ?S j \<notin> {?x} \<and> (\<forall>k\<in>{?x}. undisturbed ?S k j)" if "j < n" for j
      using ap(3) [OF that] sec(1,2) [OF that] by simp
    note tr = layout_transfer [OF M s(9), of ?t "{?x}"]
    show "layout_ok ?t n" "\<And>j. j < n \<Longrightarrow> file_byte ?t j = file_byte ?S j" "\<And>j. j < n \<Longrightarrow> byte_sector ?t j = byte_sector d j"
      "\<And>j k. j < n \<Longrightarrow> undisturbed ?t k j = undisturbed d k j"
      using tr s(4,5) same x sec(1,2) by (simp_all add: view same_geometry_def)
  qed
  have disk: "disk_inode ?T i = ino s" "inode_ok ?T i"
    using disk_inode_flushed [OF M iS, of i] ap(2) iv s(6) by simp_all
  have dt: "disk_inode ?t i = ino s" "inode_ok ?t i"
    using disk inode_view [of ?T ?t i] ipt view by (simp_all add: disk_inode_def same_geometry_def)
  obtain x where ctx: "ctx ?t = (ctx d)\<lparr>cx_sysbuf := x\<rparr>"
    using s(4) by (simp add: flushed_inode_def Let_def stored_def patched_def loaded_def sys_loaded_def)
  have env: "heap_ok ?t = heap_ok d" "mallocs ?t = mallocs d" "static_de ?t = static_de d"
    using e by (simp_all add: editing_def flushed_inode_def Let_def stored_def patched_def loaded_def sys_loaded_def settled_def)
  have pc: "pc_ok (dev ?T)"
    using fl(2) [of ?x] ap(1) s(5) by (simp add: inode_ok_def)
  show ?thesis
    using close ctx dt s(7,8,10) lay env view pc same sec(3) by (intro exI [of _ ?t] exI [of _ x]) auto
qed

end
