(* ===== verification/Ext2_Append.thy ===== *)
theory Ext2_Append
  imports Ext2_Edit
begin

text \<open>
  Appending to a directory: \<open>ext2_append_to_directory\<close> finds the last entry of the last block, cuts it
  to its minimum and puts the new entry into the room behind it. On the disk the directory then lists
  its old entries and the new one.
\<close>

unbundle bit_operations_syntax

section \<open>Headers in the bytes of a directory\<close>

definition header_at :: "(nat \<Rightarrow> u8) \<Rightarrow> nat \<Rightarrow> dir_header" where
  "header_at f c = decode_dir_header (map f [c..<c + 8])"

definition rec_len_at :: "(nat \<Rightarrow> u8) \<Rightarrow> nat \<Rightarrow> nat" where
  "rec_len_at f c = unat (dh_rec_len (header_at f c))"

lemma rd_map: "k + 4 \<le> n \<Longrightarrow> rd4 (map f [c..<c + n]) k = rd4 (map f [c + k..<c + k + 4]) 0"
  "k + 2 \<le> n \<Longrightarrow> rd2 (map f [c..<c + n]) k = rd2 (map f [c + k..<c + k + 2]) 0"
  by (simp_all add: rd4_def rd2_def add.assoc)

lemma entry_header:
  "entry_ino s c = dh_inode (header_at (file_byte s) c)" "entry_rec_len s c = rec_len_at (file_byte s) c"
  "entry_name_len s c = unat (dh_name_len (header_at (file_byte s) c))"
  "entry_name s c = map (file_byte s) [c + 8..<c + 8 + unat (dh_name_len (header_at (file_byte s) c))]"
proof -
  show "entry_ino s c = dh_inode (header_at (file_byte s) c)" "entry_rec_len s c = rec_len_at (file_byte s) c"
    using rd_map(1) [of 0 8 "file_byte s" c] rd_map(2) [of 4 8 "file_byte s" c]
    by (simp_all add: entry_ino_def entry_rec_len_def rec_len_at_def header_at_def decode_dir_header_def add.commute [of c 6])
  show n: "entry_name_len s c = unat (dh_name_len (header_at (file_byte s) c))"
    by (simp add: entry_name_len_def header_at_def decode_dir_header_def)
  show "entry_name s c = map (file_byte s) [c + 8..<c + 8 + unat (dh_name_len (header_at (file_byte s) c))]"
    by (simp only: entry_name_def n)
qed

text \<open>The entries of one block, from the first to the one that reaches the end \<open>e\<close>; no header crosses a
  sector.\<close>

fun block_chain :: "(nat \<Rightarrow> u8) \<Rightarrow> nat \<Rightarrow> nat list \<Rightarrow> bool" where
  "block_chain f e [] \<longleftrightarrow> False"
| "block_chain f e [c] \<longleftrightarrow> c mod 512 + 8 \<le> 512 \<and> c + 8 \<le> e \<and> e \<le> c + rec_len_at f c"
| "block_chain f e (c # p # cs) \<longleftrightarrow> c mod 512 + 8 \<le> 512 \<and> c + 8 \<le> e \<and> p = c + rec_len_at f c \<and> p < e
     \<and> block_chain f e (p # cs)"

section \<open>Finding the last entry\<close>

lemma editing_cursor: "editing d n f s \<Longrightarrow> fe_cursor (fe s) = int c \<Longrightarrow> c \<le> n \<Longrightarrow> cursor_ok s"
  by (auto simp: editing_def cursor_ok_def INT64_MAX_def)

lemma read_header:
  assumes e: "editing d n f s" "cursor_ok s" and c: "c mod 512 + 8 \<le> 512" "c + 8 \<le> n"
  shows "\<exists>t. bnd (ext2_lseek TheFe (int c) SEEK_SET) (\<lambda>p. if p \<noteq> int c then k else
      bnd (ext2_read TheFe (of_nat sizeof_dir_header)) (\<lambda>(m, bytes).
      if m \<noteq> int sizeof_dir_header then k' else k'' (decode_dir_header bytes))) s = k'' (header_at f c) t
    \<and> editing d n f t \<and> cursor_ok t \<and> fe_flags (fe t) AND EXT2_FLAG_FS_DIRTY \<noteq> 0"
proof -
  let ?s = "seeked (int c) s"
  have sk: "ext2_lseek TheFe (int c) SEEK_SET s = Inr (int c, ?s)" "editing d n f ?s"
    using edit_seek [OF e(1) _ e(2), of c] c(2) by simp_all
  obtain t where t: "ext2_read TheFe (of_nat sizeof_dir_header) ?s = Inr ((int 8, map f [c..<c + 8]), t)" "editing d n f t"
    "fe_cursor (fe t) = int (c + 8)" "fe_flags (fe t) AND EXT2_FLAG_FS_DIRTY \<noteq> 0"
    using edit_read [OF sk(2), of c "of_nat sizeof_dir_header" 8] c by (auto simp: sizeof_dir_header_def)
  then show ?thesis
    using editing_cursor [OF t(2,3) c(2)] sk(1) by (auto simp: bnd_Inr sizeof_dir_header_def header_at_def)
qed

lemma last_entry_step:
  assumes e: "editing d n f s" "cursor_ok s" and c: "c mod 512 + 8 \<le> 512" "c + 8 \<le> n"
    and off: "int c = int base + (off + uint (dh_rec_len h))"
  obtains t where "last_entry (Suc m) bs (int base) off h s
      = (if int c - int base + int (rec_len_at f c) < bs then last_entry m bs (int base) (int c - int base) (header_at f c)
         else ret (Some (int c - int base, header_at f c))) t"
    "editing d n f t" "cursor_ok t" "fe_flags (fe t) AND EXT2_FLAG_FS_DIRTY \<noteq> 0"
proof -
  have o: "off + uint (dh_rec_len h) = int c - int base" "int base + (int c - int base) = int c"
    using off by simp_all
  have r: "uint (dh_rec_len (header_at f c)) = int (rec_len_at f c)"
    by (simp only: rec_len_at_def uint_nat)
  let ?err = "bnd (drop_errno (ext2_close TheFe)) (\<lambda>_. ret None) :: (fs, (int \<times> dir_header) option) cm"
  let ?next = "\<lambda>dh. if int c - int base + uint (dh_rec_len dh) < bs
      then last_entry m bs (int base) (int c - int base) dh else ret (Some (int c - int base, dh))"
  from read_header [OF e c, of ?err ?err ?next] obtain t where t: "last_entry (Suc m) bs (int base) off h s = ?next (header_at f c) t"
    "editing d n f t" "cursor_ok t" "fe_flags (fe t) AND EXT2_FLAG_FS_DIRTY \<noteq> 0"
    unfolding last_entry.simps Let_def o by blast
  show thesis
    by (rule that [OF t(1) [unfolded r] t(2-4)])
qed

lemma last_entry_run:
  assumes "editing d n f s" "cursor_ok s" "block_chain f (base + bs) (c # cs)" "base + bs \<le> n" "base \<le> c"
    and "int c = int base + (off + uint (dh_rec_len h))" "length cs < fuel"
  shows "\<exists>t. last_entry fuel (int bs) (int base) off h s
      = Inr (Some (int (last (c # cs)) - int base, header_at f (last (c # cs))), t)
    \<and> editing d n f t \<and> cursor_ok t \<and> fe_flags (fe t) AND EXT2_FLAG_FS_DIRTY \<noteq> 0"
  using assms
proof (induction cs arbitrary: s c off h fuel)
  case Nil
  then obtain m where m: "fuel = Suc m"
    by (cases fuel) auto
  have c: "c mod 512 + 8 \<le> 512" "c + 8 \<le> n" "base + bs \<le> c + rec_len_at f c"
    using Nil.prems(3,4) by simp_all
  have stop: "\<not> int c - int base + int (rec_len_at f c) < int bs"
    using c(3) by linarith
  show ?case
    using last_entry_step [OF Nil.prems(1,2) c(1,2) Nil.prems(6), of m "int bs"] unfolding m if_not_P [OF stop] by auto
next
  case (Cons p cs)
  then obtain m where m: "fuel = Suc m" "length cs < m"
    by (cases fuel) auto
  have b: "c mod 512 + 8 \<le> 512" "c + 8 \<le> base + bs" "p = c + rec_len_at f c" "p < base + bs" "block_chain f (base + bs) (p # cs)"
    using Cons.prems(3) unfolding block_chain.simps by blast+
  have c: "c mod 512 + 8 \<le> 512" "c + 8 \<le> n" "p = c + rec_len_at f c" "p < base + bs" "block_chain f (base + bs) (p # cs)"
    using b Cons.prems(4) by (simp_all only:)
  have go: "int c - int base + int (rec_len_at f c) < int bs"
    using c(3,4) by linarith
  obtain t where t: "last_entry (Suc m) (int bs) (int base) off h s
      = last_entry m (int bs) (int base) (int c - int base) (header_at f c) t"
    "editing d n f t" "cursor_ok t"
    using last_entry_step [OF Cons.prems(1,2) c(1,2) Cons.prems(6), of m "int bs"] unfolding if_P [OF go] by blast
  have "int p = int base + (int c - int base + uint (dh_rec_len (header_at f c)))"
    using c(3) by (simp only: rec_len_at_def uint_nat)
  then show ?case
    using Cons.IH [OF t(2,3) c(5) Cons.prems(4) _ _ m(2)] c(3) Cons.prems(5) by (simp only: m t(1)) simp
qed

section \<open>Appending in the last block\<close>

definition min_len :: "nat \<Rightarrow> nat" where
  "min_len k = (k div 4 + (if k mod 4 \<noteq> 0 then 1 else 0)) * 4 + 8"

lemma min_len: "minimum_entry_len k = int (min_len k)" "8 + k \<le> min_len k" "min_len k \<le> 11 + k" "min_len k mod 4 = 0"
  unfolding min_len_def minimum_entry_len_def by simp presburger+

text \<open>The position of the new entry behind the one at \<open>c\<close>, and the bytes of the directory with it.\<close>

definition new_pos :: "(nat \<Rightarrow> u8) \<Rightarrow> nat \<Rightarrow> nat" where
  "new_pos f c = c + min_len (unat (dh_name_len (header_at f c)))"

definition new_header :: "nat \<Rightarrow> nat \<Rightarrow> u32 \<Rightarrow> u8 list \<Rightarrow> dir_header" where
  "new_header n p inode name = \<lparr>dh_inode = inode, dh_rec_len = of_nat (n - p), dh_name_len = of_nat (length name),
     dh_file_type = 0\<rparr>"

definition cut_header :: "(nat \<Rightarrow> u8) \<Rightarrow> nat \<Rightarrow> dir_header" where
  "cut_header f c = (header_at f c)\<lparr>dh_rec_len := of_nat (new_pos f c - c)\<rparr>"

definition appended :: "nat \<Rightarrow> nat \<Rightarrow> u32 \<Rightarrow> u8 list \<Rightarrow> (nat \<Rightarrow> u8) \<Rightarrow> nat \<Rightarrow> u8" where
  "appended n c inode name f = (let p = new_pos f c in
     put_at (p + 8) name (put_at p (encode_dir_header (new_header n p inode name))
       (put_at c (encode_dir_header (cut_header f c)) f)))"

text \<open>The last entry ends with the directory and leaves room for the new one, no part of which crosses a
  sector.\<close>

definition has_room :: "(nat \<Rightarrow> u8) \<Rightarrow> nat \<Rightarrow> nat \<Rightarrow> u8 list \<Rightarrow> bool" where
  "has_room f n c name \<longleftrightarrow> c + rec_len_at f c = n
     \<and> min_len (unat (dh_name_len (header_at f c))) + min_len (length name) < rec_len_at f c
     \<and> name \<noteq> [] \<and> length name < 256 \<and> new_pos f c mod 512 + 8 \<le> 512 \<and> (new_pos f c + 8) mod 512 + length name \<le> 512"

lemma has_room_bounds:
  assumes "has_room f n c name"
  shows "new_pos f c + 8 + length name \<le> n" "c + 8 \<le> new_pos f c" "new_pos f c - c \<le> 266"
proof -
  let ?k = "unat (dh_name_len (header_at f c))"
  have "?k < 256"
    by (rule unat_byte)
  then show "new_pos f c - c \<le> 266" "c + 8 \<le> new_pos f c"
    using min_len(2,3) [of ?k] by (simp_all add: new_pos_def)
  show "new_pos f c + 8 + length name \<le> n"
    using assms min_len(2) [of "length name"] by (simp add: has_room_def new_pos_def)
qed

lemma write_header:
  assumes e: "editing d n f s" and c: "fe_cursor (fe s) = int p" "p + 8 \<le> n" "p mod 512 + 8 \<le> 512"
  shows "\<exists>t. ext2_write TheFe (encode_dir_header h) s = Inr (8, t) \<and> editing d n (put_at p (encode_dir_header h) f) t
    \<and> fe_cursor (fe t) = int (p + 8) \<and> cursor_ok t \<and> fe_flags (fe t) AND EXT2_FLAG_FS_DIRTY \<noteq> 0"
proof -
  have "length (encode_dir_header h) = 8"
    by (simp add: sizeof_dir_header_def)
  moreover have "encode_dir_header h \<noteq> []"
    by (simp add: encode_dir_header_def)
  ultimately show ?thesis
    using edit_write [OF e c(1), of "encode_dir_header h"] c(2,3) editing_cursor by fastforce
qed

lemma seek_and_write_header:
  assumes e: "editing d n f s" "cursor_ok s" and c: "p + 8 \<le> n" "p mod 512 + 8 \<le> 512"
  obtains t where "\<And>k :: (fs, int) cm. bnd (ext2_lseek TheFe (int p) SEEK_SET) (\<lambda>_.
      bnd (ext2_write TheFe (encode_dir_header h)) (\<lambda>_. k)) s = k t"
    "editing d n (put_at p (encode_dir_header h) f) t" "fe_cursor (fe t) = int (p + 8)" "cursor_ok t"
    "fe_flags (fe t) AND EXT2_FLAG_FS_DIRTY \<noteq> 0"
proof -
  have sk: "ext2_lseek TheFe (int p) SEEK_SET s = Inr (int p, seeked (int p) s)" "editing d n f (seeked (int p) s)"
    using edit_seek [OF e(1) _ e(2), of p] c(1) by simp_all
  obtain t where t: "ext2_write TheFe (encode_dir_header h) (seeked (int p) s) = Inr (8, t)"
    "editing d n (put_at p (encode_dir_header h) f) t" "fe_cursor (fe t) = int (p + 8)" "cursor_ok t"
    "fe_flags (fe t) AND EXT2_FLAG_FS_DIRTY \<noteq> 0"
    using write_header [OF sk(2) _ c, of h] by auto
  show thesis
    by (rule that [of t, OF _ t(2-5)]) (simp add: bnd_Inr sk(1) t(1))
qed

lemma edit_seek_end:
  assumes e: "editing d n f s" "cursor_ok s"
  shows "ext2_lseek TheFe 0 SEEK_END s = Inr (int n, seeked (int n) s) \<and> editing d n f (seeked (int n) s)
    \<and> cursor_ok (seeked (int n) s)"
proof -
  have n: "n < 2 ^ 31" "fe_magic (fe s) = EMBEXT_MAGIC" "uint (i_size (ino s)) = int n"
    using e(1) by (simp_all only: editing_def uint_nat)
  then have "ext2_lseek TheFe 0 SEEK_END s = ext2_lseek TheFe (int n) SEEK_SET s"
    using ext2_lseek_cases [of TheFe s 0 SEEK_END] ext2_lseek_cases [of TheFe s "int n" SEEK_SET] e(2)
    by (simp add: is_open_def seek_base_def INT64_MAX_def seek_target_def SEEK_SET_def SEEK_CUR_def SEEK_END_def)
  then show ?thesis
    using edit_seek [OF e(1) order_refl e(2)] by simp
qed

lemma block_chain_last:
  "block_chain f e cs \<Longrightarrow> last cs mod 512 + 8 \<le> 512 \<and> last cs + 8 \<le> e \<and> hd cs \<le> last cs"
  by (induction f e cs rule: block_chain.induct) auto

lemma append_in_block:
  assumes e: "editing d n f s" "cursor_ok s" and bs: "bs \<le> n" "n mod bs = 0" "0 < bs" "b = n - bs"
    and chain: "block_chain f n (b # cs)" "length cs < fuel" and c: "c = last (b # cs)" and room: "has_room f n c name"
  shows "\<exists>t. append_entry fuel (int bs) inode name s = bnd (ext2_close TheFe) (\<lambda>_. ret 0) t
    \<and> editing d n (appended n c inode name f) t \<and> fe_flags (fe t) AND EXT2_FLAG_FS_DIRTY \<noteq> 0"
proof -
  let ?s = "seeked (int n) s" and ?zero = "\<lparr>dh_inode = 0, dh_rec_len = 0, dh_name_len = 0, dh_file_type = 0\<rparr>"
  let ?h = "header_at f c" and ?p = "new_pos f c" and ?mo = "min_len (unat (dh_name_len (header_at f c)))"
  note end_ = edit_seek_end [OF e]
  have base: "int n - int bs = int b" "b + bs = n"
    using bs(1,4) by simp_all
  have cb: "b \<le> c" "c mod 512 + 8 \<le> 512" "c + 8 \<le> n"
    using block_chain_last [OF chain(1)] c by simp_all
  obtain t1 where t1: "last_entry fuel (int bs) (int b) 0 ?zero ?s = Inr (Some (int c - int b, ?h), t1)"
    "editing d n f t1" "cursor_ok t1"
    using last_entry_run [of d n f ?s b bs b cs 0 ?zero fuel] end_ chain by (auto simp: base(2) c)
  note hr = has_room_bounds [OF room]
  have p: "?p mod 512 + 8 \<le> 512" "?p + 8 \<le> n" "(?p + 8) mod 512 + length name \<le> 512" "name \<noteq> []"
    using room hr(1) by (simp_all add: has_room_def)
  let ?f2 = "put_at c (encode_dir_header (cut_header f c)) f" and ?nh = "new_header n ?p inode name"
  obtain t2 where t2: "\<And>k :: (fs, int) cm. bnd (ext2_lseek TheFe (int c) SEEK_SET) (\<lambda>_. bnd (ext2_write TheFe (encode_dir_header (cut_header f c))) (\<lambda>_. k)) t1 = k t2"
    "editing d n ?f2 t2" "cursor_ok t2"
    by (rule seek_and_write_header [OF t1(2,3) cb(3,2), of "cut_header f c"]) blast
  obtain t3 where t3: "\<And>k :: (fs, int) cm. bnd (ext2_lseek TheFe (int ?p) SEEK_SET) (\<lambda>_. bnd (ext2_write TheFe (encode_dir_header ?nh)) (\<lambda>_. k)) t2 = k t3"
    "editing d n (put_at ?p (encode_dir_header ?nh) ?f2) t3" "fe_cursor (fe t3) = int (?p + 8)"
    by (rule seek_and_write_header [OF t2(2,3) p(2,1), of ?nh]) blast
  obtain t4 where t4: "ext2_write TheFe name t3 = Inr (int (length name), t4)" "editing d n (appended n c inode name f) t4"
    "fe_flags (fe t4) AND EXT2_FLAG_FS_DIRTY \<noteq> 0"
    using edit_write [OF t3(2,3) p(4) hr(1) p(3)] by (auto simp: appended_def Let_def)
  have r: "int (min_len (length name)) < int (rec_len_at f c) - int ?mo"
    using room by (simp add: has_room_def)
  have oh: "?h\<lparr>dh_rec_len := word_of_int (int ?mo)\<rparr> = cut_header f c" "int (min_len (unat (dh_name_len ?h))) = int ?p - int c"
    by (simp_all add: cut_header_def new_pos_def)
  have mo: "uint (dh_rec_len (cut_header f c)) = int ?p - int c"
  proof -
    have "?p - c < 65536" "int (?p - c) = int ?p - int c"
      using hr(2,3) by simp_all
    then have "uint (of_nat (?p - c) :: u16) = int ?p - int c"
      by (simp add: unsigned_of_nat take_bit_nat_eq_self del: of_nat_diff)
    then show ?thesis
      by (simp add: cut_header_def)
  qed
  have pos: "int c - int b + int b = int c" "int c - int b + (int ?p - int c) + int b = int ?p"
    "int bs - (int c - int b + (int ?p - int c)) = int (n - ?p)"
    using base(2) p(2) by simp_all
  have nh: "\<lparr>dh_inode = inode, dh_rec_len = 0, dh_name_len = of_nat (length name), dh_file_type = 0\<rparr>\<lparr>dh_rec_len := word_of_int (int (n - ?p))\<rparr> = ?nh"
    by (simp add: new_header_def)
  have smod: "int n smod int bs = 0"
    using bs by (simp add: smod_nonneg zmod_int [symmetric])
  have rl: "uint (dh_rec_len ?h) = int (rec_len_at f c)"
    by (simp only: rec_len_at_def uint_nat)
  have neg: "\<not> int b < 0"
    by simp
  have step: "append_entry fuel (int bs) inode name s
      = seq (bnd (ext2_lseek TheFe (int c) SEEK_SET) (\<lambda>_. bnd (ext2_write TheFe (encode_dir_header (cut_header f c))) (\<lambda>_.
          bnd (ext2_lseek TheFe (int ?p) SEEK_SET) (\<lambda>_. bnd (ext2_write TheFe (encode_dir_header ?nh)) (\<lambda>_.
          bnd (ext2_write TheFe name) (\<lambda>_. ret ())))))) (bnd (ext2_close TheFe) (\<lambda>_. ret 0)) t1"
    unfolding append_entry_def write_entry_def
    by (simp only: bnd_Inr [of "ext2_lseek TheFe 0 SEEK_END", OF conjunct1 [OF end_]] smod Let_def base(1) neg
        bnd_Inr [of "last_entry fuel (int bs) (int b) 0 ?zero", OF t1(1)] option.case prod.case if_False simp_thms
        min_len(1) rl if_P [OF r] oh(1) mo pos nh)
  show ?thesis
    using t4 unfolding step seq_def bnd_assoc t2(1) t3(1) by (intro exI [of _ t4]) (simp add: bnd_Inr)
qed

section \<open>The entries of the directory afterwards\<close>

lemma put_at_same: "map (put_at c bytes f) [c..<c + length bytes] = bytes"
  by (intro nth_equalityI) (simp_all add: put_at_def)

lemma put_at_other:
  "a + k \<le> c \<or> c + length bytes \<le> a \<Longrightarrow> map (put_at c bytes f) [a..<a + k] = map f [a..<a + k]"
  by (intro map_cong) (auto simp: put_at_def)

lemma length_header: "length (encode_dir_header h) = 8"
  by (simp add: sizeof_dir_header_def)

lemma header_at_put:
  "header_at (put_at c (encode_dir_header h) f) c = h"
  "a + 8 \<le> c \<or> c + length bytes \<le> a \<Longrightarrow> header_at (put_at c bytes f) a = header_at f a"
  using put_at_same [of c "encode_dir_header h" f] put_at_other [of a 8 c bytes f]
  by (simp_all only: header_at_def length_header decode_encode_dir_header)

lemma appended_bytes:
  fixes inode :: u32
  assumes room: "has_room f n c name"
  defines "g \<equiv> appended n c inode name f" and "p \<equiv> new_pos f c"
  shows "header_at g c = cut_header f c" "header_at g p = new_header n p inode name"
    "map g [p + 8..<p + 8 + length name] = name"
    "a + k \<le> c \<or> c + 8 \<le> a \<and> a + k \<le> p \<Longrightarrow> map g [a..<a + k] = map f [a..<a + k]"
proof -
  note b = has_room_bounds [OF room, folded p_def]
  have g: "g = put_at (p + 8) name (put_at p (encode_dir_header (new_header n p inode name))
      (put_at c (encode_dir_header (cut_header f c)) f))"
    by (simp add: g_def appended_def p_def Let_def)
  show "header_at g c = cut_header f c"
    using b by (simp add: g header_at_put length_header)
  show "header_at g p = new_header n p inode name"
    by (simp add: g header_at_put)
  show "map g [p + 8..<p + 8 + length name] = name"
    unfolding g by (rule put_at_same)
  show "map g [a..<a + k] = map f [a..<a + k]" if "a + k \<le> c \<or> c + 8 \<le> a \<and> a + k \<le> p"
    using that b by (auto simp: g put_at_def sizeof_dir_header_def)
qed

text \<open>A directory \<open>s\<close> with bytes \<open>f\<close> and a later state \<open>t\<close> of it in which they are \<open>g\<close>.\<close>

definition same_shape :: "nat \<Rightarrow> fs \<Rightarrow> fs \<Rightarrow> bool" where
  "same_shape n s t \<longleftrightarrow> unat (i_size (ino s)) = n \<and> unat (i_size (ino t)) = n \<and> (\<forall>j<n. byte_ok t j)"

lemma entries_header: "entries s a es e \<Longrightarrow> x \<in> set es \<Longrightarrow> header_ok s x \<and> name_ok s x \<and> used s x"
  by (induction es arbitrary: a) auto

text \<open>An entry whose header and name did not change is the same entry.\<close>

lemma entry_kept:
  assumes sh: "same_shape n s t" and x: "header_ok s x" "name_ok s x" "used s x"
    and h: "header_at (file_byte t) x = (header_at (file_byte s) x)\<lparr>dh_rec_len := r\<rparr>"
    and nm: "map (file_byte t) [x + 8..<x + 8 + entry_name_len s x] = entry_name s x"
  shows "header_ok t x" "name_ok t x" "used t x" "entry_ino t x = entry_ino s x" "entry_name t x = entry_name s x"
    "entry_rec_len t x = unat r"
proof -
  have e: "entry_ino t x = entry_ino s x" "entry_name_len t x = entry_name_len s x" "entry_rec_len t x = unat r"
    by (simp_all add: entry_header h rec_len_at_def)
  then show "entry_ino t x = entry_ino s x" "entry_rec_len t x = unat r" "used t x"
    using x(3) by (simp_all add: used_def)
  show "entry_name t x = entry_name s x"
    using nm e(2) by (simp add: entry_name_def)
  have n: "unat (i_size (ino s)) = n" "unat (i_size (ino t)) = n" "\<And>j. j < n \<Longrightarrow> byte_ok t j"
    using sh by (simp_all add: same_shape_def)
  show "header_ok t x"
    using x(1) n by (simp add: header_ok_def)
  show "name_ok t x"
    using x(2) n by (auto simp: name_ok_def e(2))
qed

lemma entries_appended:
  assumes sh: "same_shape n s t" and room: "has_room (file_byte s) n c name" and i: "0 < sint inode"
    and g: "\<forall>j<n. file_byte t j = appended n c inode name (file_byte s) j"
    and e: "entries s a (es @ [c]) n" and fit: "\<forall>x\<in>set es. 8 + entry_name_len s x \<le> entry_rec_len s x"
  defines "p \<equiv> new_pos (file_byte s) c"
  shows "entries t a (es @ [c, p]) n" "x \<in> set (es @ [c]) \<Longrightarrow> entry_ino t x = entry_ino s x \<and> entry_name t x = entry_name s x"
    "entry_ino t p = inode" "entry_name t p = name"
proof -
  let ?f = "file_byte s" and ?g = "file_byte t"
  note b = has_room_bounds [OF room, folded p_def]
  have n: "unat (i_size (ino s)) = n" "unat (i_size (ino t)) = n" "\<And>j. j < n \<Longrightarrow> byte_ok t j"
    using sh by (simp_all add: same_shape_def)
  have G: "map ?g [a..<a + k] = map (appended n c inode name ?f) [a..<a + k]" if "a + k \<le> n" for a k
    using g that by (intro map_cong) auto
  have H: "header_at ?g a = header_at (appended n c inode name ?f) a" if "a + 8 \<le> n" for a
    using G [OF that] by (simp only: header_at_def)
  note ab = appended_bytes [OF room, where inode = inode, folded p_def]
  have hc: "header_at ?g c = cut_header ?f c" and hp: "header_at ?g p = new_header n p inode name"
    using H [of c] H [of p] ab(1,2) b by simp_all
  have c: "header_ok s c" "name_ok s c" "used s c"
    using entries_header [OF e, of c] by simp_all
  have nc: "c + 8 + entry_name_len s c \<le> p"
    using min_len(2) [of "entry_name_len s c"] by (simp add: p_def new_pos_def entry_header)
  have keep_c: "header_ok t c" "name_ok t c" "used t c" "entry_ino t c = entry_ino s c" "entry_name t c = entry_name s c"
      "entry_rec_len t c = p - c"
  proof -
    have "map ?g [c + 8..<c + 8 + entry_name_len s c] = entry_name s c"
      using G [of "c + 8" "entry_name_len s c"] ab(4) [of "c + 8" "entry_name_len s c"] nc b by (simp add: entry_name_def)
    note k = entry_kept [OF sh c _ this, of "of_nat (p - c)"]
    have "p - c < 65536"
      using b(3) by simp
    then have "unat (of_nat (p - c) :: u16) = p - c"
      by (simp add: unat_of_nat)
    then show "header_ok t c" "name_ok t c" "used t c" "entry_ino t c = entry_ino s c" "entry_name t c = entry_name s c"
      "entry_rec_len t c = p - c"
      using k hc by (simp_all add: cut_header_def p_def)
  qed
  have keep: "header_ok t x \<and> name_ok t x \<and> used t x \<and> entry_ino t x = entry_ino s x \<and> entry_name t x = entry_name s x
      \<and> entry_rec_len t x = entry_rec_len s x"
    if x: "header_ok s x" "name_ok s x" "used s x" "8 + entry_name_len s x \<le> entry_rec_len s x" "x + entry_rec_len s x \<le> c" for x
  proof -
    have "map ?g [x + 8..<x + 8 + entry_name_len s x] = entry_name s x" "header_at ?g x = header_at ?f x"
      using G [of "x + 8" "entry_name_len s x"] ab(4) [of "x + 8" "entry_name_len s x"] H [of x] ab(4) [of x 8] x b
      by (simp_all add: entry_name_def header_at_def)
    then show ?thesis
      using entry_kept [OF sh x(1-3), of "dh_rec_len (header_at ?f x)"] by (simp add: entry_header rec_len_at_def)
  qed
  have new: "header_ok t p" "name_ok t p" "used t p" "entry_ino t p = inode" "entry_name t p = name" "entry_rec_len t p = n - p"
  proof -
    have r: "rec_len_at ?f c < 65536" "c + rec_len_at ?f c = n" and nm: "length name < 256" "p mod 512 + 8 \<le> 512" "(p + 8) mod 512 + length name \<le> 512" "name \<noteq> []"
      using room unat_lt16 by (simp_all add: has_room_def rec_len_at_def p_def)
    have "n - p < 65536"
      using r b(2) by linarith
    then show "entry_rec_len t p = n - p"
      by (simp add: entry_header rec_len_at_def hp new_header_def unat_of_nat)
    have len: "entry_name_len t p = length name"
      using nm(1) by (simp add: entry_header hp new_header_def unat_of_nat)
    show ino: "entry_ino t p = inode"
      by (simp add: entry_header hp new_header_def)
    then show "used t p"
      using i by (simp add: used_def)
    show "entry_name t p = name"
      using G [of "p + 8" "length name"] ab(3) b(1) by (simp only: entry_name_def len)
    have "c mod 4 = 0"
      using c(1) by (simp add: header_ok_def)
    then have "p mod 4 = 0"
      using min_len(4) by (simp add: p_def new_pos_def mod_add_eq [symmetric])
    moreover have "p + 8 < n"
      using b(1) nm(4) by (cases name) auto
    ultimately show "header_ok t p" "name_ok t p"
      using n b(1) nm by (auto simp: header_ok_def name_ok_def len)
  qed
  have main: "entries t a (es @ [c, p]) n \<and> a \<le> c \<and> (\<forall>x\<in>set es. entry_ino t x = entry_ino s x \<and> entry_name t x = entry_name s x)"
    using e fit
  proof (induction es arbitrary: a)
    case Nil
    then have "a = c"
      by simp
    then show ?case
      using keep_c new b(1,2) by simp
  next
    case (Cons x es)
    have "a + entry_rec_len s a \<le> c"
      using Cons.IH [of "a + entry_rec_len s a"] Cons.prems by simp
    then show ?case
      using Cons.IH [of "a + entry_rec_len s a"] Cons.prems keep [of a] by simp
  qed
  show "entries t a (es @ [c, p]) n" "entry_ino t p = inode" "entry_name t p = name"
    using main new by simp_all
  show "entry_ino t x = entry_ino s x \<and> entry_name t x = entry_name s x" if "x \<in> set (es @ [c])"
    using main keep_c that by auto
qed

lemma entries_append: "entries s a (xs @ ys) e \<longleftrightarrow> (\<exists>m. entries s a xs m \<and> entries s m ys e)"
  by (induction xs arbitrary: a) auto

lemma entries_chain:
  assumes "entries s b (b # cs) n" "unat (i_size (ino s)) = n" "\<forall>x\<in>set (b # cs). x mod 512 + 8 \<le> 512"
  shows "block_chain (file_byte s) n (b # cs)"
  using assms
proof (induction cs arbitrary: b)
  case Nil
  then show ?case
    by (simp add: header_ok_def entry_header)
next
  case (Cons p cs)
  have "p = b + entry_rec_len s b" "header_ok s b" "entries s p (p # cs) n" "header_ok s p"
    using Cons.prems(1) by auto
  then show ?case
    using Cons.IH [of p] Cons.prems(2,3) by (auto simp: header_ok_def entry_header)
qed

section \<open>Opening the directory\<close>

lemma layout_same_disk:
  assumes "same_disk s t" "i_block (ino t) = i_block (ino s)"
  shows "byte_sector t = byte_sector s" "undisturbed t = undisturbed s" "layout_ok t = layout_ok s"
proof -
  note v = same_disk_sectors [OF assms(1)] and f = same_disk_file [OF assms]
  have e: "epb t = epb s" "entry_at t = entry_at s" "entry_sector t = entry_sector s"
    using v by (simp_all add: epb_def entry_at_def entry_sector_def fun_eq_iff)
  then have m: "file_block t = file_block s" "map_path t = map_path s"
    by (simp_all only: fun_eq_iff [of "file_block t"] fun_eq_iff [of "map_path t"] file_block_def map_path_def v e assms(2) simp_thms)
  show b: "byte_sector t = byte_sector s"
    using v m by (simp add: byte_sector_def fun_eq_iff)
  show u: "undisturbed t = undisturbed s"
    using v m by (simp add: undisturbed_def fun_eq_iff)
  show "layout_ok t = layout_ok s"
    by (intro ext) (simp only: layout_ok_def b u f)
qed

lemma inode_sector_same_disk:
  assumes "same_disk s t"
  shows "inode_sector t = inode_sector s" "bg_sector t = bg_sector s" "inode_group t = inode_group s"
proof -
  have "cx_superblock_block (ctx t) = cx_superblock_block (ctx s)"
    using assms by (auto simp: same_disk_def)
  then show g: "inode_group t = inode_group s" "bg_sector t = bg_sector s"
    using same_disk_sectors [OF assms] by (simp_all add: inode_group_def bg_sector_def fun_eq_iff)
  then show "inode_sector t = inode_sector s"
    using same_disk_sectors [OF assms] by (simp add: inode_sector_def inode_bytes_def bg_desc_def fun_eq_iff)
qed

text \<open>A directory of whole blocks whose sectors are its own.\<close>

definition dir_file :: "fs \<Rightarrow> nat \<Rightarrow> bool" where
  "dir_file d n \<longleftrightarrow> unat (i_size (ino d)) = n \<and> n < 2 ^ 31 \<and> n mod bsize d = 0 \<and> bsize d \<le> n \<and> layout_ok d n \<and> inode_apart d n"

text \<open>A directory that can be appended to: its listing fills it, its last block begins with an entry, no
  header crosses a sector, and every name lies within its entry.\<close>

definition dir_ok :: "fs \<Rightarrow> nat \<Rightarrow> nat list \<Rightarrow> nat list \<Rightarrow> bool" where
  "dir_ok d n es bs \<longleftrightarrow> dir_file d n
     \<and> entries d 0 (es @ bs) n \<and> bs \<noteq> [] \<and> hd bs = n - bsize d \<and> (\<forall>x\<in>set bs. x mod 512 + 8 \<le> 512)
     \<and> (\<forall>x\<in>set (es @ bs). 8 + entry_name_len d x \<le> entry_rec_len d x)"

text \<open>The directory as \<open>ext2_append_to_directory\<close> has it open.\<close>

definition opened_rw :: "u32 \<Rightarrow> fs \<Rightarrow> fs" where
  "opened_rw k s = (let u = opened_inode k s in
     u\<lparr>fe := (fe u)\<lparr>fe_flags := fe_flags (fe u) OR O_ACCESS_FLAGS O_RDWR\<rparr>\<rparr>)"

lemma open_dir_rw:
  assumes s: "mounted_ok s" "cx_read_only (ctx s) = 0" and r: "resolves (fresh s) n EXT2_ROOT_INO (path_elements name) k"
    and k: "inode_ok s k"
  obtains t where "ext2_open (Suc n) name O_RDWR 0x3FF s = Inr (True, opened_rw k t)" "lookup_state t" "same_disk s t"
proof -
  obtain t where t: "ext2_lookup_path n name (fresh s) = Inr (to_int32 (uint k), t)" "lookup_state t" "same_disk s t"
    using lookup_elements_run [OF r fresh_state(2) [OF s(1)]] same_disk_trans [OF fresh_state(1) [OF s(1)]]
    by (auto simp: ext2_lookup_path_def)
  have w: "word_of_int (to_int32 (uint k)) = k"
    using inode_number_word [OF s(1) k] .
  have o: "ext2_open_inode k t = Inr (0, opened_inode k t)"
    using t k same_disk_inodes(1) [OF t(3)] by (intro ext2_open_inode_run) (simp_all add: lookup_state_def map_state_def)
  have ro: "cx_read_only (ctx (opened_inode k t)) = 0"
    using s(2) t(3) by (auto simp: same_disk_def opened_inode_def)
  have "ext2_open (Suc n) name O_RDWR 0x3FF s = Inr (True, opened_rw k t)"
    using ext2_open_unfold [OF s(1) t(1), unfolded w, OF o refl, of O_RDWR "0x3FF"] ro
    by (simp add: open_existing_def open_flag_defs opened_rw_def Let_def)
  then show thesis
    using that t by blast
qed

lemma opened_rw_fields:
  "ctx (opened_rw k t) = ctx (opened_inode k t)" "ino (opened_rw k t) = disk_inode t k" "dev (opened_rw k t) = dev t"
  "fe_inode_number (fe (opened_rw k t)) = k" "fe_cursor (fe (opened_rw k t)) = 0"
  "fe_magic (fe (opened_rw k t)) = fe_magic (fe t)" "buf (opened_rw k t) = buf t"
  "static_de (opened_rw k t) = static_de t" "heap_ok (opened_rw k t) = heap_ok t" "mallocs (opened_rw k t) = mallocs t"
  "fe_flags (fe (opened_rw k t)) AND EXT2_FLAG_WRITE \<noteq> 0" "fe_flags (fe (opened_rw k t)) AND EXT2_FLAG_APPEND = 0"
  by (simp_all add: opened_rw_def opened_inode_def O_ACCESS_FLAGS_def open_flag_defs flag_defs)

text \<open>The open directory, ready to be edited.\<close>

lemma edit_opened_rw:
  assumes d: "dir_file (opened_inode k s) n" and t: "lookup_state t" "same_disk s t" and k: "inode_ok s k"
  shows "same_disk (opened_inode k s) (opened_rw k t)" "i_block (ino (opened_rw k t)) = i_block (ino (opened_inode k s))"
    "editing (opened_rw k t) n (file_byte (opened_inode k s)) (opened_rw k t)"
    "inode_apart (opened_rw k t) n"
proof -
  let ?d = "opened_inode k s" and ?u = "opened_rw k t"
  have u: "same_disk (opened_inode k t) ?u"
    by (auto simp: same_disk_def opened_rw_fields opened_rw_def Let_def intro!: exI [of _ "cx_sysbuf (ctx (opened_inode k t))"])
  have "same_disk ?d (opened_inode k t)"
    using opened_inode_same_dir [OF t(2)] by (simp add: same_dir_def)
  then show sd: "same_disk ?d ?u"
    using same_disk_trans u by blast
  have di: "disk_inode t k = disk_inode s k"
    using same_disk_inodes(2) [OF t(2)] by simp
  then have i: "ino ?u = ino ?d" "fe_inode_number (fe ?u) = fe_inode_number (fe ?d)"
    by (simp_all add: opened_rw_fields opened_inode_def)
  then show ib: "i_block (ino ?u) = i_block (ino ?d)"
    by simp
  note v = same_disk_sectors [OF sd] and l = layout_same_disk [OF sd ib] and f = same_disk_file [OF sd ib]
  have ms: "map_state t"
    using t(1) by (simp add: lookup_state_def)
  have "pc_ok (dev s)"
    using ms same_disk_sectors(1) [OF t(2)] by (simp add: map_state_def)
  then have wf: "wf_inode (ino ?d)"
    using wf_disk_inode [OF _ k] by (simp add: opened_inode_def)
  have "io_state ?u" "bo_dirty (buf ?u) = 0"
    using ms same_disk_sectors(2) [OF t(2)] v(2) by (simp_all add: io_state_def map_state_def opened_rw_fields opened_inode_def)
  moreover have "fe_magic (fe ?u) = EMBEXT_MAGIC"
    using t(1) by (simp add: lookup_state_def opened_rw_fields)
  ultimately have "editing ?u n (file_byte ?u) ?u"
    using d wf by (intro edit_start) (simp_all add: opened_rw_fields(11,12) dir_file_def i l)
  then show "editing ?u n (file_byte ?d) ?u"
    by (simp only: f)
  show "inode_apart ?u n"
    using d by (simp add: dir_file_def inode_apart_def i l inode_sector_same_disk [OF sd] same_disk_inodes(1) [OF sd])
qed

lemma append_to_directory_run:
  assumes s: "mounted_ok s" "cx_read_only (ctx s) = 0" and r: "resolves (fresh s) n EXT2_ROOT_INO (path_elements directory) k"
    and k: "inode_ok s k" and d: "dir_ok (opened_inode k s) dsz es bs" and c: "c = last bs"
    and room: "has_room (file_byte (opened_inode k s)) dsz c filename" and len: "length bs \<le> Suc n"
  shows "\<exists>t x. ext2_append_to_directory (Suc (Suc n)) directory inode filename s = Inr (0, t)
    \<and> ctx t = (ctx s)\<lparr>cx_sysbuf := x\<rparr> \<and> pc_ok (dev t) \<and> in_part t = in_part s \<and> inode_ok t k
    \<and> same_shape dsz (opened_inode k s) (opened_inode k t)
    \<and> (\<forall>j<dsz. file_byte (opened_inode k t) j = appended dsz c inode filename (file_byte (opened_inode k s)) j)
    \<and> length (d_name (static_de t)) = 256 \<and> layout_ok (opened_inode k t) dsz
    \<and> (\<forall>j<dsz. byte_sector (opened_inode k t) j = byte_sector (opened_inode k s) j
         \<and> (\<forall>x. undisturbed (opened_inode k t) x j = undisturbed (opened_inode k s) x j))
    \<and> (\<forall>m. in_part s m \<and> m \<notin> byte_sector (opened_inode k s) ` {..<dsz} \<and> m \<noteq> inode_sector s k \<longrightarrow> part_sector t m = part_sector s m)"
proof -
  let ?d = "opened_inode k s"
  obtain t where t: "ext2_open (Suc n) directory O_RDWR 0x3FF s = Inr (True, opened_rw k t)" "lookup_state t" "same_disk s t"
    using open_dir_rw [OF s r k] by blast
  let ?u = "opened_rw k t"
  have "dir_file ?d dsz"
    using d by (simp add: dir_ok_def)
  note e = edit_opened_rw [OF this t(2,3) k]
  have log: "unat (s_log_block_size (sb s)) \<le> 2"
    using s(1) by (simp add: mounted_ok_def)
  have bs: "uint (of_nat (bsize s) :: u32) = int (bsize s)" "ext2_block_size s = Inr (of_nat (bsize s), s)" "bsize ?d = bsize s" "0 < bsize s"
    using unat_bsize [of s] log block_size_spb(1) [OF log] same_disk_sectors(6) [OF opened_inode_same_disk, of k s]
    by (simp_all only: uint_nat) (simp_all add: bsize_def)
  obtain b cs where bc: "bs = b # cs" "b = dsz - bsize s"
    using d bs(3) by (cases bs) (auto simp: dir_ok_def dir_file_def)
  obtain m where "entries ?d m (b # cs) dsz"
    using d by (auto simp: dir_ok_def dir_file_def bc(1) entries_append)
  then have chain: "block_chain (file_byte ?d) dsz (b # cs)"
    using entries_chain [of ?d b cs dsz] d by (auto simp: dir_ok_def dir_file_def bc(1))
  have cur: "cursor_ok ?u"
    by (simp add: cursor_ok_def opened_rw_fields INT64_MAX_def)
  obtain v where v: "append_entry (Suc n) (int (bsize s)) inode filename ?u = bnd (ext2_close TheFe) (\<lambda>_. ret 0) v"
    "editing ?u dsz (appended dsz c inode filename (file_byte ?d)) v" "fe_flags (fe v) AND EXT2_FLAG_FS_DIRTY \<noteq> 0"
    using append_in_block [OF e(3) cur _ _ bs(4) bc(2) chain _ _ room, of "Suc n" inode] d len c by (auto simp: dir_ok_def dir_file_def bs(3) bc(1))
  obtain w x where w: "ext2_close TheFe v = Inr (0, w)" "ctx w = (ctx ?u)\<lparr>cx_sysbuf := x\<rparr>" "pc_ok (dev w)" "in_part w = in_part ?u"
      "inode_ok w k" "disk_inode w k = ino w" "i_block (ino w) = i_block (ino ?u)" "unat (i_size (ino w)) = dsz" "layout_ok w dsz"
      "\<forall>j<dsz. file_byte w j = appended dsz c inode filename (file_byte ?d) j" "static_de w = static_de ?u"
      "\<forall>j<dsz. byte_sector w j = byte_sector ?u j \<and> (\<forall>x. undisturbed w x j = undisturbed ?u x j)"
      "\<forall>m. in_part ?u m \<and> m \<notin> byte_sector ?u ` {..<dsz} \<and> m \<noteq> inode_sector ?u k \<longrightarrow> part_sector w m = part_sector ?u m"
    using edit_close [OF v(2,3) e(4)] by (auto simp: opened_rw_fields(4))
  have run: "ext2_append_to_directory (Suc (Suc n)) directory inode filename s = Inr (0, w)"
    unfolding ext2_append_to_directory.simps
    by (simp only: bnd_Inr [of ext2_block_size, OF bs(2)] bnd_Inr [of "ext2_open (Suc n) directory O_RDWR 0x3FF", OF t(1)] bs(1)
        not_True_eq_False if_False v(1)) (simp add: bnd_Inr w(1))
  have du: "same_disk s ?u"
    using same_disk_trans [OF opened_inode_same_disk e(1)] .
  obtain y where y: "ctx ?u = (ctx s)\<lparr>cx_sysbuf := y\<rparr>"
    using du by (auto simp: same_disk_def)
  let ?w = "opened_inode k w"
  have iw: "ino ?w = ino w"
    using w(6) by (simp add: opened_inode_def)
  have view: "byte_ok ?w = byte_ok w" "file_byte ?w = file_byte w"
    using same_disk_file [OF opened_inode_same_disk, of k w] iw by simp_all
  have lay: "layout_ok ?w = layout_ok w" "byte_sector ?w = byte_sector w" "undisturbed ?w = undisturbed w"
    using layout_same_disk [OF opened_inode_same_disk, of k w] iw by simp_all
  have shape: "same_shape dsz ?d ?w"
    using d w(8,9) unfolding same_shape_def dir_ok_def dir_file_def iw view layout_ok_def by blast
  have sect: "part_sector w m = part_sector s m" if "in_part s m" "m \<notin> byte_sector ?d ` {..<dsz}" "m \<noteq> inode_sector s k" for m
    using w(13) that same_disk_sectors [OF du] layout_same_disk(1) [OF e(1,2)] inode_sector_same_disk(1) [OF du] by simp
  have "length (d_name (static_de w)) = 256"
    using t(2) w(11) by (simp add: opened_rw_fields lookup_state_def)
  then show ?thesis
    using run w(2,3,4,5,9,10,12) y same_disk_sectors(4) [OF du] shape view(2) sect lay layout_same_disk [OF e(1,2)]
    by (intro exI [of _ w] exI [of _ x]) (simp del: ext2_append_to_directory.simps)
qed

section \<open>The property\<close>

text \<open>C14: \<open>ext2_append_to_directory\<close> on a directory with room behind the last entry of its last block returns 0,
  and on the disk the directory then lists the entries it had, with their numbers and names, followed by
  one with the given inode number and name. Outside the sectors of the directory and of its inode the
  volume is unchanged.\<close>

theorem append_to_directory_adds_the_entry:
  assumes s: "mounted_ok s" "cx_read_only (ctx s) = 0" and r: "resolves (fresh s) n EXT2_ROOT_INO (path_elements directory) k"
    and k: "inode_ok s k" and d: "dir_ok (opened_inode k s) dsz es bs" and len: "length bs \<le> Suc n"
    and room: "has_room (file_byte (opened_inode k s)) dsz (last bs) filename" and i: "0 < sint inode"
  shows "\<exists>t p. ext2_append_to_directory (Suc (Suc n)) directory inode filename s = Inr (0, t)
    \<and> entries (opened_inode k t) 0 (es @ bs @ [p]) dsz
    \<and> entry_ino (opened_inode k t) p = inode \<and> entry_name (opened_inode k t) p = filename
    \<and> (\<forall>x\<in>set (es @ bs). entry_ino (opened_inode k t) x = entry_ino (opened_inode k s) x
         \<and> entry_name (opened_inode k t) x = entry_name (opened_inode k s) x)
    \<and> (\<forall>m. in_part s m \<and> m \<notin> byte_sector (opened_inode k s) ` {..<dsz} \<and> m \<noteq> inode_sector s k
         \<longrightarrow> part_sector t m = part_sector s m)"
proof -
  let ?d = "opened_inode k s"
  obtain t where t: "ext2_append_to_directory (Suc (Suc n)) directory inode filename s = Inr (0, t)"
    "same_shape dsz ?d (opened_inode k t)" "\<forall>j<dsz. file_byte (opened_inode k t) j = appended dsz (last bs) inode filename (file_byte ?d) j"
    "\<forall>m. in_part s m \<and> m \<notin> byte_sector ?d ` {..<dsz} \<and> m \<noteq> inode_sector s k \<longrightarrow> part_sector t m = part_sector s m"
    using append_to_directory_run [OF s r k d refl room len, of inode] by blast
  have bs: "es @ bs = (es @ butlast bs) @ [last bs]"
    using d by (simp add: dir_ok_def dir_file_def)
  have e: "entries ?d 0 ((es @ butlast bs) @ [last bs]) dsz" "\<forall>x\<in>set (es @ butlast bs). 8 + entry_name_len ?d x \<le> entry_rec_len ?d x"
    using d unfolding bs [symmetric] by (auto simp: dir_ok_def dir_file_def dest: in_set_butlastD)
  note a = entries_appended [OF t(2) room i t(3) e]
  have kept: "entry_ino (opened_inode k t) x = entry_ino ?d x \<and> entry_name (opened_inode k t) x = entry_name ?d x"
    if "x \<in> set (es @ bs)" for x
    using a(2) [of x] that unfolding bs .
  have list: "(es @ butlast bs) @ [last bs, p] = es @ bs @ [p]" for p
    using bs by simp
  show ?thesis
    using t(1,4) a(1,3,4) kept unfolding list
    by (intro exI [of _ t] exI [of _ "new_pos (file_byte ?d) (last bs)"]) (simp del: ext2_append_to_directory.simps)
qed

text \<open>The root directory of the demo volume takes a second entry.\<close>

abbreviation demo_dir :: fs where
  "demo_dir \<equiv> opened_inode 2 demo_fs"

lemma demo_dir_view:
  "byte_ok demo_dir = byte_ok demo_root_dir" "file_byte demo_dir = file_byte demo_root_dir"
  "entries demo_dir 0 [0] 1024" "entry_rec_len demo_dir 0 = 1024" "entry_name_len demo_dir 0 = 1" "bsize demo_dir = 1024"
  "ino demo_dir = demo_root"
proof -
  note d = opened_inode_same_dir [OF demo_fresh(2), of 2]
  show v: "byte_ok demo_dir = byte_ok demo_root_dir" "file_byte demo_dir = file_byte demo_root_dir"
    using same_dir_view [OF d] by simp_all
  show "entries demo_dir 0 [0] 1024" "entry_rec_len demo_dir 0 = 1024" "entry_name_len demo_dir 0 = 1"
    using entries_view(1) [OF d, of 0 "[0]" 1024] demo_root_entries(1) entry_view(2) [OF d] demo_root_entry(2,3)
    by (simp_all only: entry_name_len_def v)
  show "bsize demo_dir = 1024" "ino demo_dir = demo_root"
    using same_disk_sectors(6) [OF opened_inode_same_disk, of 2 demo_fs] by (simp_all add: opened_inode_def)
qed

lemma demo_dir_ok: "dir_ok demo_dir 1024 [] [0]"
proof -
  have sp: "spb demo_dir = 2"
    using same_disk_sectors(5) [OF opened_inode_same_disk, of 2 demo_fs] by simp
  have sec: "byte_sector demo_dir j = 12 + j div 512" if "j < 1024" for j
    using that by (simp add: byte_sector_def file_block_def demo_dir_view sp)
  have und: "undisturbed demo_dir x j" if "j < 1024" for x j
    using that by (simp add: undisturbed_def map_path_def demo_dir_view)
  have "layout_ok demo_dir 1024"
    unfolding layout_ok_def using sec und demo_root_byte_ok(1) by (simp add: demo_dir_view(1))
  moreover have "inode_apart demo_dir 1024"
  proof -
    note g = inode_sector_same_disk [OF opened_inode_same_disk, of 2 demo_fs] same_disk_inodes(1) [OF opened_inode_same_disk, of 2 demo_fs]
    have "fe_inode_number (fe demo_dir) = 2"
      by (simp add: opened_inode_def)
    then show ?thesis
      using sec und by (simp add: inode_apart_def Let_def g)
  qed
  ultimately show ?thesis
    by (simp add: dir_ok_def dir_file_def demo_dir_view del: entries.simps)
qed

lemma append_to_directory_adds_the_entry_witness:
  "\<exists>t p. ext2_append_to_directory (Suc (Suc 0)) [slash] 5 [98, 99] demo_fs = Inr (0, t)
     \<and> entries (opened_inode 2 t) 0 [0, p] 1024 \<and> entry_ino (opened_inode 2 t) p = 5
     \<and> entry_name (opened_inode 2 t) p = [98, 99]"
proof -
  have p: "path_elements [slash] = []"
    by (simp add: path_elements_def tokens.simps [of "[slash]"] MAX_PATH_LEN_def)
  have "rec_len_at (file_byte demo_dir) 0 = 1024" "unat (dh_name_len (header_at (file_byte demo_dir) 0)) = 1"
    using demo_dir_view(4,5) by (simp_all add: entry_header)
  then have room: "has_room (file_byte demo_dir) 1024 (last [0]) [98, 99]"
    by (simp add: has_room_def new_pos_def min_len_def)
  show ?thesis
    using append_to_directory_adds_the_entry [OF demo_fresh(1) _ _ _ demo_dir_ok _ room, of 0 "[slash]" 5]
    by (auto simp: p EXT2_ROOT_INO_def resolves_Nil simp del: entries.simps ext2_append_to_directory.simps)
qed

end
