(* ===== verification/Ext2_Super.thy ===== *)
theory Ext2_Super
  imports Ext2_Mount Ext2_Alloc
begin

text \<open>
  The superblock copies: which groups hold one according to \<open>ext2_mount\<close>, what
  \<open>ext2_flush_superblock\<close> writes to the volume, and which volumes \<open>ext2_mount\<close> refuses.
\<close>

unbundle bit_operations_syntax

section \<open>Which groups hold a copy\<close>

lemma is_power_of_prime:
  assumes "1 < ofy" "1 < p" "\<And>k. 1 < k \<Longrightarrow> p mod k = 0 \<Longrightarrow> k = p"
  shows "is_power p ofy = Some (ofy = p)"
proof (cases "ofy = p")
  case True
  have "1 smod p = 1" "p smod p = 0" "p sdiv p = 1"
    using assms(2) smod_nonneg [of 1 p] smod_nonneg [of p p] sdiv_nonneg [of p p] by simp_all
  then show ?thesis
    unfolding True by (simp only: is_power.simps [of p p] is_power.simps [of 1 p]) simp
next
  case False
  then have "p smod ofy \<noteq> 0"
    using assms smod_nonneg [of p ofy] by auto
  then show ?thesis
    using assms(2) False by (simp add: is_power.simps [of p ofy])
qed

lemma small_primes:
  "1 < (k :: int) \<Longrightarrow> 3 mod k = 0 \<Longrightarrow> k = 3" "1 < k \<Longrightarrow> 5 mod k = 0 \<Longrightarrow> k = 5"
  "1 < k \<Longrightarrow> 7 mod k = 0 \<Longrightarrow> k = 7"
proof -
  have le: "k \<le> p" if "p mod k = 0" "0 < p" for p :: int
    using that by (simp add: zdvd_imp_le dvd_eq_mod_eq_0)
  show "1 < k \<Longrightarrow> 3 mod k = 0 \<Longrightarrow> k = 3"
    using le [of 3] by (cases "k = 2") auto
  show "1 < k \<Longrightarrow> 5 mod k = 0 \<Longrightarrow> k = 5"
    using le [of 5] by (cases "k = 2 \<or> k = 3 \<or> k = 4") auto
  show "1 < k \<Longrightarrow> 7 mod k = 0 \<Longrightarrow> k = 7"
    using le [of 7] by (cases "k = 2 \<or> k = 3 \<or> k = 4 \<or> k = 5 \<or> k = 6") auto
qed

lemma is_power_357:
  assumes "1 < ofy"
  shows "is_power 3 ofy = Some (ofy = 3)" "is_power 5 ofy = Some (ofy = 5)" "is_power 7 ofy = Some (ofy = 7)"
  using is_power_of_prime [OF assms, of 3] is_power_of_prime [OF assms, of 5] is_power_of_prime [OF assms, of 7]
    small_primes by simp_all

text \<open>The groups for which the test of \<open>ext2_mount\<close> succeeds.\<close>

definition copy_group :: "nat \<Rightarrow> bool" where
  "copy_group g \<longleftrightarrow> g \<in> {0, 1, 3, 5, 7}"

lemma has_superblock_run:
  assumes "g < 2 ^ 31"
  shows "has_superblock (of_nat g) s = Inr (copy_group g, s)"
proof -
  have u: "uint (of_nat g :: u32) = int g"
    using assms unat_of_nat32 [of g] by (simp only: uint_nat) simp
  have z: "(of_nat g = (0 :: u32)) = (g = 0)" "(of_nat g = (1 :: u32)) = (g = 1)"
    using assms w32_eq [of g 0] w32_eq [of g 1] by simp_all
  show ?thesis
  proof (cases "g \<le> 1")
    case True
    then show ?thesis
      by (auto simp: has_superblock_def copy_group_def le_Suc_eq)
  next
    case False
    then have "1 < int g"
      by simp
    then show ?thesis
      using is_power_357 [of "int g"] False assms
      by (auto simp: has_superblock_def z u to_int32_id c_is_power_def bnd_def Let_def copy_group_def)
  qed
qed

lemma for_fold_pure:
  assumes "\<forall>i\<in>set is. \<forall>a. f i a s = Inr (g i a, s)"
  shows "for_fold is f a s = Inr (fold g is a, s)"
  using assms by (induction "is" arbitrary: a) (simp_all add: bnd_Inr)

lemma fold_count: "fold (\<lambda>i n. if P i then n + 1 else n) is (n :: u32) = n + of_nat (length (filter P is))"
  by (induction "is" arbitrary: n) (simp_all add: add.assoc)

lemma fold_collect: "fold (\<lambda>i bs. if P i then bs @ [f i] else bs) is bs = bs @ map f (filter P is)"
  by (induction "is" arbitrary: bs) simp_all

lemma superblocks_run:
  assumes "unat groups < 2 ^ 31"
  shows "count_superblocks groups s = Inr (of_nat (length (filter copy_group [0..<unat groups])), s)"
    "list_superblocks groups bpg first s
       = Inr (map (\<lambda>g. of_nat g * bpg + first) (filter copy_group [0..<unat groups]), s)"
proof -
  have h: "has_superblock (of_nat i) s = Inr (copy_group i, s)" if "i \<in> set [0..<unat groups]" for i
    using that assms by (intro has_superblock_run) simp
  show "count_superblocks groups s = Inr (of_nat (length (filter copy_group [0..<unat groups])), s)"
    unfolding count_superblocks_def
    by (subst for_fold_pure [where g = "\<lambda>i n. if copy_group i then n + 1 else n"]) (simp_all add: h bnd_Inr fold_count)
  show "list_superblocks groups bpg first s
       = Inr (map (\<lambda>g. of_nat g * bpg + first) (filter copy_group [0..<unat groups]), s)"
    unfolding list_superblocks_def
    by (subst for_fold_pure [where g = "\<lambda>i bs. if copy_group i then bs @ [of_nat i * bpg + first] else bs"])
      (simp_all add: h bnd_Inr fold_collect)
qed

section \<open>Writing the copies\<close>

definition copy_sector :: "fs \<Rightarrow> nat \<Rightarrow> nat" where
  "copy_sector s i = unat (cx_superblock_blocks (ctx s) ! i) * spb s"

definition super_copy :: "fs \<Rightarrow> nat \<Rightarrow> u8 list" where
  "super_copy s i = encode_superblock ((sb s)\<lparr>s_block_group_nr := ucast (cx_superblock_blocks (ctx s) ! i)\<rparr>)
     @ replicate (512 - sizeof_superblock) 0"

text \<open>The state after writing copy \<open>i\<close>, and the states in which it can be written.\<close>

definition copied :: "nat \<Rightarrow> fs \<Rightarrow> fs" where
  "copied i s = put_sector (copy_sector s i) (super_copy s i)
     (s\<lparr>ctx := (ctx s)\<lparr>cx_superblock := (sb s)\<lparr>s_block_group_nr := ucast (cx_superblock_blocks (ctx s) ! i)\<rparr>,
                       cx_sysbuf := super_copy s i\<rparr>\<rparr>)"

definition copy_ok :: "fs \<Rightarrow> bool" where
  "copy_ok s \<longleftrightarrow> pc_ok (dev s) \<and> unat (s_log_block_size (sb s)) \<le> 2 \<and> wf_superblock (sb s)
     \<and> (\<exists>x. length x = sizeof_superblock \<and> cx_sysbuf (ctx s) = x @ replicate (512 - sizeof_superblock) 0)"

lemma wf_superblock_nr [simp]: "wf_superblock (b\<lparr>s_block_group_nr := n\<rparr>) = wf_superblock b"
  "wf_superblock (b\<lparr>s_state := m\<rparr>) = wf_superblock b"
  by (simp_all add: wf_superblock_def)

lemma length_super_copy: "wf_superblock (sb s) \<Longrightarrow> length (super_copy s i) = 512"
  by (simp add: super_copy_def sizeof_superblock_def)

lemma copied_fields [simp]:
  "fe (copied i s) = fe s" "in_part (copied i s) = in_part s" "spb (copied i s) = spb s"
  "cx_superblock_blocks (ctx (copied i s)) = cx_superblock_blocks (ctx s)"
  "cx_num_superblocks (ctx (copied i s)) = cx_num_superblocks (ctx s)"
  "cx_part_start (ctx (copied i s)) = cx_part_start (ctx s)"
  "sb (copied i s) = (sb s)\<lparr>s_block_group_nr := ucast (cx_superblock_blocks (ctx s) ! i)\<rparr>"
  "copy_sector (copied i s) = copy_sector s" "super_copy (copied i s) = super_copy s"
  by (simp_all add: copied_def put_sector_def in_part_def spb_def copy_sector_def super_copy_def fun_eq_iff)

lemma flush_superblock_copy_run:
  assumes ok: "copy_ok s" and inp: "in_part s (copy_sector s i)"
  shows "flush_superblock_copy i s = Inr ((), copied i s)" "copy_ok (copied i s)"
    "in_part s m \<Longrightarrow> part_sector (copied i s) m = (if m = copy_sector s i then super_copy s i else part_sector s m)"
proof -
  have o: "pc_ok (dev s)" "unat (s_log_block_size (sb s)) \<le> 2" "wf_superblock (sb s)"
    using ok by (simp_all add: copy_ok_def)
  let ?b = "(sb s)\<lparr>s_block_group_nr := ucast (cx_superblock_blocks (ctx s) ! i)\<rparr>"
  let ?u = "s\<lparr>ctx := (ctx s)\<lparr>cx_superblock := ?b, cx_sysbuf := super_copy s i\<rparr>\<rparr>"
  have u: "in_part ?u = in_part s" "part_sector ?u = part_sector s" "spb ?u = spb s"
    by (simp_all add: in_part_def part_sector_def spb_def fun_eq_iff)
  obtain x where x: "length x = sizeof_superblock" "cx_sysbuf (ctx s) = x @ replicate (512 - sizeof_superblock) 0"
    using ok by (auto simp: copy_ok_def)
  have p: "patch 0 (encode_superblock ?b) (cx_sysbuf (ctx s)) = super_copy s i"
    using o(3) x by (simp add: patch_def super_copy_def)
  have len: "length (super_copy s i) = 512"
    using o(3) by (rule length_super_copy)
  have "sys_write (of_nat (copy_sector s i) + cx_part_start (ctx ?u)) ?u
      = Inr (0, put_sector (copy_sector s i) (super_copy s i) ?u)"
    using o inp len u by (intro put_sector_run) simp_all
  then have w: "sys_write (cx_superblock_blocks (ctx s) ! i * of_nat (spb s) + cx_part_start (ctx s)) ?u
      = Inr (0, copied i s)"
    by (simp add: copied_def copy_sector_def)
  have st: "ctx_update (cx_sysbuf_update (patch 0 (encode_superblock ?b)))
      (ctx_update (cx_superblock_update (s_block_group_nr_update (\<lambda>_. ucast (cx_superblock_blocks (ctx s) ! i)))) s) = ?u"
    using p by (cases s; cases "ctx s"; cases "sb s") simp
  have sh: "c_shl a (s_log_block_size (sb s) + 1) t = Inr (a * of_nat (spb s), t)" for a and t :: fs
    using o(2) by (rule c_shl_spb)
  have e: "sb (ctx_update (cx_superblock_update (s_block_group_nr_update f)) s)
      = (sb s)\<lparr>s_block_group_nr := f (s_block_group_nr (sb s))\<rparr>" for f
    by (cases s; cases "ctx s"; cases "sb s") simp
  show "flush_superblock_copy i s = Inr ((), copied i s)"
    by (simp add: flush_superblock_copy_def upd_sb_def upd_ctx_def e st sh w bnd_Inr)
  have pc: "pc_ok (dev (copied i s))"
    unfolding copied_def using o inp len u by (intro put_sector_run(2)) simp_all
  have "length (encode_superblock ?b) = sizeof_superblock"
    using o(3) by simp
  then show "copy_ok (copied i s)"
    using pc o unfolding copy_ok_def
    by (auto simp: copied_def super_copy_def intro!: exI [of _ "encode_superblock ?b"])
  assume m: "in_part s m"
  have "part_sector (copied i s) m = (if m = copy_sector s i then super_copy s i else part_sector ?u m)"
    unfolding copied_def using o inp len u m by (intro put_sector_run(3)) simp_all
  then show "part_sector (copied i s) m = (if m = copy_sector s i then super_copy s i else part_sector s m)"
    by (simp add: u)
qed

lemma copied_static [simp]: "static_de (copied i s) = static_de s"
  by (simp add: copied_def put_sector_def)

lemma copied_ctx: "ctx (copied i s) = (ctx s)\<lparr>cx_superblock := (sb s)\<lparr>s_block_group_nr :=
    ucast (cx_superblock_blocks (ctx s) ! i)\<rparr>, cx_sysbuf := super_copy s i\<rparr>"
  by (simp add: copied_def put_sector_def)

text \<open>The loop over the copies.\<close>

lemma flush_copies_run:
  assumes "copy_ok s" "\<forall>i\<in>set is. in_part s (copy_sector s i)" "distinct (map (copy_sector s) is)"
  shows "\<exists>t n x. for_each is flush_superblock_copy s = Inr ((), t) \<and> copy_ok t \<and> in_part t = in_part s
     \<and> ctx t = (ctx s)\<lparr>cx_superblock := (sb s)\<lparr>s_block_group_nr := n\<rparr>, cx_sysbuf := x\<rparr> \<and> fe t = fe s \<and> static_de t = static_de s
     \<and> (\<forall>i\<in>set is. part_sector t (copy_sector s i) = super_copy s i)
     \<and> (\<forall>m. in_part s m \<and> m \<notin> copy_sector s ` set is \<longrightarrow> part_sector t m = part_sector s m)"
  using assms
proof (induction "is" arbitrary: s)
  case Nil
  then show ?case
    by (intro exI [of _ s] exI [of _ "s_block_group_nr (sb s)"] exI [of _ "cx_sysbuf (ctx s)"]) simp
next
  case (Cons i js)
  have inp: "in_part s (copy_sector s i)"
    using Cons.prems by simp
  note c = flush_superblock_copy_run [OF Cons.prems(1) inp]
  obtain t n x where t: "for_each js flush_superblock_copy (copied i s) = Inr ((), t)" "copy_ok t" "in_part t = in_part s"
    "ctx t = (ctx (copied i s))\<lparr>cx_superblock := (sb (copied i s))\<lparr>s_block_group_nr := n\<rparr>, cx_sysbuf := x\<rparr>"
    "fe t = fe s \<and> static_de t = static_de s"
    "\<forall>i\<in>set js. part_sector t (copy_sector s i) = super_copy s i"
    "\<forall>m. in_part s m \<and> m \<notin> copy_sector s ` set js \<longrightarrow> part_sector t m = part_sector (copied i s) m"
    using Cons.IH [OF c(2)] Cons.prems by auto
  have "part_sector t (copy_sector s i) = super_copy s i"
    using t(7) c(3) inp Cons.prems(3) by (auto simp: image_iff)
  then show ?case
    using t c(1,3) by (intro exI [of _ t] exI [of _ n] exI [of _ x]) (auto simp: seq_Inr copied_ctx)
qed

text \<open>\<open>memset\<close> prepares \<open>sysbuf\<close>.\<close>

lemma ext2_flush_superblock_run:
  assumes "pc_ok (dev s)" "unat (s_log_block_size (sb s)) \<le> 2" "wf_superblock (sb s)" "length (cx_sysbuf (ctx s)) = 512"
    and "\<forall>i < unat (cx_num_superblocks (ctx s)). in_part s (copy_sector s i)"
    and "inj_on (copy_sector s) {..<unat (cx_num_superblocks (ctx s))}"
  shows "\<exists>t n x. ext2_flush_superblock s = Inr (0, t) \<and> copy_ok t \<and> in_part t = in_part s
     \<and> ctx t = (ctx s)\<lparr>cx_superblock := (sb s)\<lparr>s_block_group_nr := n\<rparr>, cx_sysbuf := x\<rparr> \<and> fe t = fe s \<and> static_de t = static_de s
     \<and> (\<forall>i < unat (cx_num_superblocks (ctx s)). part_sector t (copy_sector s i) = super_copy s i)
     \<and> (\<forall>m. in_part s m \<and> m \<notin> copy_sector s ` {..<unat (cx_num_superblocks (ctx s))}
          \<longrightarrow> part_sector t m = part_sector s m)"
proof -
  let ?z = "with_sysbuf (replicate 512 0) s" and ?n = "unat (cx_num_superblocks (ctx s))"
  have z: "ctx_update (cx_sysbuf_update (patch 0 (replicate (unat block_get_block_size) 0))) s = ?z"
    using assms(4) by (simp add: sysbuf_upd block_get_block_size_def patch_def)
  have v: "copy_sector ?z = copy_sector s" "super_copy ?z = super_copy s"
    by (simp_all add: copy_sector_def super_copy_def fun_eq_iff)
  have zc: "ctx ?z = (ctx s)\<lparr>cx_sysbuf := replicate 512 0\<rparr>" "static_de ?z = static_de s"
    by (simp_all add: with_sysbuf_def)
  have "replicate 512 0 = replicate sizeof_superblock 0 @ replicate (512 - sizeof_superblock) (0 :: u8)"
    by (simp add: sizeof_superblock_def flip: replicate_add)
  then have ok: "copy_ok ?z"
    using assms by (auto simp: copy_ok_def)
  have "distinct (map (copy_sector s) [0..<?n])"
    using assms(6) by (simp add: distinct_map lessThan_atLeast0)
  then obtain t n x where t: "for_each [0..<?n] flush_superblock_copy ?z = Inr ((), t)" "copy_ok t" "in_part t = in_part s"
    "ctx t = (ctx s)\<lparr>cx_superblock := (sb s)\<lparr>s_block_group_nr := n\<rparr>, cx_sysbuf := x\<rparr>" "fe t = fe s \<and> static_de t = static_de s"
    "\<forall>i < ?n. part_sector t (copy_sector s i) = super_copy s i"
    "\<forall>m. in_part s m \<and> m \<notin> copy_sector s ` {..<?n} \<longrightarrow> part_sector t m = part_sector s m"
    using flush_copies_run [OF ok, of "[0..<?n]"] assms(5) by (auto simp: v zc lessThan_atLeast0)
  then show ?thesis
    by (intro exI [of _ t] exI [of _ n] exI [of _ x]) (simp add: ext2_flush_superblock_def upd_ctx_def z seq_Inr)
qed

text \<open>\<open>ext2_umount\<close> marks the superblock and flushes it.\<close>

lemma ext2_umount_run:
  assumes "ext2_flush_superblock (s\<lparr>ctx := (ctx s)\<lparr>cx_superblock := (sb s)\<lparr>s_state := EXT2_VALID_FS\<rparr>\<rparr>\<rparr>) = Inr (r, t)"
  shows "ext2_umount s = Inr (0, t)"
proof -
  have e: "ctx_update (cx_superblock_update (s_state_update (\<lambda>_. EXT2_VALID_FS))) s
      = s\<lparr>ctx := (ctx s)\<lparr>cx_superblock := (sb s)\<lparr>s_state := EXT2_VALID_FS\<rparr>\<rparr>\<rparr>"
    by (cases s; cases "ctx s"; cases "sb s") simp
  show ?thesis
    using assms by (simp add: ext2_umount_def upd_sb_def e bnd_Inr)
qed

section \<open>What mounting computes\<close>

definition mount_groups :: "superblock \<Rightarrow> u32" where
  "mount_groups b = (let full = s_blocks_count b div s_blocks_per_group b in
     if s_blocks_count b mod s_blocks_per_group b \<noteq> 0 then full + 1 else full)"

definition mount_sparse :: "superblock \<Rightarrow> bool" where
  "mount_sparse b \<longleftrightarrow> s_rev_level b = 1 \<and> s_feature_ro_compat b AND EXT2_FEATURE_RO_COMPAT_SPARSE_SUPER \<noteq> 0"

definition mount_first :: "superblock \<Rightarrow> u32" where
  "mount_first b = (if s_log_block_size b = 0 then 1 else 0)"

definition mount_copies :: "superblock \<Rightarrow> u32 list" where
  "mount_copies b = map (\<lambda>g. of_nat g * s_blocks_per_group b + mount_first b)
     (filter (\<lambda>g. mount_sparse b \<longrightarrow> copy_group g) [0..<unat (mount_groups b)])"

text \<open>The superblock on the disk, and the state in which \<open>ext2_mount\<close> flushes it.\<close>

definition disk_super :: "u32 \<Rightarrow> fs \<Rightarrow> superblock" where
  "disk_super p s = decode_superblock (slice 0 sizeof_superblock (pc_sector (dev s) (p + 2)))"

definition mounted_super :: "u32 \<Rightarrow> fs \<Rightarrow> superblock" where
  "mounted_super p s = (disk_super p s)\<lparr>s_mtime := clock s (ticks s), s_mnt_count := s_mnt_count (disk_super p s) + 1,
     s_state := EXT2_ERROR_FS\<rparr>"

definition mounted :: "u32 \<Rightarrow> fs \<Rightarrow> fs" where
  "mounted p s = (let b = disk_super p s in s\<lparr>
     ctx := \<lparr>cx_part_start = p, cx_superblock = mounted_super p s, cx_sparse = of_bool (mount_sparse b),
        cx_sysbuf = pc_sector (dev s) (p + 2), cx_superblock_block = mount_first b,
        cx_read_only = word_of_int (block_get_device_read_only (dev s)), cx_num_blockgroups = mount_groups b,
        cx_num_superblocks = of_nat (length (mount_copies b)), cx_superblock_blocks = mount_copies b\<rparr>,
     mallocs := mallocs s + 2, ticks := ticks s + 1\<rparr>)"

definition mountable :: "u32 \<Rightarrow> u32 \<Rightarrow> fs \<Rightarrow> bool" where
  "mountable p vol s \<longleftrightarrow> (let b = disk_super p s in
     s_magic b = EXT2_SUPER_MAGIC \<and> push_bit (unat (s_log_block_size b)) (s_blocks_count b) \<le> vol)"

lemma read_super_run:
  assumes "pc_ok (dev s)" "pc_valid (dev s) b"
  shows "sys_read b s = Inr (0, s\<lparr>ctx := (ctx s)\<lparr>cx_sysbuf := pc_sector (dev s) b\<rparr>\<rparr>)"
  using assms by (simp add: sys_read_def upd_ctx_def bnd_Inr on_dev_def block_read_ok)

lemma ext2_mount_refuses:
  assumes "heap_ok s (mallocs s)" "pc_ok (dev s)" "pc_valid (dev s) (p + 2)"
    and "unat (s_log_block_size (disk_super p s)) < 32" "\<not> mountable p vol s"
  shows "\<exists>t. ext2_mount p vol hint s = Inr (-1, t) \<and> dev t = dev s"
  using assms
  by (auto simp: ext2_mount_def malloc_def bnd_Inr seq_Inr upd_ctx_def read_super_run c_shl_run mountable_def
      disk_super_def Let_def not_le)

lemma ext2_mount_run:
  assumes heap: "heap_ok s (mallocs s)" "heap_ok s (Suc (mallocs s))" and dev: "pc_ok (dev s)" "pc_valid (dev s) (p + 2)"
    and log: "unat (s_log_block_size (disk_super p s)) < 32" and ok: "mountable p vol s"
    and bpg: "s_blocks_per_group (disk_super p s) \<noteq> 0" and groups: "unat (mount_groups (disk_super p s)) < 2 ^ 31"
  shows "ext2_mount p vol hint s = bnd ext2_flush_superblock (\<lambda>_. ret 0) (mounted p s)"
proof -
  let ?b = "disk_super p s" let ?g = "mount_groups ?b"
  have l: "length (mount_copies ?b) = length (filter (\<lambda>g. mount_sparse ?b \<longrightarrow> copy_group g) [0..<unat ?g])"
    by (simp add: mount_copies_def)
  have c: "(if mount_sparse ?b then count_superblocks ?g else ret ?g) t = Inr (of_nat (length (mount_copies ?b)), t)" for t
    using superblocks_run(1) [OF groups, of t] unfolding l by simp
  have m: "(if mount_sparse ?b then list_superblocks ?g (s_blocks_per_group ?b) (mount_first ?b)
      else ret (map (\<lambda>i. of_nat i * s_blocks_per_group ?b + mount_first ?b) [0..<unat (of_nat (length (mount_copies ?b)) :: u32)])) t
      = Inr (mount_copies ?b, t)" for t
    using superblocks_run(2) [OF groups, of _ _ t] unfolding l mount_copies_def by simp
  have r: "sys_read (p + 2) t = Inr (0, t\<lparr>ctx := (ctx t)\<lparr>cx_sysbuf := pc_sector (dev s) (p + 2)\<rparr>\<rparr>)" if "dev t = dev s" for t
    using read_super_run [of t "p + 2"] dev that by simp
  have fold: "decode_superblock (slice 0 sizeof_superblock (pc_sector (dev s) (p + 2))) = ?b"
    by (simp add: disk_super_def)
  note cm = c [unfolded mount_sparse_def mount_groups_def Let_def] m [unfolded mount_sparse_def mount_first_def mount_groups_def Let_def]
  show ?thesis
    using heap log ok bpg
    apply (simp add: ext2_mount_def malloc_def bnd_Inr seq_Inr upd_ctx_def r c_shl_run c_div_run c_mod_run fold
        Let_def mountable_def not_le cm time_null_def upd_sb_def)
    apply (cases s)
    subgoal for d c
      by (cases c) (auto simp: mounted_def mounted_super_def mount_first_def mount_sparse_def mount_groups_def disk_super_def Let_def)
    done
qed

lemma length_mount_copies: "length (mount_copies b) \<le> unat (mount_groups b)"
  using length_filter_le [of "\<lambda>g. mount_sparse b \<longrightarrow> copy_group g" "[0..<unat (mount_groups b)]"]
  by (simp add: mount_copies_def)

lemma wf_mounted:
  assumes "pc_ok (dev s)" "pc_valid (dev s) (p + 2)"
  shows "wf_superblock (sb (mounted p s))"
proof -
  have "wf_superblock (disk_super p s)"
    using pc_sector_length [OF assms] unfolding disk_super_def
    by (intro wf_decode_superblock) (simp add: BLOCK_SIZE_def sizeof_superblock_def)
  then show ?thesis
    by (simp add: mounted_def mounted_super_def Let_def wf_superblock_def)
qed

section \<open>The properties\<close>

text \<open>C32: on a volume with sparse copies the driver takes the groups 0, 1, 3, 5 and 7 to hold a superblock
  copy and lists the block where each begins, for any number of groups below \<open>2 ^ 31\<close>. The powers 9,
  25, 27, 49 and so on, which also hold copies in the EXT2 format, are missed: the arguments of
  \<open>is_power\<close> are swapped.\<close>

theorem superblock_groups:
  assumes "unat groups < 2 ^ 31"
  shows "count_superblocks groups s
      = Inr (of_nat (length (filter (\<lambda>g. g \<in> {0, 1, 3, 5, 7}) [0..<unat groups])), s)
    \<and> list_superblocks groups bpg first s
      = Inr (map (\<lambda>g. of_nat g * bpg + first) (filter (\<lambda>g. g \<in> {0, 1, 3, 5, 7}) [0..<unat groups]), s)"
  using superblocks_run(1) [OF assms, of s] superblocks_run(2) [OF assms, of bpg first s]
  unfolding copy_group_def by simp

lemma superblock_groups_witness:
  "count_superblocks 10 demo_fs = Inr (5, demo_fs)
   \<and> list_superblocks 10 8192 1 demo_fs = Inr ([1, 8193, 24577, 40961, 57345], demo_fs)"
proof -
  have "[0..<10] = [0 :: nat, 1, 2, 3, 4, 5, 6, 7, 8, 9]"
    by (simp add: upt_rec)
  then show ?thesis
    using superblock_groups [of 10 demo_fs 8192 1] by simp
qed

text \<open>C22: \<open>ext2_umount\<close> writes, at the place of every copy of the superblock in its list, the superblock
  with the state set to valid and the number of the copy's block as its group number, and changes no
  other sector of the partition.\<close>

theorem umount_writes_the_copies:
  assumes "pc_ok (dev s)" "unat (s_log_block_size (sb s)) \<le> 2" "wf_superblock (sb s)" "length (cx_sysbuf (ctx s)) = 512"
    and "\<forall>i < unat (cx_num_superblocks (ctx s)). in_part s (copy_sector s i)"
    and "inj_on (copy_sector s) {..<unat (cx_num_superblocks (ctx s))}"
  shows "\<exists>t. ext2_umount s = Inr (0, t)
     \<and> (\<forall>i < unat (cx_num_superblocks (ctx s)).
          decode_superblock (slice 0 sizeof_superblock (part_sector t (copy_sector s i)))
          = (sb s)\<lparr>s_state := EXT2_VALID_FS, s_block_group_nr := ucast (cx_superblock_blocks (ctx s) ! i)\<rparr>)
     \<and> (\<forall>m. in_part s m \<and> m \<notin> copy_sector s ` {..<unat (cx_num_superblocks (ctx s))}
          \<longrightarrow> part_sector t m = part_sector s m)"
proof -
  let ?u = "s\<lparr>ctx := (ctx s)\<lparr>cx_superblock := (sb s)\<lparr>s_state := EXT2_VALID_FS\<rparr>\<rparr>\<rparr>"
  have u: "in_part ?u = in_part s" "part_sector ?u = part_sector s" "copy_sector ?u = copy_sector s"
    by (simp_all add: in_part_def part_sector_def copy_sector_def spb_def fun_eq_iff)
  obtain t where t: "ext2_flush_superblock ?u = Inr (0, t)"
    "\<forall>i < unat (cx_num_superblocks (ctx s)). part_sector t (copy_sector s i) = super_copy ?u i"
    "\<forall>m. in_part s m \<and> m \<notin> copy_sector s ` {..<unat (cx_num_superblocks (ctx s))}
          \<longrightarrow> part_sector t m = part_sector s m"
    using ext2_flush_superblock_run [of ?u] assms by (auto simp: u)
  have d: "decode_superblock (slice 0 sizeof_superblock (super_copy ?u i))
      = (sb s)\<lparr>s_state := EXT2_VALID_FS, s_block_group_nr := ucast (cx_superblock_blocks (ctx s) ! i)\<rparr>" for i
    using assms(3) by (simp add: super_copy_def slice_append_left)
  show ?thesis
    using t d by (intro exI [of _ t]) (simp add: ext2_umount_run)
qed

lemma umount_writes_the_copies_witness:
  "\<exists>t. ext2_umount demo_fs = Inr (0, t)
     \<and> decode_superblock (slice 0 sizeof_superblock (part_sector t 2))
       = demo_super\<lparr>s_state := EXT2_VALID_FS, s_block_group_nr := 1\<rparr>"
proof -
  have "copy_sector demo_fs 0 = 2" "inj_on (copy_sector demo_fs) {..<1}" "length (cx_sysbuf demo_ctx) = 512"
    by (simp_all add: copy_sector_def inj_on_def demo_ctx_def)
  then show ?thesis
    using umount_writes_the_copies [of demo_fs] by auto
qed

text \<open>C31: on a filesystem with blocks of 2 or 4 KiB unmounting leaves the sector that \<open>ext2_mount\<close> reads the
  superblock from as it was: the first copy is written to the first sector of the partition, over
  the boot block, and the volume stays marked as not unmounted.\<close>

theorem umount_misses_the_superblock:
  assumes "pc_ok (dev s)" "unat (s_log_block_size (sb s)) \<in> {1, 2}" "wf_superblock (sb s)" "length (cx_sysbuf (ctx s)) = 512"
    and "\<forall>i < unat (cx_num_superblocks (ctx s)). in_part s (copy_sector s i)"
    and "inj_on (copy_sector s) {..<unat (cx_num_superblocks (ctx s))}" and "in_part s 2"
  shows "\<exists>t. ext2_umount s = Inr (0, t) \<and> part_sector t 2 = part_sector s 2"
proof -
  let ?u = "s\<lparr>ctx := (ctx s)\<lparr>cx_superblock := (sb s)\<lparr>s_state := EXT2_VALID_FS\<rparr>\<rparr>\<rparr>"
  have u: "in_part ?u = in_part s" "part_sector ?u = part_sector s" "copy_sector ?u = copy_sector s"
    by (simp_all add: in_part_def part_sector_def copy_sector_def spb_def fun_eq_iff)
  have "4 dvd spb s"
    using assms(2) by (auto simp: spb_def)
  then have "2 \<notin> copy_sector s ` {..<unat (cx_num_superblocks (ctx s))}"
    by (auto simp: copy_sector_def dvd_def)
  then obtain t where "ext2_flush_superblock ?u = Inr (0, t)" "part_sector t 2 = part_sector s 2"
    using ext2_flush_superblock_run [of ?u] assms by (auto simp: u)
  then show ?thesis
    by (intro exI [of _ t]) (simp add: ext2_umount_run)
qed

definition demo_fs_2k :: fs where
  "demo_fs_2k = demo_fs\<lparr>ctx := demo_ctx\<lparr>cx_superblock := demo_super\<lparr>s_log_block_size := 1\<rparr>,
                                     cx_superblock_blocks := [0]\<rparr>\<rparr>"

lemma umount_misses_the_superblock_witness:
  "\<exists>t. ext2_umount demo_fs_2k = Inr (0, t) \<and> part_sector t 2 = demo_sector 2"
proof -
  have w: "wf_superblock (demo_super\<lparr>s_log_block_size := 1\<rparr>)"
    using wf_demo(3) unfolding wf_superblock_def by simp
  have f: "dev demo_fs_2k = demo_dev" "s_log_block_size (sb demo_fs_2k) = 1" "wf_superblock (sb demo_fs_2k)"
    "cx_num_superblocks (ctx demo_fs_2k) = 1" "length (cx_sysbuf (ctx demo_fs_2k)) = 512"
    "copy_sector demo_fs_2k 0 = 0"
    using w by (simp_all add: demo_fs_2k_def copy_sector_def demo_ctx_def)
  have "in_part demo_fs_2k = in_part demo_fs" "part_sector demo_fs_2k = part_sector demo_fs"
    by (simp_all add: demo_fs_2k_def in_part_def part_sector_def fun_eq_iff)
  then show ?thesis
    using umount_misses_the_superblock [of demo_fs_2k] f by (simp add: inj_on_def)
qed

text \<open>\<open>ext2_mount\<close> returns \<open>-1\<close> on a volume whose superblock has the wrong magic number or more blocks
  than the volume size, and leaves the device as it was.\<close>

theorem mount_refuses_other_volumes:
  assumes "heap_ok s (mallocs s)" "pc_ok (dev s)" "pc_valid (dev s) (p + 2)"
    and "unat (s_log_block_size (disk_super p s)) < 32"
    and "s_magic (disk_super p s) \<noteq> EXT2_SUPER_MAGIC
       \<or> vol < push_bit (unat (s_log_block_size (disk_super p s))) (s_blocks_count (disk_super p s))"
  shows "\<exists>t. ext2_mount p vol hint s = Inr (-1, t) \<and> dev t = dev s"
  using assms by (intro ext2_mount_refuses) (auto simp: mountable_def Let_def)

lemma disk_super_demo: "disk_super 0 demo_fs = demo_super"
  using part_sector_demo [of 2] by (simp add: disk_super_def part_sector_def demo_sector_def patch_def slice_append_left)

lemma heap_demo: "heap_ok demo_fs n"
  by (simp add: demo_fs_def)

lemma pc_valid_demo: "pc_valid demo_dev 2"
  by (simp add: pc_valid_def demo_dev_def BLOCK_SIZE_def)

lemma mount_refuses_other_volumes_witness: "\<exists>t. ext2_mount 0 7 0 demo_fs = Inr (-1, t) \<and> dev t = demo_dev"
  using mount_refuses_other_volumes [of demo_fs 0 7 0] by (simp add: disk_super_demo pc_valid_demo heap_demo)

text \<open>C21: \<open>ext2_mount\<close> of a volume that passes its checks returns 0 with the context computed from the superblock
  on the disk; that superblock, with the mount time, the mount count and the state set, is written
  over every copy in the list, and no other sector of the partition changes.\<close>

theorem mount_opens_the_volume:
  assumes "heap_ok s (mallocs s)" "heap_ok s (Suc (mallocs s))" "pc_ok (dev s)" "pc_valid (dev s) (p + 2)"
    and "unat (s_log_block_size (disk_super p s)) \<le> 2" "mountable p vol s"
    and "s_blocks_per_group (disk_super p s) \<noteq> 0" "unat (mount_groups (disk_super p s)) < 2 ^ 31"
    and "\<forall>i < length (mount_copies (disk_super p s)). in_part (mounted p s) (copy_sector (mounted p s) i)"
    and "inj_on (copy_sector (mounted p s)) {..<length (mount_copies (disk_super p s))}"
  shows "\<exists>t n x. ext2_mount p vol hint s = Inr (0, t)
     \<and> ctx t = (ctx (mounted p s))\<lparr>cx_superblock := (mounted_super p s)\<lparr>s_block_group_nr := n\<rparr>, cx_sysbuf := x\<rparr>
     \<and> (\<forall>i < length (mount_copies (disk_super p s)).
          decode_superblock (slice 0 sizeof_superblock (part_sector t (copy_sector (mounted p s) i)))
          = (mounted_super p s)\<lparr>s_block_group_nr := ucast (mount_copies (disk_super p s) ! i)\<rparr>)
     \<and> (\<forall>m. in_part t m \<and> m \<notin> copy_sector (mounted p s) ` {..<length (mount_copies (disk_super p s))}
          \<longrightarrow> part_sector t m = part_sector (mounted p s) m)"
proof -
  let ?m = "mounted p s"
  have n: "unat (cx_num_superblocks (ctx ?m)) = length (mount_copies (disk_super p s))"
    using length_mount_copies [of "disk_super p s"] assms(8) unat_of_nat32 [of "length (mount_copies (disk_super p s))"]
    by (simp add: mounted_def Let_def)
  have w: "wf_superblock (sb ?m)" "length (cx_sysbuf (ctx ?m)) = 512" "pc_ok (dev ?m)"
    "unat (s_log_block_size (sb ?m)) \<le> 2"
    using assms(3-5) wf_mounted [OF assms(3,4)] by (simp_all add: mounted_def Let_def pc_sector_length BLOCK_SIZE_def mounted_super_def)
  obtain t k x where t: "ext2_flush_superblock ?m = Inr (0, t)" "in_part t = in_part ?m"
    "ctx t = (ctx ?m)\<lparr>cx_superblock := (sb ?m)\<lparr>s_block_group_nr := k\<rparr>, cx_sysbuf := x\<rparr>"
    "\<forall>i < unat (cx_num_superblocks (ctx ?m)). part_sector t (copy_sector ?m i) = super_copy ?m i"
    "\<forall>m. in_part ?m m \<and> m \<notin> copy_sector ?m ` {..<unat (cx_num_superblocks (ctx ?m))}
          \<longrightarrow> part_sector t m = part_sector ?m m"
    using ext2_flush_superblock_run [OF w(3,4,1,2)] assms(9,10) unfolding n by blast
  have d: "decode_superblock (slice 0 sizeof_superblock (super_copy ?m i))
      = (mounted_super p s)\<lparr>s_block_group_nr := ucast (mount_copies (disk_super p s) ! i)\<rparr>" for i
    using w(1) by (simp add: super_copy_def slice_append_left mounted_def Let_def)
  have "ext2_mount p vol hint s = Inr (0, t)"
    using assms t(1) by (subst ext2_mount_run) (simp_all add: bnd_Inr)
  then show ?thesis
    using t(2-) d unfolding n by (intro exI [of _ t] exI [of _ k] exI [of _ x]) (simp add: mounted_def Let_def)
qed

lemma mount_opens_the_volume_witness:
  "\<exists>t. ext2_mount 0 16 0 demo_fs = Inr (0, t) \<and> cx_superblock_blocks (ctx t) = [1]
     \<and> s_mnt_count (decode_superblock (slice 0 sizeof_superblock (part_sector t 2))) = s_mnt_count demo_super + 1"
proof -
  have c: "mount_copies demo_super = [1]" "mount_groups demo_super = 1"
    by (simp_all add: mount_copies_def mount_groups_def mount_sparse_def mount_first_def)
  have k: "copy_sector (mounted 0 demo_fs) i = unat ([1 :: u32] ! i) * 2" for i
    by (simp add: copy_sector_def mounted_def Let_def disk_super_demo c spb_def mounted_super_def)
  have b: "cx_superblock_blocks (ctx (mounted 0 demo_fs)) = [1]" "mountable 0 16 demo_fs"
    "s_mnt_count (mounted_super 0 demo_fs) = s_mnt_count demo_super + 1" "in_part (mounted 0 demo_fs) 2"
    by (simp_all add: mounted_def mountable_def mounted_super_def Let_def disk_super_demo c in_part_def demo_dev_def BLOCK_SIZE_def)
  obtain t n x where "ext2_mount 0 16 0 demo_fs = Inr (0, t)"
    "ctx t = (ctx (mounted 0 demo_fs))\<lparr>cx_superblock := (mounted_super 0 demo_fs)\<lparr>s_block_group_nr := n\<rparr>, cx_sysbuf := x\<rparr>"
    "decode_superblock (slice 0 sizeof_superblock (part_sector t 2)) = (mounted_super 0 demo_fs)\<lparr>s_block_group_nr := 1\<rparr>"
    using mount_opens_the_volume [of demo_fs 0 16 0] b(2,4)
    by (auto simp: heap_demo disk_super_demo pc_valid_demo c k inj_on_def)
  then show ?thesis
    using b(1,3) by (intro exI [of _ t]) simp
qed

end
