(* ===== verification/Ext2_Alloc_Inode.thy ===== *)
theory Ext2_Alloc_Inode
  imports Ext2_Edit Ext2_Super
begin

text \<open>
  Allocating an inode: \<open>ext2_allocate_inode\<close> takes the group with the most free inodes by its descriptor
  and in that group's bitmap the first clear bit. It sets this bit on the disk and no other, and writes the
  superblock copies with one free inode less; the descriptor on the disk keeps its count.
\<close>

unbundle bit_operations_syntax

section \<open>The scan of a bitmap\<close>

lemma first_clear_bit_cases:
  "first_clear_bit b = 8 \<and> (\<forall>k<8. bit b k)
   \<or> first_clear_bit b < 8 \<and> \<not> bit b (first_clear_bit b) \<and> (\<forall>k<first_clear_bit b. bit b k)"
proof -
  have set: "b AND push_bit j 1 = 0 \<longleftrightarrow> \<not> bit b j" for j
    using bit_mask [of b j] by blast
  have def: "first_clear_bit b = (case filter (\<lambda>j. \<not> bit b j) [0..<8] of [] \<Rightarrow> 8 | j # _ \<Rightarrow> j)"
    by (simp only: first_clear_bit_def set)
  show ?thesis
  proof (cases "filter (\<lambda>j. \<not> bit b j) [0..<8]")
    case Nil
    then show ?thesis
      by (auto simp: def filter_empty_conv)
  next
    case (Cons j js)
    then obtain us vs where u: "[0..<8] = us @ j # vs" "\<forall>u\<in>set us. bit b u" "\<not> bit b j"
      by (auto simp: filter_eq_Cons_iff)
    have len: "length us < 8"
      using arg_cong [OF u(1), of length] by simp
    have "[0..<8] ! k = (us @ j # vs) ! k" for k
      using u(1) by simp
    then have at: "(us @ j # vs) ! k = k" if "k < 8" for k
      using that by (metis add_0 diff_zero nth_upt)
    have j: "j = length us"
      using at [OF len] by simp
    have "bit b k" if "k < length us" for k
    proof -
      have "us ! k = k"
        using at [of k] that len by (simp add: nth_append)
      then show ?thesis
        using u(2) nth_mem [OF that] by auto
    qed
    then have "\<forall>k<j. bit b k"
      by (simp add: j)
    with u(3) len j show ?thesis
      using Cons by (auto simp: def)
  qed
qed

text \<open>Byte \<open>q\<close> and bit \<open>k\<close> of the bitmap in a block.\<close>

definition bitmap_byte :: "fs \<Rightarrow> u32 \<Rightarrow> nat \<Rightarrow> u8" where
  "bitmap_byte s b q = part_sector s (unat b * spb s + q div 512) ! (q mod 512)"

definition bitmap_bit :: "fs \<Rightarrow> u32 \<Rightarrow> nat \<Rightarrow> bool" where
  "bitmap_bit s b k = bit (bitmap_byte s b (k div 8)) (k mod 8)"

lemma byte_bits: "bit (bitmap_byte s b q) r = bitmap_bit s b (8 * q + r)" if "r < 8"
  using that by (simp add: bitmap_bit_def)

text \<open>One round.\<close>

lemma scan_round:
  assumes s: "map_state s" and inp: "blk_ok s b" and q: "q div 512 < spb s" "q < 2 ^ 32"
  shows "scan_bitmap b (Suc n) (of_nat q) prev s =
     (let j = first_clear_bit (bitmap_byte s b q); t = loaded (unat b * spb s + q div 512) s in
      if j < 8 then Inr ((of_nat q, Some (j, bitmap_byte s b q)), t)
      else scan_bitmap b n (of_nat q + 1) (Some (j, bitmap_byte s b q)) t)"
proof -
  let ?m = "unat b * spb s + q div 512"
  have u: "unat (of_nat q :: u32) = q"
    using q(2) by (intro unat_of_nat32) simp
  have im: "in_part s ?m"
    using blk_ok_in_part [OF inp q(1)] .
  then have l: "ext2_load_buffer b (of_nat q) s = Inr (0, loaded ?m s)"
    using s u by (intro ext2_load_buffer_clean) (simp_all add: map_state_def)
  have len: "length (part_sector s ?m) = 512"
    using s im by (simp add: length_part_sector map_state_def)
  have f: "q mod 512 + 1 \<le> 512"
    using mod_less_divisor [of 512 q] by simp
  then have "slice (q mod 512) 1 (part_sector s ?m) ! 0 = bitmap_byte s b q"
    using len by (simp add: slice_nth bitmap_byte_def)
  then show ?thesis
    using f by (simp add: bnd_Inr l ext2_read_buffer_run u Let_def)
qed

lemma bitmap_loaded [simp]: "bitmap_byte (loaded m s) = bitmap_byte s" "bitmap_bit (loaded m s) = bitmap_bit s"
  by (simp_all add: fun_eq_iff bitmap_bit_def bitmap_byte_def)

lemma first_clear_bit_at:
  assumes "r < 8" "\<not> bit b r" "\<forall>k<r. bit b k"
  shows "first_clear_bit b = r"
proof -
  consider "first_clear_bit b = 8" "\<forall>k<8. bit b k"
    | "first_clear_bit b < 8" "\<not> bit b (first_clear_bit b)" "\<forall>k<first_clear_bit b. bit b k"
    using first_clear_bit_cases [of b] by blast
  then show ?thesis
    using assms by cases (auto intro: linorder_cases [of "first_clear_bit b" r])
qed

lemma first_clear_bit_none: "\<forall>k<8. bit b k \<Longrightarrow> first_clear_bit b = 8"
  using first_clear_bit_cases [of b] by blast

lemma scan_found:
  assumes "map_state s" "blk_ok s b" "q < 512 * spb s" "q < 2 ^ 32" "r < 8" "\<not> bitmap_bit s b (8 * q + r)"
    and "\<forall>k. 8 * i \<le> k \<and> k < 8 * q + r \<longrightarrow> bitmap_bit s b k" "i \<le> q" "q < i + n"
  shows "scan_bitmap b n (of_nat i) prev s
    = Inr ((of_nat q, Some (r, bitmap_byte s b q)), loaded (unat b * spb s + q div 512) s)"
  using assms
proof (induction n arbitrary: i prev s)
  case (Suc n)
  note rd = scan_round [OF Suc.prems(1,2), of i n prev]
  have i: "i div 512 < spb s" "i < 2 ^ 32"
    using Suc.prems(3,4,8) by (simp_all add: less_mult_imp_div_less mult.commute)
  show ?case
  proof (cases "i = q")
    case True
    have "first_clear_bit (bitmap_byte s b q) = r"
      using Suc.prems(5,6,7) True by (intro first_clear_bit_at) (simp_all add: byte_bits)
    then show ?thesis
      using rd [OF i] Suc.prems(5) True by simp
  next
    case False
    then have "first_clear_bit (bitmap_byte s b i) = 8"
      using Suc.prems(5,7,8) by (intro first_clear_bit_none) (simp add: byte_bits)
    moreover have "of_nat i + 1 = (of_nat (Suc i) :: u32)"
      by simp
    ultimately show ?thesis
      using rd [OF i] Suc.IH [of "loaded (unat b * spb s + i div 512) s" "Suc i"] Suc.prems False
      by (simp add: add.commute [of 1])
  qed
qed simp

section \<open>The group with the most free inodes\<close>

text \<open>The first group whose descriptor counts the most.\<close>

definition fullest :: "(block_group_descriptor \<Rightarrow> u16) \<Rightarrow> fs \<Rightarrow> nat \<Rightarrow> nat \<Rightarrow> bool" where
  "fullest f s n g \<longleftrightarrow> g < n \<and> (\<forall>i<n. f (bg_desc s i) \<le> f (bg_desc s g)) \<and> (\<forall>i<g. f (bg_desc s i) < f (bg_desc s g))"

definition best_step :: "(block_group_descriptor \<Rightarrow> u16) \<Rightarrow> fs \<Rightarrow> nat \<Rightarrow> int \<times> u32 \<Rightarrow> int \<times> u32" where
  "best_step f s i mg = (if fst mg < uint (f (bg_desc s i)) then (uint (f (bg_desc s i)), of_nat i) else mg)"

lemma best_fold:
  assumes g: "fullest f s n g" "f (bg_desc s g) \<noteq> 0"
  shows "m \<le> n \<Longrightarrow> (if m \<le> g then fst (fold (best_step f s) [0..<m] (0, 0)) < uint (f (bg_desc s g))
     else fold (best_step f s) [0..<m] (0, 0) = (uint (f (bg_desc s g)), of_nat g))"
proof (induction m)
  case 0
  then show ?case
    using g(2) uint_nonnegative [of "f (bg_desc s g)"] by (simp add: less_le uint_0_iff)
next
  case (Suc m)
  have lt: "uint (f (bg_desc s m)) < uint (f (bg_desc s g))" if "m < g"
    using g(1) that by (simp add: fullest_def word_less_def)
  have le: "uint (f (bg_desc s m)) \<le> uint (f (bg_desc s g))"
    using g(1) Suc.prems by (simp add: fullest_def word_le_def)
  consider "Suc m \<le> g" | "m = g" | "g < m"
    by linarith
  then show ?case
  proof cases
    case 1
    then show ?thesis
      using Suc lt by (simp add: best_step_def)
  next
    case 2
    then show ?thesis
      using Suc by (simp add: best_step_def)
  next
    case 3
    then show ?thesis
      using Suc le by (simp add: best_step_def)
  qed
qed

lemma most_free_fold:
  assumes "pc_ok (dev s)" "unat (s_log_block_size (sb s)) \<le> 2"
    and "\<forall>i\<in>set js. i < unat (cx_num_blockgroups (ctx s)) \<and> in_part s (bg_sector s i)"
  shows "\<exists>x. for_fold js (\<lambda>i (most, group).
       bnd (ext2_get_bg_descriptor (of_nat i)) (\<lambda>(_, got).
       bnd (the_init got) (\<lambda>bg.
       ret (if most < uint (f bg) then (uint (f bg), of_nat i) else (most, group))))) mg s
     = Inr (fold (best_step f s) js mg, with_sysbuf x s)"
  using assms
proof (induction js arbitrary: s mg)
  case Nil
  have "with_sysbuf (cx_sysbuf (ctx s)) s = s"
    by (simp add: with_sysbuf_def)
  then show ?case
    by (intro exI [of _ "cx_sysbuf (ctx s)"]) simp
next
  case (Cons i js)
  have i: "unat (of_nat i :: u32) = i"
    using Cons.prems(3) unat_lt32 [of "cx_num_blockgroups (ctx s)"] by (intro unat_of_nat32) auto
  then have get: "ext2_get_bg_descriptor (of_nat i) s = Inr ((0, Some (bg_desc s i)), sys_loaded (bg_sector s i) s)"
    using ext2_get_bg_descriptor_run [OF Cons.prems(1,2), of "of_nat i"] Cons.prems(3) by (simp add: word_less_nat_alt)
  let ?t = "sys_loaded (bg_sector s i) s"
  have v: "bg_sector ?t = bg_sector s" "bg_desc ?t = bg_desc s"
    by (simp_all add: bg_sector_def bg_desc_def fun_eq_iff)
  then have "best_step f ?t = best_step f s"
    by (simp add: best_step_def fun_eq_iff)
  then show ?case
    using Cons.IH [of ?t "best_step f s i mg"] Cons.prems v
    by (auto simp: bnd_Inr get best_step_def sys_loaded_with split: prod.split)
qed

section \<open>The whole function\<close>

text \<open>The group it takes, the first clear bit of its inode bitmap, and what has to lie in the volume.\<close>

definition free_inode :: "fs \<Rightarrow> nat \<Rightarrow> nat \<Rightarrow> bool" where
  "free_inode s g k \<longleftrightarrow> fullest bg_free_inodes_count s (unat (cx_num_blockgroups (ctx s))) g
     \<and> bg_free_inodes_count (bg_desc s g) \<noteq> 0 \<and> k div 8 < unat (s_inodes_per_group (sb s)) div 8
     \<and> \<not> bitmap_bit s (bg_inode_bitmap (bg_desc s g)) k \<and> (\<forall>j<k. bitmap_bit s (bg_inode_bitmap (bg_desc s g)) j)"

definition inode_bitmap_sector :: "fs \<Rightarrow> nat \<Rightarrow> nat \<Rightarrow> nat" where
  "inode_bitmap_sector s g k = unat (bg_inode_bitmap (bg_desc s g)) * spb s + k div 4096"

definition alloc_inode_ok :: "fs \<Rightarrow> nat \<Rightarrow> bool" where
  "alloc_inode_ok s g \<longleftrightarrow> map_state s \<and> (\<forall>i<unat (cx_num_blockgroups (ctx s)). in_part s (bg_sector s i))
     \<and> blk_ok s (bg_inode_bitmap (bg_desc s g)) \<and> unat (s_inodes_per_group (sb s)) \<le> 8 * bsize s
     \<and> tables_ok s g \<and> wf_superblock (sb s)
     \<and> (\<forall>i < unat (cx_num_superblocks (ctx s)). in_part s (copy_sector s i))
     \<and> inj_on (copy_sector s) {..<unat (cx_num_superblocks (ctx s))}"

definition copy_sectors :: "fs \<Rightarrow> nat set" where
  "copy_sectors s = copy_sector s ` {..<unat (cx_num_superblocks (ctx s))}"

lemma map_state_with_sysbuf [simp]: "map_state (with_sysbuf x s) = map_state s"
  by (simp add: map_state_def)

lemma bitmap_with_sysbuf [simp]:
  "bitmap_byte (with_sysbuf x s) = bitmap_byte s" "bitmap_bit (with_sysbuf x s) = bitmap_bit s"
  "blk_ok (with_sysbuf x s) = blk_ok s" "bg_sector (with_sysbuf x s) = bg_sector s" "bg_desc (with_sysbuf x s) = bg_desc s"
  by (simp_all add: fun_eq_iff bitmap_bit_def bitmap_byte_def blk_ok_def bg_sector_def bg_desc_def)

lemma most_free_run:
  assumes s: "pc_ok (dev s)" "unat (s_log_block_size (sb s)) \<le> 2"
    and inp: "\<forall>i<unat (cx_num_blockgroups (ctx s)). in_part s (bg_sector s i)"
    and g: "fullest f s (unat (cx_num_blockgroups (ctx s))) g" "f (bg_desc s g) \<noteq> 0"
  shows "\<exists>x. most_free_group f s = Inr ((uint (f (bg_desc s g)), of_nat g), with_sysbuf x s)"
proof -
  let ?n = "unat (cx_num_blockgroups (ctx s))"
  have "\<forall>i\<in>set [0..<?n]. i < ?n \<and> in_part s (bg_sector s i)"
    using inp by simp
  from most_free_fold [OF s this, of f "(0, 0)"] obtain x where "most_free_group f s
      = Inr (fold (best_step f s) [0..<?n] (0, 0), with_sysbuf x s)"
    by (auto simp: most_free_group_def)
  moreover have "fold (best_step f s) [0..<?n] (0, 0) = (uint (f (bg_desc s g)), of_nat g)"
    using best_fold [OF g order_refl] g(1) by (simp add: fullest_def)
  ultimately show ?thesis
    by auto
qed

text \<open>After the bitmap: the descriptor is patched in memory and the superblock copies are written.\<close>

lemma count_inode_run:
  assumes s: "pc_ok (dev s)" "unat (s_log_block_size (sb s)) \<le> 2" "wf_superblock (sb s)" "length (cx_sysbuf (ctx s)) = 512"
    and g: "g < unat (cx_num_blockgroups (ctx s))" "tables_ok s g" "wf_block_group_descriptor bg"
    and c: "\<forall>i < unat (cx_num_superblocks (ctx s)). in_part s (copy_sector s i)"
    "inj_on (copy_sector s) {..<unat (cx_num_superblocks (ctx s))}"
  shows "\<exists>t n x. bnd (ext2_write_bg_descriptor bg (of_nat g)) (\<lambda>_. seq (upd_sb (s_free_inodes_count_update (\<lambda>n. n - 1)))
       (bnd ext2_flush_superblock (\<lambda>_. ret 0))) s = Inr (0 :: int, t)
    \<and> pc_ok (dev t) \<and> in_part t = in_part s \<and> fe t = fe s \<and> static_de t = static_de s
    \<and> ctx t = (ctx s)\<lparr>cx_superblock := (sb s)\<lparr>s_free_inodes_count := s_free_inodes_count (sb s) - 1, s_block_group_nr := n\<rparr>,
                  cx_sysbuf := x\<rparr>
    \<and> (\<forall>m. in_part s m \<and> m \<notin> copy_sectors s \<longrightarrow> part_sector t m = part_sector s m)"
proof -
  have gw: "unat (of_nat g :: u32) = g"
    using g(1) unat_lt32 [of "cx_num_blockgroups (ctx s)"] by (intro unat_of_nat32) simp
  obtain y where y: "ext2_write_bg_descriptor bg (of_nat g) s = Inr (0, with_sysbuf y s)" "length y = 512"
    using ext2_write_bg_descriptor_len [OF s(1,2), of "of_nat g" bg] s(4) g gw by (auto simp: word_less_nat_alt)
  let ?u = "ctx_update (cx_superblock_update (s_free_inodes_count_update (\<lambda>n. n - 1))) (with_sysbuf y s)"
  have u: "ctx ?u = (ctx s)\<lparr>cx_superblock := (sb s)\<lparr>s_free_inodes_count := s_free_inodes_count (sb s) - 1\<rparr>, cx_sysbuf := y\<rparr>"
    "fe ?u = fe s" "dev ?u = dev s" "in_part ?u = in_part s" "part_sector ?u = part_sector s" "copy_sector ?u = copy_sector s"
    "static_de ?u = static_de s"
    by (simp_all add: with_sysbuf_def part_sector_def in_part_def copy_sector_def spb_def fun_eq_iff)
  have "wf_superblock (sb ?u)"
    using s(3) by (simp add: u wf_superblock_def)
  then obtain t n x where t: "ext2_flush_superblock ?u = Inr (0, t)" "copy_ok t" "in_part t = in_part s" "fe t = fe s \<and> static_de t = static_de s"
    "ctx t = (ctx ?u)\<lparr>cx_superblock := (sb ?u)\<lparr>s_block_group_nr := n\<rparr>, cx_sysbuf := x\<rparr>"
    "\<forall>m. in_part s m \<and> m \<notin> copy_sectors s \<longrightarrow> part_sector t m = part_sector s m"
    using ext2_flush_superblock_run [of ?u] s y(2) c by (auto simp: u copy_sectors_def)
  show ?thesis
    using t(1,2-6) by (intro exI [of _ t] exI [of _ n] exI [of _ x]) (simp add: y(1) bnd_Inr seq_Inr upd_sb_def copy_ok_def u)
qed

lemma ext2_allocate_inode_run:
  assumes ok: "alloc_inode_ok s g" and f: "free_inode s g k"
  shows "\<exists>t n x y. ext2_allocate_inode s = Inr (0, t)
    \<and> ctx t = (ctx s)\<lparr>cx_superblock := (sb s)\<lparr>s_free_inodes_count := s_free_inodes_count (sb s) - 1, s_block_group_nr := n\<rparr>,
                  cx_sysbuf := x\<rparr>
    \<and> fe t = (fe s)\<lparr>fe_inode_number := s_inodes_per_group (sb s) * of_nat g + of_nat k + 1, fe_buffer := y\<rparr>
    \<and> bo_dirty y = 0 \<and> pc_ok (dev t) \<and> in_part t = in_part s \<and> static_de t = static_de s
    \<and> (\<forall>m. in_part s m \<and> m \<notin> copy_sectors s \<longrightarrow> part_sector t m
         = (if m = inode_bitmap_sector s g k
            then patch (k div 8 mod 512) [bitmap_byte s (bg_inode_bitmap (bg_desc s g)) (k div 8) OR push_bit (k mod 8) 1] (part_sector s m)
            else part_sector s m))"
proof -
  let ?ipg = "s_inodes_per_group (sb s)" and ?b = "bg_inode_bitmap (bg_desc s g)" and ?q = "k div 8" and ?r = "k mod 8"
    and ?m = "inode_bitmap_sector s g k" and ?p = "part_sector s (bg_sector s g)"
  have o: "map_state s" "pc_ok (dev s)" "unat (s_log_block_size (sb s)) \<le> 2"
    using ok by (simp_all add: alloc_inode_ok_def map_state_def)
  have gn: "g < unat (cx_num_blockgroups (ctx s))"
    using f by (simp add: free_inode_def fullest_def)
  have gw: "unat (of_nat g :: u32) = g"
    using gn unat_lt32 [of "cx_num_blockgroups (ctx s)"] by (intro unat_of_nat32) simp
  have len: "length ?p = 512"
    using length_part_sector [OF o(2)] ok gn by (simp add: alloc_inode_ok_def)
  have wf: "wf_block_group_descriptor ((bg_desc s g)\<lparr>bg_free_inodes_count := c\<rparr>)" for c
  proof -
    have "g mod 16 < 16"
      by simp
    then have "wf_block_group_descriptor (bg_desc s g)"
      unfolding bg_desc_def by (intro wf_decode_block_group_descriptor) (simp add: len sizeof_block_group_descriptor_def)
    then show ?thesis
      by (simp add: wf_block_group_descriptor_def)
  qed
  obtain x where best: "most_free_group bg_free_inodes_count s
      = Inr ((uint (bg_free_inodes_count (bg_desc s g)), of_nat g), with_sysbuf x s)"
    using most_free_run [OF o(2,3), of bg_free_inodes_count g] ok f by (auto simp: alloc_inode_ok_def free_inode_def)
  have get: "ext2_get_bg_descriptor (of_nat g) (with_sysbuf x s) = Inr ((0, Some (bg_desc s g)), with_sysbuf ?p s)"
    using ext2_get_bg_descriptor_run [of "with_sysbuf x s" "of_nat g"] o gn gw ok
    by (simp add: word_less_nat_alt alloc_inode_ok_def sys_loaded_with)
  have "k div 8 < unat ?ipg div 8" "unat ?ipg \<le> 8 * bsize s" "bsize s = 512 * spb s"
    using f ok by (simp_all add: free_inode_def alloc_inode_ok_def bsize_def spb_def)
  then have q: "?q < 512 * spb s" "?q < 2 ^ 32" "?q < unat (?ipg div 8)" "?q < unat ?ipg"
    using unat_lt32 [of ?ipg] by (simp_all add: unat_div32)
  have scan: "scan_bitmap ?b (unat (?ipg div 8)) 0 None (with_sysbuf ?p s)
      = Inr ((of_nat ?q, Some (?r, bitmap_byte s ?b ?q)), loaded ?m (with_sysbuf ?p s))"
    using scan_found [of "with_sysbuf ?p s" ?b ?q ?r 0 "unat (?ipg div 8)" None] o(1) ok f q
    by (simp add: alloc_inode_ok_def free_inode_def inode_bitmap_sector_def div_mult2_eq [symmetric])
  have "k div 4096 = ?q div 512"
    by (simp flip: div_mult2_eq)
  then have m: "in_part s ?m" "?q mod 512 + 1 \<le> 512"
    using blk_ok_in_part [of s ?b "?q div 512"] ok q(1) mod_less_divisor [of 512 ?q]
    by (simp_all add: alloc_inode_ok_def inode_bitmap_sector_def less_mult_imp_div_less mult.commute Suc_le_eq)
  let ?N = "?ipg * of_nat g + of_nat ?q * 8 + of_nat ?r + 1" and ?B = "[bitmap_byte s ?b ?q OR 2 ^ ?r]"
  let ?v = "(with_sysbuf ?p s)\<lparr>fe := (fe s)\<lparr>fe_inode_number := ?N\<rparr>\<rparr>"
  have number: "fe_update (fe_inode_number_update (\<lambda>_. ?N)) (loaded ?m (with_sysbuf ?p s)) = loaded ?m ?v"
    by (cases s; cases "fe s") (simp add: loaded_def with_sysbuf_def part_sector_def)
  have v: "dev ?v = dev s" "in_part ?v = in_part s" "part_sector ?v = part_sector s" "ctx ?v = ctx (with_sysbuf ?p s)"
    by (simp_all add: in_part_def part_sector_def fun_eq_iff)
  obtain u where u: "ext2_store_buffer (patched (?q mod 512) ?B (loaded ?m ?v)) = Inr (0, u)" "pc_ok (dev u)"
    "ctx u = ctx (with_sysbuf ?p s)" "in_part u = in_part s" "tables_ok u = tables_ok s" "copy_sector u = copy_sector s"
    "fe u = (fe s)\<lparr>fe_inode_number := ?N, fe_buffer := buf u\<rparr>" "bo_dirty (buf u) = 0 \<and> static_de u = static_de s"
    "\<And>n. in_part s n \<Longrightarrow> part_sector u n = (if n = ?m then patch (?q mod 512) ?B (part_sector s n) else part_sector s n)"
  proof
    let ?u = "stored (patched (?q mod 512) ?B (loaded ?m ?v))"
    show "ext2_store_buffer (patched (?q mod 512) ?B (loaded ?m ?v)) = Inr (0, ?u)" "pc_ok (dev ?u)"
      using stored_patched_run [of ?v ?m "?q mod 512" ?B] o(2) m v by simp_all
    show "part_sector ?u n = (if n = ?m then patch (?q mod 512) ?B (part_sector s n) else part_sector s n)"
      if "in_part s n" for n
      using stored_patched_sector [of ?v ?m "?q mod 512" ?B n] o(2) m v that by simp
  qed (simp_all add: stored_def patched_def loaded_def in_part_def fun_eq_iff tables_ok_def table_sector_def
      with_sysbuf_def spb_def copy_sector_def)
  have p: "unat (s_log_block_size (sb u)) \<le> 2" "wf_superblock (sb u)" "length (cx_sysbuf (ctx u)) = 512"
    "g < unat (cx_num_blockgroups (ctx u))" "tables_ok u g"
    "\<forall>i < unat (cx_num_superblocks (ctx u)). in_part u (copy_sector u i)"
    "inj_on (copy_sector u) {..<unat (cx_num_superblocks (ctx u))}"
    using ok o(3) gn len by (simp_all add: u(3-6) alloc_inode_ok_def)
  obtain t n y where t: "bnd (ext2_write_bg_descriptor ((bg_desc s g)\<lparr>bg_free_inodes_count :=
         bg_free_inodes_count (bg_desc s g) - 1\<rparr>) (of_nat g)) (\<lambda>_. seq (upd_sb (s_free_inodes_count_update (\<lambda>n. n - 1)))
       (bnd ext2_flush_superblock (\<lambda>_. ret 0))) u = Inr (0 :: int, t)"
    "pc_ok (dev t)" "in_part t = in_part u" "fe t = fe u \<and> static_de t = static_de u"
    "ctx t = (ctx u)\<lparr>cx_superblock := (sb u)\<lparr>s_free_inodes_count := s_free_inodes_count (sb u) - 1, s_block_group_nr := n\<rparr>,
                  cx_sysbuf := y\<rparr>"
    "\<forall>m. in_part u m \<and> m \<notin> copy_sectors u \<longrightarrow> part_sector t m = part_sector u m"
    using count_inode_run [OF u(2) p(1-5) wf p(6,7)] by blast
  have nz: "uint (bg_free_inodes_count (bg_desc s g)) \<noteq> 0" "?ipg div 8 \<noteq> 0" "of_nat ?q < ?ipg" "?r < 8"
    "unat (of_nat ?q :: u32) = ?q"
  proof -
    show e: "unat (of_nat ?q :: u32) = ?q"
      using q(2) by (intro unat_of_nat32) simp
    show "of_nat ?q < ?ipg"
      using q(4) by (simp add: word_less_nat_alt e)
    show "?ipg div 8 \<noteq> 0"
      using q(3) by (intro notI) simp
    show "uint (bg_free_inodes_count (bg_desc s g)) \<noteq> 0"
      using f by (simp add: free_inode_def uint_0_iff)
  qed simp
  have run: "ext2_allocate_inode s = Inr (0, t)"
    using m(2) nz by (simp add: ext2_allocate_inode_def bnd_Inr best get scan upd_fe_def number
        ext2_write_buffer_run u(1) t(1))
  have "of_nat ?q * 8 + of_nat ?r = (of_nat (?q * 8 + ?r) :: u32)"
    by (simp only: of_nat_add of_nat_mult of_nat_numeral)
  then have "of_nat ?q * 8 + of_nat ?r = (of_nat k :: u32)"
    by (simp only: div_mult_mod_eq)
  then have N: "?N = ?ipg * of_nat g + of_nat k + 1"
    by (simp add: add.assoc)
  show ?thesis
    using run t(2-6) u(3-8) u(9) by (intro exI [of _ t] exI [of _ n] exI [of _ y] exI [of _ "buf u"])
      (simp add: copy_sectors_def N with_sysbuf_def)
qed

section \<open>What the volume holds afterwards\<close>

lemma bitmap_bit_changed:
  assumes s: "pc_ok (dev s)" "blk_ok s b" and k: "k div 8 < bsize s" "j div 8 < bsize s" and v: "spb t = spb s"
    and sec: "\<And>m. m div spb s = unat b \<Longrightarrow> part_sector t m = (if m = unat b * spb s + k div 4096
        then patch (k div 8 mod 512) [bitmap_byte s b (k div 8) OR push_bit (k mod 8) 1] (part_sector s m) else part_sector s m)"
  shows "bitmap_bit t b j = (j = k \<or> bitmap_bit s b j)"
proof -
  have sz: "bsize s = 512 * spb s"
    by (simp add: bsize_def spb_def)
  have q: "i div 8 div 512 < spb s" if "i div 8 < bsize s" for i
    using that sz by (simp add: less_mult_imp_div_less mult.commute)
  have k4: "k div 4096 = k div 8 div 512"
    by (simp flip: div_mult2_eq)
  let ?m = "unat b * spb s + j div 8 div 512"
  have m: "?m div spb s = unat b"
    using q [OF k(2)] by (simp add: div_mult_self3 spb_def)
  have len: "length (part_sector s ?m) = 512"
    using blk_ok_in_part [OF s(2) q [OF k(2)]] s(1) by (intro length_part_sector)
  have same: "j div 8 = k div 8 \<longleftrightarrow> j div 8 div 512 = k div 8 div 512 \<and> j div 8 mod 512 = k div 8 mod 512"
    by (metis div_mult_mod_eq)
  have "k div 8 mod 512 + 1 \<le> 512"
    using mod_less_divisor [of 512 "k div 8"] by simp
  then have "patch (k div 8 mod 512) [x] (part_sector s ?m) ! (j div 8 mod 512)
      = (if j div 8 mod 512 = k div 8 mod 512 then x else part_sector s ?m ! (j div 8 mod 512))" for x
    using len by (subst patch_nth) (auto simp: le_less_Suc_eq)
  then have byte: "bitmap_byte t b (j div 8) = (if j div 8 = k div 8 then bitmap_byte s b (k div 8) OR push_bit (k mod 8) 1
      else bitmap_byte s b (j div 8))"
    using sec [OF m] same unfolding bitmap_byte_def v k4
    by (cases "j div 8 div 512 = k div 8 div 512"; cases "j div 8 mod 512 = k div 8 mod 512") simp_all
  have "j = k \<longleftrightarrow> j div 8 = k div 8 \<and> j mod 8 = k mod 8"
    by (metis div_mult_mod_eq)
  then show ?thesis
    using bit_changed(1) [of "k mod 8" "j mod 8" "bitmap_byte s b (k div 8)"] by (auto simp: bitmap_bit_def byte)
qed

lemma allocate_inode_bits:
  assumes ok: "alloc_inode_ok s g" and f: "free_inode s g k"
    and b: "b = bg_inode_bitmap (bg_desc s g)" "\<forall>m\<in>copy_sectors s. m div spb s \<noteq> unat b"
  shows "\<exists>t. ext2_allocate_inode s = Inr (0, t)
    \<and> fe_inode_number (fe t) = s_inodes_per_group (sb s) * of_nat g + of_nat k + 1
    \<and> (\<forall>j<8 * bsize s. bitmap_bit t b j = (j = k \<or> bitmap_bit s b j))
    \<and> (\<forall>m. in_part s m \<and> m \<notin> copy_sectors s \<and> m div spb s \<noteq> unat b \<longrightarrow> part_sector t m = part_sector s m)
    \<and> s_free_inodes_count (sb t) = s_free_inodes_count (sb s) - 1 \<and> pc_ok (dev t)"
proof -
  obtain t n x y where t: "ext2_allocate_inode s = Inr (0, t)"
    "ctx t = (ctx s)\<lparr>cx_superblock := (sb s)\<lparr>s_free_inodes_count := s_free_inodes_count (sb s) - 1, s_block_group_nr := n\<rparr>,
                  cx_sysbuf := x\<rparr>"
    "fe t = (fe s)\<lparr>fe_inode_number := s_inodes_per_group (sb s) * of_nat g + of_nat k + 1, fe_buffer := y\<rparr>"
    "pc_ok (dev t)" "in_part t = in_part s"
    "\<And>m. in_part s m \<Longrightarrow> m \<notin> copy_sectors s \<Longrightarrow> part_sector t m = (if m = inode_bitmap_sector s g k
       then patch (k div 8 mod 512) [bitmap_byte s b (k div 8) OR push_bit (k mod 8) 1] (part_sector s m)
       else part_sector s m)"
    using ext2_allocate_inode_run [OF ok f] unfolding b(1) by blast
  have s: "pc_ok (dev s)" "blk_ok s b" "k div 8 < bsize s" "spb t = spb s"
    using ok f t(2) by (auto simp: alloc_inode_ok_def free_inode_def map_state_def b(1) spb_def)
  have im: "inode_bitmap_sector s g k = unat b * spb s + k div 4096"
    by (simp add: inode_bitmap_sector_def b(1))
  have spb: "0 < spb s" "k div 4096 < spb s"
    using s(3) by (simp_all add: spb_def bsize_def less_mult_imp_div_less)
  have "in_part s m \<and> m \<notin> copy_sectors s" if "m div spb s = unat b" for m
  proof
    have "m = unat b * spb s + m mod spb s"
      using that by (metis div_mult_mod_eq)
    then show "in_part s m"
      using blk_ok_in_part [OF s(2), of "m mod spb s"] spb(1) by simp
    show "m \<notin> copy_sectors s"
      using b(2) that by blast
  qed
  then have "bitmap_bit t b j = (j = k \<or> bitmap_bit s b j)" if "j < 8 * bsize s" for j
    using that t(6) s by (intro bitmap_bit_changed) (simp_all add: im)
  moreover have "inode_bitmap_sector s g k div spb s = unat b"
    using spb by (simp add: im)
  then have "part_sector t m = part_sector s m" if "in_part s m" "m \<notin> copy_sectors s" "m div spb s \<noteq> unat b" for m
    using t(6) [OF that(1,2)] that(3) by auto
  moreover have "fe_inode_number (fe t) = s_inodes_per_group (sb s) * of_nat g + of_nat k + 1"
    "s_free_inodes_count (sb t) = s_free_inodes_count (sb s) - 1"
    by (simp_all add: t(2,3))
  ultimately show ?thesis
    using t(1,4) by (intro exI [of _ t] conjI allI impI) simp_all
qed

text \<open>C15: with a free inode in the group with the most of them, \<open>ext2_allocate_inode\<close> takes the first clear bit of
  that group's inode bitmap. On the disk this bit is set and no other of the bitmap changes, no sector but the bitmap's
  and those of the superblock copies is written (so the descriptors keep their counts), and the superblock in memory
  counts one inode less.\<close>

theorem allocate_inode_takes_the_first_clear_bit:
  assumes ok: "alloc_inode_ok s g" and f: "free_inode s g k"
    and b: "b = bg_inode_bitmap (bg_desc s g)" "\<forall>m\<in>copy_sectors s. m div spb s \<noteq> unat b"
  shows "\<exists>t. ext2_allocate_inode s = Inr (0, t)
    \<and> fe_inode_number (fe t) = s_inodes_per_group (sb s) * of_nat g + of_nat k + 1
    \<and> (\<forall>j<8 * bsize s. bitmap_bit t b j = (j = k \<or> bitmap_bit s b j))
    \<and> (\<forall>m. in_part s m \<and> m \<notin> copy_sectors s \<and> m div spb s \<noteq> unat b \<longrightarrow> part_sector t m = part_sector s m)
    \<and> s_free_inodes_count (sb t) = s_free_inodes_count (sb s) - 1 \<and> pc_ok (dev t)"
  using assms by (rule allocate_inode_bits)

lemma allocate_inode_takes_the_first_clear_bit_witness:
  "\<exists>t. ext2_allocate_inode demo_fs = Inr (0, t) \<and> fe_inode_number (fe t) = 4 \<and> bitmap_bit t 4 3
    \<and> s_free_inodes_count (sb t) = 4"
proof -
  have "alloc_inode_ok demo_fs 0"
    by (simp add: alloc_inode_ok_def map_state_def blk_ok_def tables_ok_def table_sector_def copy_sector_def inj_on_def)
  moreover have "\<forall>j<3. bit (7 :: u8) j"
    by (simp add: numeral_3_eq_3 less_Suc_eq all_conj_distrib)
  then have "free_inode demo_fs 0 3"
    by (simp add: free_inode_def fullest_def bitmap_bit_def bitmap_byte_def demo_sector_def)
  moreover have "\<forall>m\<in>copy_sectors demo_fs. m div spb demo_fs \<noteq> unat (4 :: u32)"
    by (simp add: copy_sectors_def copy_sector_def)
  ultimately show ?thesis
    using allocate_inode_takes_the_first_clear_bit [of demo_fs 0 3 4] by (auto simp: demo_super_fields)
qed

end
