(* ===== verification/Ext2_Create.thy ===== *)
theory Ext2_Create
  imports Ext2_Append Ext2_Alloc_Inode Ext2_Frame
begin

text \<open>
  Creating a file: \<open>ext2_open\<close> with \<open>O_CREAT\<close> allocates an inode, appends an entry for it to the directory and
  writes the inode. On the disk the path then leads to the new inode.
\<close>

unbundle bit_operations_syntax

section \<open>The name\<close>

lemma tokens_name:
  assumes "slash \<notin> set nm" "nm \<noteq> []"
  shows "tokens (slash # nm) = [nm]"
proof -
  obtain c cs where nm: "nm = c # cs"
    using assms(2) by (cases nm) auto
  have c: "c \<noteq> slash" and "\<forall>x\<in>set cs. x \<noteq> slash"
    using assms(1) by (auto simp: nm)
  then have tw: "takeWhile (\<lambda>c. c \<noteq> slash) cs = cs" "dropWhile (\<lambda>c. c \<noteq> slash) cs = []"
    by (simp_all add: takeWhile_eq_all_conv dropWhile_eq_Nil_conv)
  show ?thesis
    using c by (simp add: tw nm tokens.simps [of "slash # c # cs"] tokens.simps [of "[]"])
qed

lemma path_name:
  assumes "slash \<notin> set nm" "nm \<noteq> []" "length nm < 256"
  shows "path_elements (slash # nm) = [nm]" "split_name (slash # nm) = Some ([], nm)" "path_elements [] = []"
proof -
  have "take (MAX_PATH_LEN - 1) (slash # nm) = slash # nm"
    using assms(3) by (simp add: MAX_PATH_LEN_def)
  then show "path_elements (slash # nm) = [nm]"
    using assms by (simp add: path_elements_def tokens_name MAX_PATH_LEVELS_def)
  have "takeWhile (\<lambda>c. c \<noteq> slash) (rev nm @ [slash]) = rev nm" "dropWhile (\<lambda>c. c \<noteq> slash) (rev nm @ [slash]) = [slash]"
    using assms(1) by (simp_all add: takeWhile_append dropWhile_append)
  then show "split_name (slash # nm) = Some ([], nm)"
    by (simp add: split_name_def)
  show "path_elements [] = []"
    by (simp add: path_elements_def tokens.simps [of "[]"])
qed

section \<open>A directory through changes elsewhere\<close>

lemma entries_transfer:
  assumes sh: "same_shape n s t" and f: "\<forall>j<n. file_byte t j = file_byte s j" and e: "entries s a es e"
  shows "entries t a es e" "x \<in> set es \<Longrightarrow> entry_ino t x = entry_ino s x \<and> entry_name t x = entry_name s x
    \<and> entry_rec_len t x = entry_rec_len s x \<and> entry_name_len t x = entry_name_len s x \<and> header_at (file_byte t) x = header_at (file_byte s) x"
proof -
  have n: "unat (i_size (ino s)) = n"
    using sh by (simp add: same_shape_def)
  have keep: "header_ok t x \<and> name_ok t x \<and> used t x \<and> entry_ino t x = entry_ino s x \<and> entry_name t x = entry_name s x
      \<and> entry_rec_len t x = entry_rec_len s x \<and> entry_name_len t x = entry_name_len s x \<and> header_at (file_byte t) x = header_at (file_byte s) x"
    if x: "header_ok s x" "name_ok s x" "used s x" for x
  proof -
    have h: "header_at (file_byte t) x = header_at (file_byte s) x"
      using x(1) f n unfolding header_at_def header_ok_def by (intro arg_cong [where f = decode_dir_header] map_cong) auto
    have "map (file_byte t) [x + 8..<x + 8 + entry_name_len s x] = entry_name s x"
      using x(2) f n unfolding entry_name_def name_ok_def by (intro map_cong) auto
    then show ?thesis
      using entry_kept [OF sh x, of "dh_rec_len (header_at (file_byte s) x)"] h by (simp add: entry_header rec_len_at_def)
  qed
  show "entries t a es e"
    using e by (induction es arbitrary: a) (auto dest: keep)
  show "x \<in> set es \<Longrightarrow> entry_ino t x = entry_ino s x \<and> entry_name t x = entry_name s x
    \<and> entry_rec_len t x = entry_rec_len s x \<and> entry_name_len t x = entry_name_len s x \<and> header_at (file_byte t) x = header_at (file_byte s) x"
    using entries_header [OF e] keep by blast
qed

text \<open>Directory \<open>k\<close> when sectors in \<open>X\<close> change, none of which it occupies.\<close>

lemma dir_transfer:
  assumes s: "map_state s" and geo: "same_geometry s t" and di: "disk_inode t k = disk_inode s k"
    and l: "layout_ok (opened_inode k s) n" and sz: "unat (i_size (disk_inode s k)) = n"
    and p: "\<And>m. in_part s m \<Longrightarrow> m \<notin> X \<Longrightarrow> part_sector t m = part_sector s m"
    and x: "\<And>j. j < n \<Longrightarrow> byte_sector (opened_inode k s) j \<notin> X \<and> (\<forall>m\<in>X. undisturbed (opened_inode k s) m j)"
  shows "layout_ok (opened_inode k t) n" "same_shape n (opened_inode k s) (opened_inode k t)"
    "j < n \<Longrightarrow> file_byte (opened_inode k t) j = file_byte (opened_inode k s) j"
    "j < n \<Longrightarrow> byte_sector (opened_inode k t) j = byte_sector (opened_inode k s) j"
    "j < n \<Longrightarrow> undisturbed (opened_inode k t) m j = undisturbed (opened_inode k s) m j"
proof -
  let ?d = "opened_inode k s" and ?e = "opened_inode k t"
  have v: "part_sector ?d = part_sector s" "in_part ?d = in_part s" "part_sector ?e = part_sector t" "in_part ?e = in_part t"
    "dev ?d = dev s" "sb ?d = sb s" "sb ?e = sb t"
    using same_disk_sectors [OF opened_inode_same_disk] by simp_all
  have i: "ino ?e = ino ?d" "unat (i_size (ino ?d)) = n"
    using di sz by (simp_all add: opened_inode_def)
  have "map_state ?d"
    using s v(5,6) by (simp add: map_state_def opened_inode_def)
  moreover have "same_geometry ?d ?e"
    using geo v by (simp add: same_geometry_def opened_inode_def)
  moreover have "part_sector ?e m = part_sector ?d m" if "in_part ?d m" "m \<notin> X" for m
    using p that by (simp add: v)
  ultimately show tr: "layout_ok ?e n" "j < n \<Longrightarrow> file_byte ?e j = file_byte ?d j" "j < n \<Longrightarrow> byte_sector ?e j = byte_sector ?d j"
    "j < n \<Longrightarrow> undisturbed ?e m j = undisturbed ?d m j"
    using layout_transfer [of ?d n ?e X] l x i(1) by simp_all
  show "same_shape n ?d ?e"
    using tr(1) i unfolding same_shape_def layout_ok_def by simp
qed

section \<open>The steps of the call\<close>

definition new_inode :: "u32 \<Rightarrow> u16 \<Rightarrow> u16 \<Rightarrow> u32 \<Rightarrow> u32 \<Rightarrow> u32 \<Rightarrow> inode" where
  "new_inode mode u g a c m = \<lparr>i_mode = ucast mode OR EXT2_S_IFREG, i_uid = u, i_size = 0, i_atime = a, i_ctime = c,
     i_mtime = m, i_dtime = 0, i_gid = g, i_links_count = 1, i_blocks = 0, i_flags = 0, i_osd1 = 0,
     i_block = replicate 15 0, i_generation = 0, i_file_acl = 0, i_dir_acl = 0, i_faddr = 0, i_osd2 = replicate 12 0\<rparr>"

lemma init_inode_run:
  "\<exists>a c m k. init_inode mode s = Inr ((), s\<lparr>ticks := k, fe := (fe s)\<lparr>fe_inode := new_inode mode (uid s) (gid s) a c m\<rparr>\<rparr>)"
  by (cases s; cases "fe s"; cases "ino s") (simp add: init_inode_def bnd_Inr seq_Inr time_null_def upd_inode_def new_inode_def)

lemma ext2_open_creates:
  assumes m1: "malloc s = Inr (True, s1)" and f: "fe_update (\<lambda>_. zero_file_ent\<lparr>fe_magic := EMBEXT_MAGIC\<rparr>) s1 = s2"
    and look: "ext2_lookup_path n name s2 = Inr (-1, t1)" "ext2_open_inode (-1) t1 = Inr (-1, t1)" "rerrno t1 = ENOENT"
    and fl: "fl AND O_CREAT \<noteq> 0" "cx_read_only (ctx t1) = 0"
    and al: "ext2_allocate_inode (fe_update (fe_flags_update (\<lambda>x. x OR O_ACCESS_FLAGS fl)) t1) = Inr (0, t2)"
    and sp: "split_name name = Some (path, nm)" and m2: "malloc t2 = Inr (True, t3)" "malloc t3 = Inr (True, t4)"
    and ap: "ext2_append_to_directory n path (fe_inode_number (fe t4)) nm t4 = Inr (0, w1)"
    and ini: "init_inode (mode AND 0x1FF) (fe_update (\<lambda>_. fe t4) w1) = Inr ((), w2)"
    and flush: "ext2_flush_inode (fe_update (fe_flags_update (\<lambda>x. x OR EXT2_FLAG_FS_DIRTY) \<circ> fe_cursor_update (\<lambda>_. 0)) w2) = Inr (r, t)"
  shows "ext2_open (Suc n) name fl mode s = Inr (True, t)"
proof -
  have own: "own_fe (ext2_append_to_directory n path (fe_inode_number (fe t4)) nm) t4 = Inr (0, fe_update (\<lambda>_. fe t4) w1)"
    by (simp add: own_fe_def bnd_Inr ap)
  have e: "rerrno (fe_update g t1) = ENOENT" "cx_read_only (ctx (fe_update g t1)) = 0" for g
    using look(3) fl(2) by simp_all
  show ?thesis
    using fl
    by (simp add: bnd_Inr [of malloc, OF m1] bnd_Inr [of malloc, OF m2(1)] bnd_Inr [of malloc, OF m2(2)] f bnd_Inr [of "ext2_lookup_path n name", OF look(1)]
        bnd_Inr [of "ext2_open_inode (-1)", OF look(2)] set_flag_def upd_fe_def e bnd_Inr [of ext2_allocate_inode, OF al] sp
        bnd_Inr [of "own_fe m" for m, OF own] seq_Inr [of "init_inode (mode AND 0x1FF)", OF ini] bnd_Inr [of ext2_flush_inode, OF flush] Let_def)
qed

text \<open>Looking up the name that is not there.\<close>

lemma create_lookup:
  assumes s: "mounted_ok s" and p: "path_elements name = [nm]" and k: "inode_ok s EXT2_ROOT_INO"
    and none: "names_nothing (opened_inode EXT2_ROOT_INO (fresh s)) n nm"
  obtains t where "ext2_lookup_path n name (fresh s) = Inr (-1, t)" "ext2_open_inode (-1) t = Inr (-1, t)" "rerrno t = ENOENT"
    "same_disk s t" "lookup_state t" "heap_ok t = heap_ok s"
proof -
  have "inode_ok (fresh s) EXT2_ROOT_INO"
    using k same_disk_inodes(1) [OF fresh_state(1) [OF s]] by simp
  then obtain t where t: "ext2_lookup_path n name (fresh s) = Inr (-1, t)" "rerrno t = ENOENT" "same_disk (fresh s) t" "lookup_state t"
    using lookup_elements_missing [OF resolves.here fresh_state(2) [OF s] _ none, of "[]"] by (auto simp: ext2_lookup_path_def p)
  have d: "same_disk s t"
    using same_disk_trans [OF fresh_state(1) [OF s] t(3)] .
  have "s_inodes_count (sb t) < - 1" "s_inodes_per_group (sb t) \<noteq> 0"
    using s by (simp_all add: same_disk_sectors [OF d] mounted_ok_def word_less_nat_alt unsigned_minus_1_eq_mask mask_eq_exp_minus_1)
  then have "ext2_open_inode (- 1) t = Inr (-1, t)"
    by (simp add: ext2_open_inode_def bnd_Inr c_div_run c_mod_run)
  moreover have "heap_ok t = heap_ok s"
    using keepsD [OF keeps_lookup t(1)] by (simp add: same_fs_def fresh_def)
  ultimately show thesis
    using that t d by blast
qed

section \<open>The volume through the steps\<close>

lemma disk_inode_transfer:
  assumes geo: "same_geometry s t" and p: "part_sector t (bg_sector s (inode_group s i)) = part_sector s (bg_sector s (inode_group s i))"
    "part_sector t (inode_sector s i) = part_sector s (inode_sector s i)"
  shows "disk_inode t i = disk_inode s i"
  using inode_view [OF geo p(1)] p(2) by (simp add: disk_inode_def)

lemma dir_ok_transfer:
  assumes d: "dir_ok (opened_inode k s) n es bs" and s: "map_state s" and geo: "same_geometry s t"
    and p: "\<And>m. in_part s m \<Longrightarrow> m \<notin> X \<Longrightarrow> part_sector t m = part_sector s m"
    and x: "\<And>j. j < n \<Longrightarrow> byte_sector (opened_inode k s) j \<notin> X \<and> (\<forall>m\<in>X. undisturbed (opened_inode k s) m j)"
    and i: "inode_ok s k" "bg_sector s (inode_group s k) \<notin> X" "inode_sector s k \<notin> X"
  shows "dir_ok (opened_inode k t) n es bs" "same_shape n (opened_inode k s) (opened_inode k t)"
    "\<forall>j<n. file_byte (opened_inode k t) j = file_byte (opened_inode k s) j"
    "\<And>j. j < n \<Longrightarrow> byte_sector (opened_inode k t) j = byte_sector (opened_inode k s) j
       \<and> (\<forall>m. undisturbed (opened_inode k t) m j = undisturbed (opened_inode k s) m j)"
proof -
  let ?d = "opened_inode k s" and ?e = "opened_inode k t"
  have o: "unat (i_size (disk_inode s k)) = n" "n < 2 ^ 31" "n mod bsize ?d = 0" "bsize ?d \<le> n" "layout_ok ?d n" "inode_apart ?d n"
    "entries ?d 0 (es @ bs) n" "bs \<noteq> []" "hd bs = n - bsize ?d" "\<forall>x\<in>set bs. x mod 512 + 8 \<le> 512"
    "\<forall>x\<in>set (es @ bs). 8 + entry_name_len ?d x \<le> entry_rec_len ?d x"
    using d by (simp_all add: dir_ok_def dir_file_def opened_inode_def)
  have at: "in_part s (bg_sector s (inode_group s k))" "in_part s (inode_sector s k)"
    using i(1) by (simp_all add: inode_ok_def)
  note bg = p [OF at(1) i(2)]
  note di = disk_inode_transfer [OF geo bg p [OF at(2) i(3)]] and iv = inode_view [OF geo bg]
  note tr = dir_transfer [OF s geo di o(5,1) p x]
  show sh: "same_shape n ?d ?e" and fb: "\<forall>j<n. file_byte ?e j = file_byte ?d j"
    "\<And>j. j < n \<Longrightarrow> byte_sector ?e j = byte_sector ?d j \<and> (\<forall>m. undisturbed ?e m j = undisturbed ?d m j)"
    using tr(2-5) by blast+
  have bs: "bsize ?e = bsize ?d" "bsize ?d = bsize s"
    using geo same_disk_sectors(6) [OF opened_inode_same_disk, of k t] same_disk_sectors(6) [OF opened_inode_same_disk, of k s]
    by (simp_all add: bsize_def same_geometry_def)
  note g = inode_sector_same_disk [OF opened_inode_same_disk, of k s] same_disk_inodes(1) [OF opened_inode_same_disk, of k s]
    and h = inode_sector_same_disk [OF opened_inode_same_disk, of k t] same_disk_inodes(1) [OF opened_inode_same_disk, of k t]
  have "fe_inode_number (fe ?d) = k" "fe_inode_number (fe ?e) = k"
    by (simp_all add: opened_inode_def)
  then have "inode_apart ?e n"
    using o(6) fb(2) i(1) by (simp add: inode_apart_def Let_def g h iv)
  moreover have "\<forall>x\<in>set (es @ bs). 8 + entry_name_len ?e x \<le> entry_rec_len ?e x"
    using entries_transfer(2) [OF sh fb(1) o(7)] o(11) by simp
  ultimately show "dir_ok ?e n es bs"
    using o(2-4,8-10) tr(1) entries_transfer(1) [OF sh fb(1) o(7)] sh by (simp add: dir_ok_def dir_file_def bs same_shape_def)
qed

text \<open>Allocation only looks at the disk.\<close>

lemma alloc_same_disk:
  assumes "same_disk s t" "map_state t"
  shows "alloc_inode_ok s g \<Longrightarrow> alloc_inode_ok t g" "free_inode t g k = free_inode s g k" "copy_sectors t = copy_sectors s"
    "inode_bitmap_sector t g k = inode_bitmap_sector s g k"
proof -
  note v = same_disk_sectors [OF assms(1)] and bg = inode_sector_same_disk(2) [OF assms(1)]
  have c: "cx_num_blockgroups (ctx t) = cx_num_blockgroups (ctx s)" "cx_num_superblocks (ctx t) = cx_num_superblocks (ctx s)"
    "cx_superblock_blocks (ctx t) = cx_superblock_blocks (ctx s)"
    using assms(1) by (auto simp: same_disk_def)
  have d: "bg_desc t = bg_desc s" "bitmap_bit t = bitmap_bit s" "copy_sector t = copy_sector s" "tables_ok t = tables_ok s"
    by (simp_all add: fun_eq_iff bg_desc_def bg v bitmap_bit_def bitmap_byte_def copy_sector_def tables_ok_def table_sector_def c)
  show "alloc_inode_ok s g \<Longrightarrow> alloc_inode_ok t g"
    using assms(2) by (simp add: alloc_inode_ok_def v bg c d)
  show "free_inode t g k = free_inode s g k" "copy_sectors t = copy_sectors s" "inode_bitmap_sector t g k = inode_bitmap_sector s g k"
    by (simp_all add: free_inode_def fullest_def copy_sectors_def inode_bitmap_sector_def v c d)
qed

lemma flushed_other_sector:
  assumes s: "map_state s" and ok: "inode_ok s (fe_inode_number (fe s))" and wf: "wf_inode (ino s)"
    and bg: "inode_sector s (fe_inode_number (fe s)) \<noteq> bg_sector s (inode_group s j)"
    and j: "inode_ok s j" "inode_sector s j \<noteq> inode_sector s (fe_inode_number (fe s))"
  shows "disk_inode (flushed_inode s) j = disk_inode s j"
proof -
  have "same_geometry s (flushed_inode s)"
    by (simp add: same_geometry_def)
  moreover have "in_part s (bg_sector s (inode_group s j))" "in_part s (inode_sector s j)"
    using j(1) by (simp_all add: inode_ok_def)
  ultimately show ?thesis
    using flushed_sectors(1) [OF s ok wf] bg j(2) by (intro disk_inode_transfer) auto
qed

section \<open>From the allocation on\<close>

text \<open>The sectors the allocation writes, and what has to lie apart: they, the descriptors, the sectors of the
  directory's inode and of the new one, and the sectors of the directory.\<close>

definition alloc_sectors :: "fs \<Rightarrow> nat \<Rightarrow> nat \<Rightarrow> nat set" where
  "alloc_sectors s g k = insert (inode_bitmap_sector s g k) (copy_sectors s)"

definition create_apart :: "fs \<Rightarrow> u32 \<Rightarrow> nat \<Rightarrow> u32 \<Rightarrow> nat set \<Rightarrow> bool" where
  "create_apart s r n i X \<longleftrightarrow> (let d = opened_inode r s; tables = {bg_sector s (inode_group s r), bg_sector s (inode_group s i)} in
     tables \<inter> X = {} \<and> inode_sector s r \<notin> X \<union> tables \<and> inode_sector s i \<notin> tables
     \<and> (inode_group s i = inode_group s r \<or> inode_sector s i \<noteq> inode_sector s r)
     \<and> (\<forall>j<n. byte_sector d j \<notin> X \<union> tables \<union> {inode_sector s i} \<and> (\<forall>m\<in>insert (inode_sector s i) X. undisturbed d m j)))"

lemma create_allocates:
  assumes s: "mounted_ok s" "\<forall>c. heap_ok s c" and t: "same_disk s t" "lookup_state t" "heap_ok t = heap_ok s"
    and al: "alloc_inode_ok s g" "free_inode s g k"
    and i: "i = s_inodes_per_group (sb s) * of_nat g + of_nat k + 1"
  shows "\<exists>u v. ext2_allocate_inode t = Inr (0, u) \<and> malloc u = Inr (True, v) \<and> malloc v = Inr (True, v\<lparr>mallocs := Suc (mallocs v)\<rparr>)
    \<and> same_disk u (v\<lparr>mallocs := Suc (mallocs v)\<rparr>)
    \<and> fe_inode_number (fe v) = i \<and> bo_dirty (buf v) = 0 \<and> fe_magic (fe v) = EMBEXT_MAGIC \<and> mounted_ok (v\<lparr>mallocs := Suc (mallocs v)\<rparr>)
    \<and> cx_read_only (ctx v) = cx_read_only (ctx s) \<and> same_geometry s (v\<lparr>mallocs := Suc (mallocs v)\<rparr>)
    \<and> (\<forall>m. in_part s m \<and> m \<notin> alloc_sectors s g k \<longrightarrow> part_sector (v\<lparr>mallocs := Suc (mallocs v)\<rparr>) m = part_sector s m)"
proof -
  have ms: "map_state t"
    using t(2) by (simp add: lookup_state_def)
  note v = same_disk_sectors [OF t(1)] and a = alloc_same_disk [OF t(1) ms]
  have at: "alloc_inode_ok t g" "free_inode t g k"
    using a al by simp_all
  obtain u n x y where u: "ext2_allocate_inode t = Inr (0, u)"
    "ctx u = (ctx t)\<lparr>cx_superblock := (sb t)\<lparr>s_free_inodes_count := s_free_inodes_count (sb t) - 1, s_block_group_nr := n\<rparr>, cx_sysbuf := x\<rparr>"
    "fe u = (fe t)\<lparr>fe_inode_number := i, fe_buffer := y\<rparr>" "bo_dirty y = 0" "pc_ok (dev u)" "in_part u = in_part t"
    "static_de u = static_de t"
    "\<And>m. in_part t m \<Longrightarrow> m \<notin> copy_sectors t \<Longrightarrow> m \<noteq> inode_bitmap_sector t g k \<Longrightarrow> part_sector u m = part_sector t m"
    using ext2_allocate_inode_run [OF at] unfolding i v by force
  have heap: "heap_ok u = heap_ok s"
    using keepsD [OF keeps_allocate(2) u(1)] t(3) by (simp add: same_fs_def)
  let ?v = "u\<lparr>mallocs := Suc (mallocs u)\<rparr>" and ?w = "u\<lparr>mallocs := Suc (Suc (mallocs u))\<rparr>"
  have w: "ctx ?w = ctx u" "dev ?w = dev u" "part_sector ?w = part_sector u" "in_part ?w = in_part u" "static_de ?w = static_de u"
    by (simp_all add: part_sector_def in_part_def fun_eq_iff)
  obtain z where z: "ctx t = (ctx s)\<lparr>cx_sysbuf := z\<rparr>"
    using t(1) by (auto simp: same_disk_def)
  have "malloc u = Inr (True, ?v)" "malloc ?v = Inr (True, ?w)"
    using s(2) heap by (simp_all add: malloc_def)
  moreover have "same_disk u ?w"
    by (auto simp: same_disk_def intro!: exI [of _ "cx_sysbuf (ctx u)"])
  moreover have "mounted_ok ?w"
    using s heap t(2) u(5) by (simp add: mounted_ok_def w u(2,7) z lookup_state_def)
  moreover have "same_geometry s ?w"
    by (simp add: same_geometry_def w u(2,6) v z)
  moreover have "part_sector ?w m = part_sector s m" if "in_part s m" "m \<notin> alloc_sectors s g k" for m
    using u(8) [of m] that by (simp add: alloc_sectors_def a(3,4) v w)
  ultimately show ?thesis
    using u(1,2,3,4) z t(2) by (intro exI [of _ u] exI [of _ ?v]) (simp add: lookup_state_def)
qed

lemma create_appends:
  assumes s: "map_state s" "mounted_ok t" "cx_read_only (ctx t) = 0" "same_geometry s t"
    and p: "\<And>m. in_part s m \<Longrightarrow> m \<notin> X \<Longrightarrow> part_sector t m = part_sector s m"
    and r: "r = EXT2_ROOT_INO" "inode_ok s r" and i: "inode_ok s i" and ap: "create_apart s r dsz i X"
    and d: "dir_ok (opened_inode r s) dsz es bs" and len: "length bs \<le> Suc n"
    and room: "has_room (file_byte (opened_inode r s)) dsz (last bs) nm" and pos: "0 < sint i"
  shows "\<exists>w c. ext2_append_to_directory (Suc (Suc n)) [] i nm t = Inr (0, w) \<and> pc_ok (dev w) \<and> same_geometry s w
    \<and> unat (s_log_block_size (sb w)) \<le> 2 \<and> inode_ok w r \<and> inode_ok w i \<and> inode_group w i = inode_group s i \<and> inode_group w r = inode_group s r
    \<and> inode_sector w i = inode_sector s i \<and> inode_sector w r = inode_sector s r \<and> bg_sector w = bg_sector s
    \<and> layout_ok (opened_inode r w) dsz \<and> unat (i_size (disk_inode w r)) = dsz
    \<and> (\<forall>j<dsz. byte_sector (opened_inode r w) j \<noteq> inode_sector s i \<and> undisturbed (opened_inode r w) (inode_sector s i) j)
    \<and> entries (opened_inode r w) 0 (es @ bs @ [c]) dsz \<and> entry_ino (opened_inode r w) c = i \<and> entry_name (opened_inode r w) c = nm
    \<and> (\<forall>x\<in>set (es @ bs). entry_ino (opened_inode r w) x = entry_ino (opened_inode r s) x
         \<and> entry_name (opened_inode r w) x = entry_name (opened_inode r s) x)"
proof -
  let ?d = "opened_inode r s" and ?e = "opened_inode r t"
  have x: "byte_sector ?d j \<notin> X \<and> (\<forall>m\<in>X. undisturbed ?d m j)" "byte_sector ?d j \<noteq> inode_sector s i \<and> undisturbed ?d (inode_sector s i) j"
    "byte_sector ?d j \<noteq> bg_sector s (inode_group s i)" if "j < dsz" for j
    using ap that by (simp_all add: create_apart_def Let_def)
  have bg: "bg_sector s (inode_group s r) \<notin> X" "bg_sector s (inode_group s i) \<notin> X" "inode_sector s r \<notin> X"
    "inode_sector s r \<noteq> bg_sector s (inode_group s i)"
    using ap by (auto simp: create_apart_def Let_def)
  have tr: "dir_ok ?e dsz es bs" "same_shape dsz ?d ?e" "\<forall>j<dsz. file_byte ?e j = file_byte ?d j"
    "\<And>j. j < dsz \<Longrightarrow> byte_sector ?e j = byte_sector ?d j \<and> (\<forall>m. undisturbed ?e m j = undisturbed ?d m j)"
    by (rule dir_ok_transfer [OF d s(1,4) _ _ r(2) bg(1,3)]; use p x(1) in blast)+
  have at: "in_part s (bg_sector s (inode_group s i))" "in_part s (bg_sector s (inode_group s r))"
    using i r(2) by (simp_all add: inode_ok_def)
  note ir = inode_view [OF s(4) p [OF at(2) bg(1)]] and ii = inode_view [OF s(4) p [OF at(1) bg(2)]]
  have ok: "inode_ok t r" "entries ?d 0 (es @ bs) dsz"
    using r(2) ir d by (simp_all add: dir_ok_def dir_file_def)
  have "last bs \<in> set (es @ bs)"
    using d by (simp add: dir_ok_def dir_file_def)
  then have "header_at (file_byte ?e) (last bs) = header_at (file_byte ?d) (last bs)"
    using entries_transfer(2) [OF tr(2,3) ok(2)] by simp
  then have room': "has_room (file_byte ?e) dsz (last bs) nm"
    using room by (simp add: has_room_def rec_len_at_def new_pos_def)
  have "resolves (fresh t) n EXT2_ROOT_INO (path_elements []) r"
    using path_name(3) [of "[0]"] by (simp add: r(1) resolves_Nil slash_def)
  from append_to_directory_run [OF s(2,3) this ok(1) tr(1) refl room' len, of i] obtain w z where
    w: "ext2_append_to_directory (Suc (Suc n)) [] i nm t = Inr (0, w)" "ctx w = (ctx t)\<lparr>cx_sysbuf := z\<rparr>" "pc_ok (dev w)"
      "in_part w = in_part t" "inode_ok w r" "same_shape dsz ?e (opened_inode r w)"
      "\<forall>j<dsz. file_byte (opened_inode r w) j = appended dsz (last bs) i nm (file_byte ?e) j" "layout_ok (opened_inode r w) dsz"
      "\<forall>j<dsz. byte_sector (opened_inode r w) j = byte_sector ?e j \<and> (\<forall>x. undisturbed (opened_inode r w) x j = undisturbed ?e x j)"
      "\<forall>m. in_part t m \<and> m \<notin> byte_sector ?e ` {..<dsz} \<and> m \<noteq> inode_sector t r \<longrightarrow> part_sector w m = part_sector t m"
    by blast
  have geo: "same_geometry t w" "same_geometry s w"
    using s(4) by (simp_all add: same_geometry_def w(2,4))
  have sec: "part_sector w (bg_sector s (inode_group s i)) = part_sector t (bg_sector t (inode_group t i))"
    "part_sector w (bg_sector s (inode_group s r)) = part_sector t (bg_sector t (inode_group t r))"
  proof -
    have "bg_sector s (inode_group s i) \<noteq> byte_sector ?e j" "bg_sector s (inode_group s r) \<noteq> byte_sector ?e j" if "j < dsz" for j
      using ap that tr(4) [OF that] by (auto simp: create_apart_def Let_def)
    then have "bg_sector s (inode_group s i) \<notin> byte_sector ?e ` {..<dsz}" "bg_sector s (inode_group s r) \<notin> byte_sector ?e ` {..<dsz}"
      by auto
    moreover have "inode_sector s r \<noteq> bg_sector s (inode_group s r)"
      using ap by (auto simp: create_apart_def Let_def)
    ultimately show "part_sector w (bg_sector s (inode_group s i)) = part_sector t (bg_sector t (inode_group t i))"
      "part_sector w (bg_sector s (inode_group s r)) = part_sector t (bg_sector t (inode_group t r))"
      using w(10) at bg(4) s(4) by (simp_all add: ir ii same_geometry_def)
  qed
  have v: "inode_group w i = inode_group s i" "inode_sector w i = inode_sector s i" "inode_ok w i" "bg_sector w = bg_sector s"
    "inode_group w r = inode_group s r" "inode_sector w r = inode_sector s r"
    using inode_view [OF geo(1), of i] inode_view [OF geo(1), of r] sec i by (simp_all add: ii ir)
  have log: "unat (s_log_block_size (sb w)) \<le> 2"
    using s(2) by (simp add: w(2) mounted_ok_def)
  have bs: "es @ bs = (es @ butlast bs) @ [last bs]"
    using d by (simp add: dir_ok_def dir_file_def)
  have e: "entries ?e 0 ((es @ butlast bs) @ [last bs]) dsz" "\<forall>x\<in>set (es @ butlast bs). 8 + entry_name_len ?e x \<le> entry_rec_len ?e x"
    using tr(1) unfolding bs [symmetric] by (auto simp: dir_ok_def dir_file_def dest: in_set_butlastD)
  note a = entries_appended [OF w(6) room' pos w(7) e]
  have list: "(es @ butlast bs) @ [last bs, c] = es @ bs @ [c]" for c
    using bs by simp
  have kept: "entry_ino (opened_inode r w) x = entry_ino ?d x \<and> entry_name (opened_inode r w) x = entry_name ?d x"
    if "x \<in> set (es @ bs)" for x
    using a(2) [of x] that entries_transfer(2) [OF tr(2,3) ok(2) that] unfolding bs by simp
  have size: "unat (i_size (disk_inode w r)) = dsz"
    using w(6) by (simp add: same_shape_def opened_inode_def)
  show ?thesis
    using w(1,3,5,8,9) geo(2) log v size a(1,3,4) kept tr(4) x(2) unfolding list
    by (intro exI [of _ w] exI [of _ "new_pos (file_byte ?e) (last bs)"]) (simp del: ext2_append_to_directory.simps)
qed

lemma create_flushes:
  assumes w: "map_state w" "inode_ok w (fe_inode_number (fe w))" "wf_inode (ino w)" "fe_flags (fe w) AND EXT2_FLAG_FS_DIRTY \<noteq> 0"
    and r: "inode_ok w r" "r \<noteq> fe_inode_number (fe w)"
    and ap: "inode_sector w (fe_inode_number (fe w)) \<noteq> bg_sector w (inode_group w (fe_inode_number (fe w)))"
    "inode_sector w (fe_inode_number (fe w)) \<noteq> bg_sector w (inode_group w r)"
    "inode_group w r = inode_group w (fe_inode_number (fe w)) \<or> inode_sector w r \<noteq> inode_sector w (fe_inode_number (fe w))"
    and d: "layout_ok (opened_inode r w) n" "unat (i_size (disk_inode w r)) = n" "entries (opened_inode r w) 0 xs n"
    "\<forall>j<n. byte_sector (opened_inode r w) j \<noteq> inode_sector w (fe_inode_number (fe w))
        \<and> undisturbed (opened_inode r w) (inode_sector w (fe_inode_number (fe w))) j"
  defines "t \<equiv> flushed_inode w"
  shows "ext2_flush_inode w = Inr (0, t)" "disk_inode t (fe_inode_number (fe w)) = ino w" "inode_ok t (fe_inode_number (fe w))"
    "inode_ok t r" "entries (opened_inode r t) 0 xs n"
    "\<forall>x\<in>set xs. entry_ino (opened_inode r t) x = entry_ino (opened_inode r w) x
       \<and> entry_name (opened_inode r t) x = entry_name (opened_inode r w) x"
    "ino t = ino w" "fe_inode_number (fe t) = fe_inode_number (fe w)" "fe_cursor (fe t) = fe_cursor (fe w)"
    "fe_magic (fe t) = fe_magic (fe w)"
proof -
  let ?i = "fe_inode_number (fe w)"
  show "ext2_flush_inode w = Inr (0, t)"
    unfolding t_def by (rule ext2_flush_inode_run [OF w])
  note fl = flushed_sectors [OF w(1-3)]
  show "disk_inode t ?i = ino w" "inode_ok t ?i"
    using disk_inode_flushed [OF w(1-3) ap(1), of ?i] w(2) by (simp_all add: t_def)
  have geo: "same_geometry w t"
    by (simp add: same_geometry_def t_def)
  have di: "disk_inode t r = disk_inode w r"
    using ap(3) disk_inode_flushed(1) [OF w(1-3) ap(1) r(1)] flushed_other_sector [OF w(1-3) ap(2) r(1)] r(2) by (auto simp: t_def)
  have at: "in_part w (bg_sector w (inode_group w r))"
    using r(1) by (simp add: inode_ok_def)
  have same: "part_sector t m = part_sector w m" if "in_part w m" "m \<notin> {inode_sector w ?i}" for m
    using fl(1) that by (simp add: t_def)
  show "inode_ok t r"
    using inode_view(5) [OF geo same [OF at]] r(1) ap(2) by simp
  have x: "byte_sector (opened_inode r w) j \<notin> {inode_sector w ?i} \<and> (\<forall>m\<in>{inode_sector w ?i}. undisturbed (opened_inode r w) m j)"
    if "j < n" for j
    using d(4) that by simp
  have "same_shape n (opened_inode r w) (opened_inode r t)"
    by (rule dir_transfer(2) [OF w(1) geo di d(1,2), where X = "{inode_sector w ?i}"]; use same x in blast)
  moreover have "file_byte (opened_inode r t) j = file_byte (opened_inode r w) j" if "j < n" for j
    by (rule dir_transfer(3) [OF w(1) geo di d(1,2) _ _ that, where X = "{inode_sector w ?i}"]; use same x in blast)
  ultimately have tr: "same_shape n (opened_inode r w) (opened_inode r t)" "\<forall>j<n. file_byte (opened_inode r t) j = file_byte (opened_inode r w) j"
    by simp_all
  show "entries (opened_inode r t) 0 xs n"
    "\<forall>x\<in>set xs. entry_ino (opened_inode r t) x = entry_ino (opened_inode r w) x
       \<and> entry_name (opened_inode r t) x = entry_name (opened_inode r w) x"
    using entries_transfer [OF tr d(3)] by simp_all
  show "ino t = ino w" "fe_inode_number (fe t) = ?i" "fe_cursor (fe t) = fe_cursor (fe w)" "fe_magic (fe t) = fe_magic (fe w)"
    by (simp_all add: t_def) (simp_all add: flushed_inode_def Let_def stored_def patched_def loaded_def sys_loaded_def)
qed

text \<open>From the state after the allocation to the end of the call.\<close>

lemma create_finishes:
  assumes s: "map_state s" "mounted_ok t" "cx_read_only (ctx t) = 0" "same_geometry s t"
    and p: "\<And>m. in_part s m \<Longrightarrow> m \<notin> X \<Longrightarrow> part_sector t m = part_sector s m"
    and r: "r = EXT2_ROOT_INO" "inode_ok s r" and i: "inode_ok s i" "i \<noteq> r" and ap: "create_apart s r dsz i X"
    and d: "dir_ok (opened_inode r s) dsz es bs" and len: "length bs \<le> Suc n"
    and room: "has_room (file_byte (opened_inode r s)) dsz (last bs) nm" and pos: "0 < sint i"
    and t: "fe_inode_number (fe t) = i" "bo_dirty (buf t) = 0" "fe_magic (fe t) = EMBEXT_MAGIC"
  shows "\<exists>w x u c. ext2_append_to_directory (Suc (Suc n)) [] (fe_inode_number (fe t)) nm t = Inr (0, w)
    \<and> init_inode mode (fe_update (\<lambda>_. fe t) w) = Inr ((), x)
    \<and> ext2_flush_inode (fe_update (fe_flags_update (\<lambda>fl. fl OR EXT2_FLAG_FS_DIRTY) \<circ> fe_cursor_update (\<lambda>_. 0)) x) = Inr (0, u)
    \<and> inode_ok u i \<and> inode_ok u r \<and> entries (opened_inode r u) 0 (es @ bs @ [c]) dsz
    \<and> entry_ino (opened_inode r u) c = i \<and> entry_name (opened_inode r u) c = nm
    \<and> (\<forall>x\<in>set (es @ bs). entry_ino (opened_inode r u) x = entry_ino (opened_inode r s) x
         \<and> entry_name (opened_inode r u) x = entry_name (opened_inode r s) x)
    \<and> fe_inode_number (fe u) = i \<and> i_size (ino u) = 0 \<and> i_mode (ino u) = ucast mode OR EXT2_S_IFREG
    \<and> disk_inode u i = ino u \<and> fe_cursor (fe u) = 0 \<and> fe_magic (fe u) = EMBEXT_MAGIC"
proof -
  obtain w c where w: "ext2_append_to_directory (Suc (Suc n)) [] i nm t = Inr (0, w)" "pc_ok (dev w)" "same_geometry s w"
    "unat (s_log_block_size (sb w)) \<le> 2" "inode_ok w r" "inode_ok w i" "inode_group w i = inode_group s i" "inode_group w r = inode_group s r"
    "inode_sector w i = inode_sector s i" "inode_sector w r = inode_sector s r" "bg_sector w = bg_sector s"
    "layout_ok (opened_inode r w) dsz" "unat (i_size (disk_inode w r)) = dsz"
    "\<forall>j<dsz. byte_sector (opened_inode r w) j \<noteq> inode_sector s i \<and> undisturbed (opened_inode r w) (inode_sector s i) j"
    "entries (opened_inode r w) 0 (es @ bs @ [c]) dsz" "entry_ino (opened_inode r w) c = i" "entry_name (opened_inode r w) c = nm"
    "\<forall>x\<in>set (es @ bs). entry_ino (opened_inode r w) x = entry_ino (opened_inode r s) x \<and> entry_name (opened_inode r w) x = entry_name (opened_inode r s) x"
    using create_appends [OF s p r i(1) ap d len room pos] by blast
  let ?w1 = "fe_update (\<lambda>_. fe t) w"
  obtain a b m q where ini: "init_inode mode ?w1 = Inr ((), ?w1\<lparr>ticks := q,
      fe := (fe ?w1)\<lparr>fe_inode := new_inode mode (uid ?w1) (gid ?w1) a b m\<rparr>\<rparr>)"
    using init_inode_run by blast
  let ?w2 = "?w1\<lparr>ticks := q, fe := (fe ?w1)\<lparr>fe_inode := new_inode mode (uid ?w1) (gid ?w1) a b m\<rparr>\<rparr>"
  let ?w3 = "fe_update (fe_flags_update (\<lambda>x. x OR EXT2_FLAG_FS_DIRTY) \<circ> fe_cursor_update (\<lambda>_. 0)) ?w2"
  have d3: "same_disk w ?w3"
    by (auto simp: same_disk_def intro!: exI [of _ "cx_sysbuf (ctx w)"])
  have f3: "ino ?w3 = new_inode mode (uid ?w1) (gid ?w1) a b m" "fe_inode_number (fe ?w3) = i" "fe_cursor (fe ?w3) = 0"
    "fe_magic (fe ?w3) = EMBEXT_MAGIC" "fe_flags (fe ?w3) AND EXT2_FLAG_FS_DIRTY \<noteq> 0" "bo_dirty (buf ?w3) = 0"
    using t dirty_flag(3) by simp_all
  let ?t = "flushed_inode ?w3"
  have m3: "map_state ?w3" "wf_inode (ino ?w3)"
    using w(2,4) f3(6) by (simp_all add: map_state_def f3(1) new_inode_def wf_inode_def)
  note v3 = inode_sector_same_disk [OF d3] same_disk_inodes [OF d3] and sd = opened_inode_same_dir [OF d3, of r]
  note lay = layout_same_disk [of "opened_inode r w" "opened_inode r ?w3"] and en = entries_view(1) [OF sd] entry_view(1,3) [OF sd]
  have ib: "same_disk (opened_inode r w) (opened_inode r ?w3)" "i_block (ino (opened_inode r ?w3)) = i_block (ino (opened_inode r w))"
    using sd by (simp_all add: same_dir_def)
  have apart: "inode_sector s i \<noteq> bg_sector s (inode_group s i)" "inode_sector s i \<noteq> bg_sector s (inode_group s r)"
    "inode_group s r = inode_group s i \<or> inode_sector s r \<noteq> inode_sector s i"
    using ap by (auto simp: create_apart_def Let_def)
  have pre: "inode_sector w i \<noteq> bg_sector w (inode_group w i)" "inode_sector w i \<noteq> bg_sector w (inode_group w r)"
    "inode_group w r = inode_group w i \<or> inode_sector w r \<noteq> inode_sector w i"
    "\<forall>j<dsz. byte_sector (opened_inode r w) j \<noteq> inode_sector w i \<and> undisturbed (opened_inode r w) (inode_sector w i) j"
    using apart w(14) by (simp_all add: w(7-11))
  note flu = create_flushes [of ?w3 r dsz "es @ bs @ [c]", unfolded f3(2) v3 lay(1-3) [OF ib] en,
      OF m3(1) w(6) m3(2) f3(5) w(5) i(2) [symmetric] pre(1-3) w(12,13,15) pre(4)]
  have fields: "i_size (ino ?t) = 0" "i_mode (ino ?t) = ucast mode OR EXT2_S_IFREG" "disk_inode ?t i = ino ?t"
    "fe_cursor (fe ?t) = 0" "fe_magic (fe ?t) = EMBEXT_MAGIC"
    unfolding flu(2,7,9,10) f3 by (simp_all add: new_inode_def)
  have new: "entry_ino (opened_inode r ?t) c = i" "entry_name (opened_inode r ?t) c = nm"
    using bspec [OF flu(6), of c] w(16,17) by (simp_all only: set_append set_simps UnI2 insertI1)
  have kept: "\<forall>x\<in>set (es @ bs). entry_ino (opened_inode r ?t) x = entry_ino (opened_inode r s) x
      \<and> entry_name (opened_inode r ?t) x = entry_name (opened_inode r s) x"
    using flu(6) w(18) by (metis Un_iff set_append)
  show ?thesis
    unfolding t(1) by (intro exI conjI) (rule w(1) ini flu(1) flu(3-5) new kept flu(8) fields)+
qed

text \<open>The entry is the first with its name.\<close>

lemma created_resolves:
  assumes "entries (opened_inode i t) 0 (es @ [c]) n" "inode_ok t i" "entry_ino (opened_inode i t) c = j"
    and "entry_name (opened_inode i t) c = nm" "0 \<notin> set nm" "\<forall>x\<in>set es. shown_name (opened_inode i t) x \<noteq> nm"
  shows "resolves t (Suc (length es)) i [nm] j"
proof -
  have "shown_name (opened_inode i t) c = nm"
    unfolding shown_name_def assms(4) using assms(5) by (auto simp: takeWhile_eq_all_conv)
  then have "names_entry (opened_inode i t) (Suc (length es)) nm c"
    unfolding names_entry_def using assms(1,6) by (intro exI [of _ es] exI [of _ n]) simp
  then show ?thesis
    using resolves.down [OF assms(2), of _ nm c "[]" j] resolves.here assms(3) by simp
qed

lemma malloc_fresh:
  assumes "heap_ok s (mallocs s)"
  shows "malloc s = Inr (True, s\<lparr>mallocs := Suc (mallocs s)\<rparr>)"
    "fe_update (\<lambda>_. zero_file_ent\<lparr>fe_magic := EMBEXT_MAGIC\<rparr>) (s\<lparr>mallocs := Suc (mallocs s)\<rparr>) = fresh s"
  using assms by (simp_all add: malloc_def fresh_def)

lemma dir_ok_names_nothing:
  assumes "dir_ok d dsz es bs" "\<forall>x\<in>set (es @ bs). shown_name d x \<noteq> nm" "length (es @ bs) < n"
  shows "names_nothing d n nm"
proof -
  have "unat (i_size (ino d)) = dsz" "entries d 0 (es @ bs) dsz"
    using assms(1) by (simp_all add: dir_ok_def dir_file_def)
  then show ?thesis
    using assms(2,3) unfolding names_nothing_def entries_end_def by (intro exI [of _ "es @ bs"] exI [of _ dsz]) simp
qed

lemma sint_positive: "(i :: u32) \<noteq> 0 \<Longrightarrow> unat i < 2 ^ 31 \<Longrightarrow> 0 < sint i"
proof -
  assume i: "i \<noteq> 0" "unat i < 2 ^ 31"
  then have "unat i < 2147483648"
    by simp
  then have "uint i < 2147483648"
    by (simp only: uint_nat)
  moreover have "0 < uint i"
    using i(1) by (simp add: less_le uint_0_iff)
  ultimately show "0 < sint i"
    by (simp add: sint_uint signed_take_bit_int_eq_self)
qed

text \<open>A name without a separator.\<close>

lemma path_bare:
  assumes "slash \<notin> set nm" "nm \<noteq> []" "length nm < 256"
  shows "path_elements nm = [nm]"
proof -
  have "tokens nm = tokens (slash # nm)"
    by (simp add: tokens.simps [of nm] tokens.simps [of "slash # nm"])
  moreover have "take (MAX_PATH_LEN - 1) nm = nm"
    using assms(3) by (simp add: MAX_PATH_LEN_def)
  ultimately show ?thesis
    using assms by (simp add: path_elements_def tokens_name MAX_PATH_LEVELS_def)
qed

text \<open>The bit of the inode after the allocation.\<close>

lemma allocated_bit:
  assumes t: "same_disk s t" "map_state t" and al: "alloc_inode_ok s g" "free_inode s g k" "b = bg_inode_bitmap (bg_desc s g)"
    and b: "\<forall>m\<in>copy_sectors s. m div spb s \<noteq> unat b"
  shows "\<exists>u. ext2_allocate_inode t = Inr (0, u) \<and> \<not> bitmap_bit s b k \<and> bitmap_bit u b k
    \<and> s_free_inodes_count (sb u) = s_free_inodes_count (sb s) - 1"
proof -
  note v = same_disk_sectors [OF t(1)] and a = alloc_same_disk [OF t]
  have at: "alloc_inode_ok t g" "free_inode t g k"
    using a al by simp_all
  have bt: "bg_inode_bitmap (bg_desc t g) = b" "\<forall>m\<in>copy_sectors t. m div spb t \<noteq> unat (bg_inode_bitmap (bg_desc t g))"
    using b inode_sector_same_disk(2) [OF t(1)] by (simp_all add: al(3) bg_desc_def v a(3))
  obtain u where u: "ext2_allocate_inode t = Inr (0, u)" "\<forall>j<8 * bsize t. bitmap_bit u b j = (j = k \<or> bitmap_bit t b j)"
    "s_free_inodes_count (sb u) = s_free_inodes_count (sb t) - 1"
    using allocate_inode_bits [OF at refl bt(2)] unfolding bt(1) by blast
  have "k < 8 * bsize t" "\<not> bitmap_bit s b k"
    using al(2) at(1) bt(1) by (auto simp: free_inode_def alloc_inode_ok_def al(3) v a)
  then show ?thesis
    using u v(2) by auto
qed

text \<open>C5: opening a new name in the root directory with \<open>O_CREAT\<close>, when there is room behind its last entry and a free
  inode, returns a file on inode \<open>i\<close>, the first free one of the group with the most: empty, with the permission
  bits of the mode, the cursor at the start, and the same on the disk. The directory then lists its old entries, unchanged,
  and the new one, and its path leads to inode \<open>i\<close>.\<close>

theorem open_creates_the_file:
  fixes i :: u32
  defines "r \<equiv> EXT2_ROOT_INO"
  assumes s: "mounted_ok s" "\<forall>c. heap_ok s c" "cx_read_only (ctx s) = 0" and fl: "fl AND O_CREAT \<noteq> 0"
    and nm: "slash \<notin> set nm" "0 \<notin> set nm" "nm \<noteq> []" "length nm < 256"
    and d: "inode_ok s r" "dir_ok (opened_inode r s) dsz es bs" "has_room (file_byte (opened_inode r s)) dsz (last bs) nm"
    "\<forall>x\<in>set (es @ bs). shown_name (opened_inode r s) x \<noteq> nm" "length (es @ bs) \<le> Suc n"
    and al: "alloc_inode_ok s g" "free_inode s g k" "i = s_inodes_per_group (sb s) * of_nat g + of_nat k + 1"
    and i: "inode_ok s i" "i \<noteq> r" "create_apart s r dsz i (alloc_sectors s g k)"
  shows "\<exists>t c. ext2_open (Suc (Suc (Suc n))) (slash # nm) fl mode s = Inr (True, t)
    \<and> fe_inode_number (fe t) = i \<and> fe_cursor (fe t) = 0 \<and> fe_magic (fe t) = EMBEXT_MAGIC
    \<and> i_size (ino t) = 0 \<and> i_mode (ino t) = ucast (mode AND 0x1FF) OR EXT2_S_IFREG \<and> disk_inode t i = ino t \<and> inode_ok t i
    \<and> entries (opened_inode r t) 0 (es @ bs @ [c]) dsz
    \<and> (\<forall>x\<in>set (es @ bs). entry_ino (opened_inode r t) x = entry_ino (opened_inode r s) x
         \<and> entry_name (opened_inode r t) x = entry_name (opened_inode r s) x)
    \<and> resolves t (Suc (length (es @ bs))) EXT2_ROOT_INO (path_elements (slash # nm)) i"
proof -
  let ?X = "alloc_sectors s g k" and ?F = "Suc (Suc n)" and ?name = "slash # nm"
  note pn = path_name [OF nm(1,3,4)]
  have pos: "0 < sint i"
    using i(1) s(1) by (intro sint_positive) (auto simp: inode_ok_def mounted_ok_def word_le_nat_alt)
  have "names_nothing (opened_inode r s) ?F nm"
    by (rule dir_ok_names_nothing [OF d(2,4) le_imp_less_Suc [OF d(5)]])
  then have none: "names_nothing (opened_inode EXT2_ROOT_INO (fresh s)) ?F nm"
    using names_view(2) [OF opened_inode_same_dir [OF fresh_state(1) [OF s(1)]]] by (simp add: r_def)
  obtain t1 where t1: "ext2_lookup_path ?F ?name (fresh s) = Inr (-1, t1)" "ext2_open_inode (-1) t1 = Inr (-1, t1)" "rerrno t1 = ENOENT"
    "same_disk s t1" "lookup_state t1" "heap_ok t1 = heap_ok s"
    using create_lookup [OF s(1) pn(1) _ none] d(1) unfolding r_def by blast
  let ?t2 = "fe_update (fe_flags_update (\<lambda>x. x OR O_ACCESS_FLAGS fl)) t1"
  have t2: "same_disk s ?t2" "lookup_state ?t2" "heap_ok ?t2 = heap_ok s"
    using t1(4-6) by (simp_all add: same_disk_def lookup_state_def map_state_def)
  have ms: "map_state s"
    using al(1) by (simp add: alloc_inode_ok_def)
  obtain u v where v: "ext2_allocate_inode ?t2 = Inr (0, u)" "malloc u = Inr (True, v)" "malloc v = Inr (True, v\<lparr>mallocs := Suc (mallocs v)\<rparr>)"
    "fe_inode_number (fe v) = i" "bo_dirty (buf v) = 0" "mounted_ok (v\<lparr>mallocs := Suc (mallocs v)\<rparr>)"
    "cx_read_only (ctx v) = 0" "same_geometry s (v\<lparr>mallocs := Suc (mallocs v)\<rparr>)" "fe_magic (fe v) = EMBEXT_MAGIC"
    "\<And>m. in_part s m \<Longrightarrow> m \<notin> ?X \<Longrightarrow> part_sector (v\<lparr>mallocs := Suc (mallocs v)\<rparr>) m = part_sector s m"
    using create_allocates [OF s(1,2) t2 al] s(3) by auto
  let ?t4 = "v\<lparr>mallocs := Suc (mallocs v)\<rparr>"
  have "length bs \<le> Suc n" "cx_read_only (ctx ?t4) = 0"
    using d(5) v(7) by simp_all
  then obtain w x u c where u: "ext2_append_to_directory ?F [] (fe_inode_number (fe ?t4)) nm ?t4 = Inr (0, w)"
    "init_inode (mode AND 0x1FF) (fe_update (\<lambda>_. fe ?t4) w) = Inr ((), x)"
    "ext2_flush_inode (fe_update (fe_flags_update (\<lambda>fl. fl OR EXT2_FLAG_FS_DIRTY) \<circ> fe_cursor_update (\<lambda>_. 0)) x) = Inr (0, u)"
    "inode_ok u i" "inode_ok u r" "entries (opened_inode r u) 0 (es @ bs @ [c]) dsz"
    "entry_ino (opened_inode r u) c = i" "entry_name (opened_inode r u) c = nm"
    "\<forall>x\<in>set (es @ bs). entry_ino (opened_inode r u) x = entry_ino (opened_inode r s) x
         \<and> entry_name (opened_inode r u) x = entry_name (opened_inode r s) x"
    "fe_inode_number (fe u) = i" "i_size (ino u) = 0" "i_mode (ino u) = ucast (mode AND 0x1FF) OR EXT2_S_IFREG"
    "disk_inode u i = ino u" "fe_cursor (fe u) = 0" "fe_magic (fe u) = EMBEXT_MAGIC"
    using create_finishes [OF ms v(6) _ v(8,10) _ d(1) i d(2) _ d(3) pos, of n "mode AND 0x1FF"] v(4,5,9) unfolding r_def by force
  have "cx_read_only (ctx t1) = 0"
    using t1(4) s(3) by (auto simp: same_disk_def)
  then have run: "ext2_open (Suc ?F) ?name fl mode s = Inr (True, u)"
    by (rule ext2_open_creates [OF malloc_fresh [OF spec [OF s(2)]] t1(1-3) fl _ v(1) pn(2) v(2,3) u(1-3)])
  have "\<forall>x\<in>set (es @ bs). shown_name (opened_inode r u) x \<noteq> nm"
    using d(4) u(9) unfolding shown_name_def by metis
  then have "resolves u (Suc (length (es @ bs))) r [nm] i"
    using created_resolves [of r u "es @ bs" c dsz i nm] u(4-8) nm(2) by simp
  then show ?thesis
    using run u(4-15) by (intro exI [of _ u] exI [of _ c]) (simp add: pn(1) r_def del: ext2_open.simps)
qed

text \<open>The name \<open>b\<close> in the demo volume: inode 4 is the first free one.\<close>

lemma demo_create:
  "alloc_inode_ok demo_fs 0" "free_inode demo_fs 0 3" "inode_ok demo_fs 4" "create_apart demo_fs 2 1024 4 (alloc_sectors demo_fs 0 3)"
  "shown_name demo_dir 0 = [97]" "has_room (file_byte demo_dir) 1024 0 [98]"
proof -
  show "alloc_inode_ok demo_fs 0"
    by (simp add: alloc_inode_ok_def map_state_def blk_ok_def tables_ok_def table_sector_def copy_sector_def inj_on_def)
  have "\<forall>j<3. bit (7 :: u8) j"
    by (simp add: numeral_3_eq_3 less_Suc_eq all_conj_distrib)
  then show "free_inode demo_fs 0 3"
    by (simp add: free_inode_def fullest_def bitmap_bit_def bitmap_byte_def demo_sector_def)
  have four: "inode_group demo_fs 4 = 0" "inode_bytes demo_fs 4 = 384" "inode_sector demo_fs 4 = 10"
    by (simp_all add: inode_group_def inode_bytes_def inode_sector_def)
  then show "inode_ok demo_fs 4"
    by (simp add: inode_ok_def)
  have sp: "spb demo_dir = 2"
    using same_disk_sectors(5) [OF opened_inode_same_disk, of 2 demo_fs] by simp
  have sec: "byte_sector demo_dir j = 12 + j div 512" "undisturbed demo_dir x j" if "j < 1024" for j x
    using that by (simp_all add: byte_sector_def file_block_def undisturbed_def map_path_def demo_dir_view sp)
  show "create_apart demo_fs 2 1024 4 (alloc_sectors demo_fs 0 3)"
    using sec by (auto simp: create_apart_def Let_def four alloc_sectors_def inode_bitmap_sector_def copy_sectors_def copy_sector_def)
  show "shown_name demo_dir 0 = [97]"
    using entries_view(3) [OF opened_inode_same_dir [OF demo_fresh(2)], of 2] demo_root_entry(4) by simp
  have "rec_len_at (file_byte demo_dir) 0 = 1024" "unat (dh_name_len (header_at (file_byte demo_dir) 0)) = 1"
    using demo_dir_view(4,5) by (simp_all add: entry_header)
  then show "has_room (file_byte demo_dir) 1024 0 [98]"
    by (simp add: has_room_def new_pos_def min_len_def)
qed

lemma open_creates_the_file_witness:
  "\<exists>t c. ext2_open (Suc (Suc (Suc 0))) [slash, 98] (O_CREAT OR O_RDWR) 0x1A4 demo_fs = Inr (True, t)
     \<and> fe_inode_number (fe t) = 4 \<and> disk_inode t 4 = ino t \<and> entries (opened_inode 2 t) 0 [0, c] 1024
     \<and> resolves t (Suc (Suc 0)) 2 [[98]] 4"
proof -
  have fl: "(O_CREAT OR O_RDWR) AND O_CREAT \<noteq> (0 :: u32)"
    by (simp add: open_flag_defs)
  have p: "path_elements [slash, 98] = [[98]]"
    using path_name(1) [of "[98]"] by (simp add: slash_def)
  have heap: "\<forall>c. heap_ok demo_fs c" "cx_read_only (ctx demo_fs) = 0"
    "4 = s_inodes_per_group (sb demo_fs) * of_nat 0 + of_nat 3 + 1"
    by (simp_all add: demo_fs_def demo_ctx_def)
  have nm: "slash \<notin> set [98]" "0 \<notin> set [98 :: u8]" "[98 :: u8] \<noteq> []" "length [98 :: u8] < 256"
    by (simp_all add: slash_def)
  have dir: "has_room (file_byte demo_dir) 1024 (last [0]) [98]" "\<forall>x\<in>set ([] @ [0]). shown_name demo_dir x \<noteq> [98]"
    "length ([] @ [0]) \<le> Suc 0" "4 \<noteq> (2 :: u32)"
    using demo_create(5,6) by simp_all
  note run = open_creates_the_file [unfolded EXT2_ROOT_INO_def, OF demo_fresh(1) heap(1,2) fl nm demo_inode_ok(2) demo_dir_ok dir(1-3)
      demo_create(1,2) heap(3) demo_create(3) dir(4) demo_create(4), of "0x1A4"]
  show ?thesis
    using run unfolding p append_Nil append_Cons list.size(3,4) add_0 add_Suc by fastforce
qed

text \<open>C20: a new name without a separator: \<open>ext2_open\<close> with \<open>O_CREAT\<close> fails with \<open>ENOENT\<close>, but the inode it has
  allocated for it stays allocated on the disk and is no longer counted as free.\<close>

theorem open_without_separator_leaks_an_inode:
  assumes s: "mounted_ok s" "\<forall>c. heap_ok s c" "cx_read_only (ctx s) = 0" and fl: "fl AND O_CREAT \<noteq> 0"
    and nm: "slash \<notin> set nm" "nm \<noteq> []" "length nm < 256"
    and d: "inode_ok s EXT2_ROOT_INO" "names_nothing (opened_inode EXT2_ROOT_INO s) n nm"
    and al: "alloc_inode_ok s g" "free_inode s g k" "b = bg_inode_bitmap (bg_desc s g)" "\<forall>m\<in>copy_sectors s. m div spb s \<noteq> unat b"
  shows "\<exists>t. ext2_open (Suc n) nm fl mode s = Inr (False, t) \<and> rerrno t = ENOENT
    \<and> \<not> bitmap_bit s b k \<and> bitmap_bit t b k \<and> s_free_inodes_count (sb t) = s_free_inodes_count (sb s) - 1"
proof -
  obtain t1 where t1: "ext2_lookup_path n nm (fresh s) = Inr (-1, t1)" "ext2_open_inode (-1) t1 = Inr (-1, t1)" "rerrno t1 = ENOENT"
    "same_disk s t1" "lookup_state t1"
    using create_lookup [OF s(1) path_bare [OF nm] d(1)] names_view(2) [OF opened_inode_same_dir [OF fresh_state(1) [OF s(1)]]] d(2) by metis
  let ?t2 = "fe_update (fe_flags_update (\<lambda>x. x OR O_ACCESS_FLAGS fl)) t1"
  have t2: "same_disk s ?t2" "map_state ?t2"
    using t1(4,5) by (simp_all add: same_disk_def lookup_state_def map_state_def)
  obtain u where u: "ext2_allocate_inode ?t2 = Inr (0, u)" "\<not> bitmap_bit s b k" "bitmap_bit u b k"
    "s_free_inodes_count (sb u) = s_free_inodes_count (sb s) - 1"
    using allocated_bit [OF t2 al] by blast
  have e: "rerrno (fe_update f t1) = ENOENT" "cx_read_only (ctx (fe_update f t1)) = 0" for f
    using t1(3,4) s(3) by (auto simp: same_disk_def)
  note m = malloc_fresh [OF spec [OF s(2)]]
  have "split_name nm = None"
    using nm(1) by (simp add: split_name_def)
  then have run: "ext2_open (Suc n) nm fl mode s = Inr (False, rerrno_update (\<lambda>_. ENOENT) u)"
    using fl e [of id] by (simp add: bnd_Inr [of malloc, OF m(1)] m(2) bnd_Inr [of "ext2_lookup_path n nm", OF t1(1)]
        bnd_Inr [of "ext2_open_inode (-1)", OF t1(2)] set_flag_def upd_fe_def e bnd_Inr [of ext2_allocate_inode, OF u(1)]
        open_fails_def set_errno_def Let_def)
  have "bitmap_bit (rerrno_update (\<lambda>_. ENOENT) u) b k"
    using u(3) by (simp add: bitmap_bit_def bitmap_byte_def part_sector_def spb_def)
  then show ?thesis
    using run u(2,4) by (intro exI [of _ "rerrno_update (\<lambda>_. ENOENT) u"]) (simp del: ext2_open.simps)
qed

lemma open_without_separator_leaks_an_inode_witness:
  "\<exists>t. ext2_open (Suc 2) [98] (O_CREAT OR O_RDWR) 0x1A4 demo_fs = Inr (False, t) \<and> rerrno t = ENOENT \<and> bitmap_bit t 4 3
     \<and> s_free_inodes_count (sb t) = 4"
proof -
  have fl: "(O_CREAT OR O_RDWR) AND O_CREAT \<noteq> (0 :: u32)"
    by (simp add: open_flag_defs)
  have heap: "\<forall>c. heap_ok demo_fs c" "cx_read_only (ctx demo_fs) = 0"
    by (simp_all add: demo_fs_def demo_ctx_def)
  have nm: "slash \<notin> set [98]" "[98 :: u8] \<noteq> []" "length [98 :: u8] < 256"
    by (simp_all add: slash_def)
  have "unat (i_size (ino demo_dir)) = 1024"
    by (simp add: demo_dir_view)
  then have none: "names_nothing demo_dir 2 [98]"
    unfolding names_nothing_def entries_end_def using demo_dir_view(3) demo_create(5) by (intro exI [of _ "[0]"] exI [of _ 1024]) simp
  have "bg_inode_bitmap (bg_desc demo_fs 0) = 4" "\<forall>m\<in>copy_sectors demo_fs. m div spb demo_fs \<noteq> unat (4 :: u32)"
    by (simp_all add: copy_sectors_def copy_sector_def)
  then show ?thesis
    using open_without_separator_leaks_an_inode [unfolded EXT2_ROOT_INO_def, OF demo_fresh(1) heap fl nm demo_inode_ok(2) none
      demo_create(1,2), of 4 "0x1A4"] by (auto simp del: ext2_open.simps)
qed

end
