(* ===== verification/Ext2_Alloc_Block.thy ===== *)
theory Ext2_Alloc_Block
  imports Ext2_Alloc_Inode
begin

text \<open>
  Allocating a block: \<open>ext2_allocate_block\<close> finds the first clear bit of the block bitmap, but
  \<open>ext2_change_allocated\<close> then sets a bit somewhere else. The bitmap never learns of it, so the next search
  finds the same bit again and fails: \<open>stuck\<close> is the state the driver ends in, and every further call keeps it.
  What this does to a file that grows is the last part.
\<close>

unbundle bit_operations_syntax

section \<open>The search\<close>

text \<open>The group with the most free blocks, and the first clear bit of its block bitmap.\<close>

definition free_block_bit :: "fs \<Rightarrow> nat \<Rightarrow> nat \<Rightarrow> bool" where
  "free_block_bit s g k \<longleftrightarrow> fullest bg_free_blocks_count s (unat (cx_num_blockgroups (ctx s))) g
     \<and> bg_free_blocks_count (bg_desc s g) \<noteq> 0 \<and> k div 8 < unat (s_blocks_per_group (sb s)) div 8
     \<and> \<not> bitmap_bit s (bg_block_bitmap (bg_desc s g)) k \<and> (\<forall>j<k. bitmap_bit s (bg_block_bitmap (bg_desc s g)) j)"

text \<open>What the search reads lies in the volume.\<close>

definition alloc_block_ok :: "fs \<Rightarrow> nat \<Rightarrow> bool" where
  "alloc_block_ok s g \<longleftrightarrow> map_state s \<and> (\<forall>i<unat (cx_num_blockgroups (ctx s)). in_part s (bg_sector s i))
     \<and> blk_ok s (bg_block_bitmap (bg_desc s g)) \<and> unat (s_blocks_per_group (sb s)) \<le> 8 * bsize s"

text \<open>The number the code computes for the bit.\<close>

definition found_block :: "fs \<Rightarrow> nat \<Rightarrow> nat \<Rightarrow> u32" where
  "found_block s g k = s_blocks_per_group (sb s) * of_nat g + of_nat k + 1"

definition searched :: "nat \<Rightarrow> u8 list \<Rightarrow> fs \<Rightarrow> fs" where
  "searched m x s = loaded m (with_sysbuf x s)"

lemma searched_fields [simp]:
  "dev (searched m x s) = dev s" "sb (searched m x s) = sb s" "ino (searched m x s) = ino s"
  "fe_cursor (fe (searched m x s)) = fe_cursor (fe s)" "fe_flags (fe (searched m x s)) = fe_flags (fe s)"
  "fe_magic (fe (searched m x s)) = fe_magic (fe s)" "bo_dirty (buf (searched m x s)) = 0"
  "cx_part_start (ctx (searched m x s)) = cx_part_start (ctx s)"
  "cx_num_blockgroups (ctx (searched m x s)) = cx_num_blockgroups (ctx s)"
  "part_sector (searched m x s) = part_sector s" "in_part (searched m x s) = in_part s"
  "spb (searched m x s) = spb s" "bsize (searched m x s) = bsize s" "blk_ok (searched m x s) = blk_ok s"
  "map_state s \<Longrightarrow> map_state (searched m x s)"
  by (simp_all add: searched_def)

lemma searched_groups [simp]:
  "bg_sector (searched m x s) = bg_sector s" "bg_desc (searched m x s) = bg_desc s"
  "block_group (searched m x s) = block_group s" "block_bit (searched m x s) = block_bit s"
  "bitmap_sector (searched m x s) = bitmap_sector s" "is_allocated (searched m x s) = is_allocated s"
  "bitmap_byte (searched m x s) = bitmap_byte s" "bitmap_bit (searched m x s) = bitmap_bit s"
  "alloc_ok (searched m x s) = alloc_ok s"
  by (simp_all add: fun_eq_iff bg_sector_def bg_desc_def block_group_def block_bit_def bitmap_sector_def
      is_allocated_def alloc_ok_def tables_ok_def table_sector_def searched_def)

lemma allocate_block_search:
  assumes ok: "alloc_block_ok s g" and f: "free_block_bit s g k" and N: "N = found_block s g k"
  shows "\<exists>m x. ext2_allocate_block p s =
    bnd (ext2_change_allocated N EXT2_ALLOCATED (i_mode (ino s) AND EXT2_S_IFDIR \<noteq> 0))
      (\<lambda>r. if r \<noteq> 0 then ret 0 else ret N) (searched m x s)"
proof -
  let ?bpg = "s_blocks_per_group (sb s)" and ?b = "bg_block_bitmap (bg_desc s g)" and ?q = "k div 8" and ?r = "k mod 8"
    and ?p = "part_sector s (bg_sector s g)"
  have o: "map_state s" "pc_ok (dev s)" "unat (s_log_block_size (sb s)) \<le> 2"
    using ok by (simp_all add: alloc_block_ok_def map_state_def)
  have gn: "g < unat (cx_num_blockgroups (ctx s))"
    using f by (simp add: free_block_bit_def fullest_def)
  have gw: "unat (of_nat g :: u32) = g"
    using gn unat_lt32 [of "cx_num_blockgroups (ctx s)"] by (intro unat_of_nat32) simp
  obtain x where best: "most_free_group bg_free_blocks_count s
      = Inr ((uint (bg_free_blocks_count (bg_desc s g)), of_nat g), with_sysbuf x s)"
    using most_free_run [OF o(2,3), of bg_free_blocks_count g] ok f by (auto simp: alloc_block_ok_def free_block_bit_def)
  have get: "ext2_get_bg_descriptor (of_nat g) (with_sysbuf x s) = Inr ((0, Some (bg_desc s g)), with_sysbuf ?p s)"
    using ext2_get_bg_descriptor_run [of "with_sysbuf x s" "of_nat g"] o gn gw ok
    by (simp add: word_less_nat_alt alloc_block_ok_def sys_loaded_with)
  have "k div 8 < unat ?bpg div 8" "unat ?bpg \<le> 8 * bsize s" "bsize s = 512 * spb s"
    using f ok by (simp_all add: free_block_bit_def alloc_block_ok_def bsize_def spb_def)
  then have q: "?q < 512 * spb s" "?q < 2 ^ 32" "?q < unat (?bpg div 8)"
    using unat_lt32 [of ?bpg] by (simp_all add: unat_div32)
  let ?m = "unat ?b * spb s + ?q div 512"
  have scan: "scan_bitmap ?b (unat (?bpg div 8)) 0 None (with_sysbuf ?p s)
      = Inr ((of_nat ?q, Some (?r, bitmap_byte s ?b ?q)), searched ?m ?p s)"
    using scan_found [of "with_sysbuf ?p s" ?b ?q ?r 0 "unat (?bpg div 8)" None] o(1) ok f q
    by (simp add: alloc_block_ok_def free_block_bit_def searched_def)
  have nz: "uint (bg_free_blocks_count (bg_desc s g)) \<noteq> 0" "?bpg div 8 \<noteq> 0" "of_nat ?q < ?bpg div 8" "?r < 8"
  proof -
    have "unat (of_nat ?q :: u32) = ?q"
      using q(2) by (intro unat_of_nat32) simp
    then show "of_nat ?q < ?bpg div 8"
      using q(3) by (simp add: word_less_nat_alt)
    show "?bpg div 8 \<noteq> 0"
      using q(3) by (intro notI) simp
    show "uint (bg_free_blocks_count (bg_desc s g)) \<noteq> 0"
      using f by (simp add: free_block_bit_def uint_0_iff)
  qed simp
  have "of_nat ?q * 8 + of_nat ?r = (of_nat (?q * 8 + ?r) :: u32)"
    by (simp only: of_nat_add of_nat_mult of_nat_numeral)
  then have "of_nat ?q * 8 + of_nat ?r = (of_nat k :: u32)"
    by (simp only: div_mult_mod_eq)
  then have "?bpg * of_nat g + of_nat ?q * 8 + of_nat ?r + 1 = N"
    by (simp add: N found_block_def add.assoc)
  from this [symmetric] show ?thesis
    using nz by (intro exI [of _ ?m] exI [of _ ?p])
      (simp only:, simp add: ext2_allocate_block_def bnd_Inr best get scan Let_def)
qed

section \<open>The two outcomes\<close>

definition stuck :: "fs \<Rightarrow> nat \<Rightarrow> nat \<Rightarrow> bool" where
  "stuck s g k \<longleftrightarrow> alloc_block_ok s g \<and> free_block_bit s g k \<and> alloc_ok s (found_block s g k)
     \<and> is_allocated s (found_block s g k)"

lemma found_block_searched [simp]:
  "found_block (searched m x s) = found_block s" "found_block (with_sysbuf y s) = found_block s"
  by (simp_all add: found_block_def fun_eq_iff)

lemma free_block_bit_cong:
  "cx_num_blockgroups (ctx t) = cx_num_blockgroups (ctx s) \<Longrightarrow> bg_desc t = bg_desc s \<Longrightarrow> bitmap_bit t = bitmap_bit s
   \<Longrightarrow> s_blocks_per_group (sb t) = s_blocks_per_group (sb s) \<Longrightarrow> free_block_bit t = free_block_bit s"
  by (simp add: free_block_bit_def fullest_def fun_eq_iff)

lemma free_block_bit_searched [simp]:
  "free_block_bit (searched m x s) = free_block_bit s" "free_block_bit (with_sysbuf x s) = free_block_bit s"
  by (rule free_block_bit_cong; simp)+

lemma stuck_searched: "stuck s g k \<Longrightarrow> stuck (with_sysbuf y (searched m x s)) g k"
  by (simp add: stuck_def alloc_block_ok_def)

text \<open>In a stuck state the bit that is found cannot be allocated.\<close>

lemma allocate_block_stuck:
  assumes "stuck s g k"
  shows "\<exists>t. ext2_allocate_block p s = Inr (0, t) \<and> stuck t g k \<and> dev t = dev s \<and> ino t = ino s"
proof -
  obtain m x where *: "ext2_allocate_block p s =
    bnd (ext2_change_allocated (found_block s g k) EXT2_ALLOCATED (i_mode (ino s) AND EXT2_S_IFDIR \<noteq> 0))
      (\<lambda>r. if r \<noteq> 0 then ret 0 else ret (found_block s g k)) (searched m x s)"
    using allocate_block_search [of s g k _ p] assms by (auto simp: stuck_def)
  have "alloc_ok (searched m x s) (found_block s g k)" "is_allocated (searched m x s) (found_block s g k) = True"
    using assms by (simp_all add: stuck_def)
  from change_allocated_refused [OF this] show ?thesis
    using stuck_searched [OF assms] by (simp add: * bnd_Inr)
qed

lemma allocate_block_run:
  assumes ok: "alloc_block_ok s g" and f: "free_block_bit s g k" and N: "N = found_block s g k"
    and n: "alloc_ok s N" "\<not> is_allocated s N"
  shows "\<exists>m x y. ext2_allocate_block p s = Inr (N, with_sysbuf y (changed_alloc N (searched m x s)))"
proof -
  obtain m x where *: "ext2_allocate_block p s =
    bnd (ext2_change_allocated N EXT2_ALLOCATED (i_mode (ino s) AND EXT2_S_IFDIR \<noteq> 0))
      (\<lambda>r. if r \<noteq> 0 then ret 0 else ret N) (searched m x s)"
    using allocate_block_search [OF ok f N] by blast
  have "alloc_ok (searched m x s) N" "is_allocated (searched m x s) N \<noteq> True"
    using n by simp_all
  from change_allocated_run [OF this] obtain y where
    "ext2_change_allocated N EXT2_ALLOCATED (i_mode (ino s) AND EXT2_S_IFDIR \<noteq> 0) (searched m x s)
     = Inr (0, with_sysbuf y (changed_alloc N (searched m x s)))"
    by auto
  then show ?thesis
    by (intro exI [of _ m] exI [of _ x] exI [of _ y]) (simp add: * bnd_Inr)
qed

text \<open>A change outside the bitmap and the descriptors leaves the search as it was.\<close>

lemma stuck_changed:
  assumes ok: "alloc_block_ok s g" and f: "free_block_bit s g k" and N: "N = found_block s g k"
    and n: "alloc_ok s N" "\<not> is_allocated s N"
    and apart: "\<forall>i<unat (cx_num_blockgroups (ctx s)). bitmap_sector s N \<noteq> bg_sector s i"
      "bitmap_sector s N div spb s \<noteq> unat (bg_block_bitmap (bg_desc s g))"
  shows "stuck (changed_alloc N s) g k"
proof -
  let ?t = "changed_alloc N s" and ?b = "bg_block_bitmap (bg_desc s g)"
  note sec = changed_alloc_sectors [OF n(1)]
  have d: "bg_desc ?t i = bg_desc s i" if "i < unat (cx_num_blockgroups (ctx s))" for i
    using that ok apart(1) sec(2) by (auto simp: bg_desc_def alloc_block_ok_def)
  have g: "g < unat (cx_num_blockgroups (ctx s))"
    using f by (simp add: free_block_bit_def fullest_def)
  have byte: "bitmap_byte ?t ?b q = bitmap_byte s ?b q" if "q < bsize s" for q
  proof -
    have q: "q div 512 < spb s"
      using that by (simp add: bsize_spb less_mult_imp_div_less mult.commute)
    then have "(unat ?b * spb s + q div 512) div spb s = unat ?b"
      by (simp add: div_mult_self3 spb_def)
    then have "unat ?b * spb s + q div 512 \<noteq> bitmap_sector s N"
      using apart(2) by metis
    then show ?thesis
      using ok sec(2) [OF blk_ok_in_part [OF _ q]] by (simp add: bitmap_byte_def alloc_block_ok_def)
  qed
  have "k div 8 < unat (s_blocks_per_group (sb s)) div 8" "unat (s_blocks_per_group (sb s)) \<le> 8 * bsize s"
    using f ok by (simp_all add: free_block_bit_def alloc_block_ok_def)
  then have k: "k < 8 * bsize s"
    by linarith
  then have bits: "bitmap_bit ?t ?b j = bitmap_bit s ?b j" if "j \<le> k" for j
    using that byte [of "j div 8"] by (simp add: bitmap_bit_def)
  have "free_block_bit ?t g k"
    using f g d bits by (simp add: free_block_bit_def fullest_def)
  moreover have "alloc_block_ok ?t g"
    using ok sec(1) d [OF g] by (simp add: alloc_block_ok_def map_state_def blk_ok_def bsize_spb)
  moreover have "found_block ?t g k = N"
    by (simp add: N found_block_def)
  ultimately show ?thesis
    using changed_alloc_desc(3) [OF n(1) n(1) refl] is_allocated_changed [OF n(1) n(1) refl] n(2)
    by (simp add: stuck_def)
qed

text \<open>The block after the found bit belongs to the same group, so its bit is looked for before the bitmap.\<close>

lemma found_block_group:
  assumes "k + 1 < unat (s_blocks_per_group (sb s))" "unat (s_blocks_per_group (sb s)) * (g + 1) < 2 ^ 32"
  shows "block_group s (found_block s g k) = g"
proof -
  let ?bpg = "s_blocks_per_group (sb s)"
  have "found_block s g k = of_nat (unat ?bpg * g + (k + 1))"
    by (simp add: found_block_def)
  moreover have "unat ?bpg * g + (k + 1) < 4294967296"
    using assms by simp
  ultimately have "unat (found_block s g k) = unat ?bpg * g + (k + 1)"
    by (simp only: unat_of_nat32)
  moreover have "(unat ?bpg * g + (k + 1)) div unat ?bpg = g + (k + 1) div unat ?bpg"
    using assms(1) by (intro div_mult_self4) simp
  ultimately show ?thesis
    using assms(1) by (simp add: block_group_def)
qed

definition allocations :: "u32 list \<Rightarrow> (fs, u32 list) cm" where
  "allocations ps = for_fold ps (\<lambda>p acc. bnd (ext2_allocate_block p) (\<lambda>b. ret (acc @ [b]))) []"

lemma allocations_stuck:
  "stuck s g k \<Longrightarrow> \<exists>t. for_fold ps (\<lambda>p acc. bnd (ext2_allocate_block p) (\<lambda>b. ret (acc @ [b]))) acc s
     = Inr (acc @ replicate (length ps) 0, t) \<and> dev t = dev s"
proof (induction ps arbitrary: s acc)
  case (Cons p ps)
  obtain t where t: "ext2_allocate_block p s = Inr (0, t)" "stuck t g k" "dev t = dev s"
    using allocate_block_stuck [OF Cons.prems] by blast
  then show ?case
    using Cons.IH [OF t(2), of "acc @ [0]"] by (simp add: bnd_Inr)
qed simp

lemma found_block_apart:
  assumes ok: "alloc_block_ok s g" and n: "alloc_ok s (found_block s g k)"
    and k: "k + 1 < unat (s_blocks_per_group (sb s))" "unat (s_blocks_per_group (sb s)) * (g + 1) < 2 ^ 32"
    and bm: "2 \<le> unat (bg_block_bitmap (bg_desc s g))"
  shows "bitmap_sector s (found_block s g k) div spb s \<noteq> unat (bg_block_bitmap (bg_desc s g))"
proof -
  note g = found_block_group [OF k]
  have "bitmap_sector s (found_block s g k) < unat (bg_block_bitmap (bg_desc s g)) * spb s"
    using bitmap_sector_before [of s "found_block s g k"] ok n bm g by (simp add: alloc_block_ok_def alloc_ok_def)
  then show ?thesis
    using less_mult_imp_div_less by (metis less_irrefl mult.commute)
qed

text \<open>C16: after one successful call of \<open>ext2_allocate_block\<close> every later one fails. The call returns the block after the first
  clear bit of the bitmap and sets the bit of that block in a sector before the bitmap; the bitmap and the descriptors
  stay as they were. So however often it is called again, it finds the same bit, is refused by \<open>ext2_change_allocated\<close>,
  and returns 0 without touching the device.\<close>

theorem blocks_are_allocated_only_once:
  assumes ok: "alloc_block_ok s g" and f: "free_block_bit s g k" and N: "N = found_block s g k"
    and n: "alloc_ok s N" "\<not> is_allocated s N"
    and k: "k + 1 < unat (s_blocks_per_group (sb s))" "unat (s_blocks_per_group (sb s)) * (g + 1) < 2 ^ 32"
    and bm: "2 \<le> unat (bg_block_bitmap (bg_desc s g))"
    and apart: "\<forall>i<unat (cx_num_blockgroups (ctx s)). bitmap_sector s N \<noteq> bg_sector s i"
  shows "\<exists>t. ext2_allocate_block p s = Inr (N, t) \<and> is_allocated t N
    \<and> (\<forall>j\<le>k. bitmap_bit t (bg_block_bitmap (bg_desc t g)) j = (j < k))
    \<and> (\<forall>ps. \<exists>u. allocations ps t = Inr (replicate (length ps) 0, u) \<and> dev u = dev t)"
proof -
  obtain m x y where run: "ext2_allocate_block p s = Inr (N, with_sysbuf y (changed_alloc N (searched m x s)))"
    using allocate_block_run [OF ok f N n] by blast
  let ?u = "changed_alloc N (searched m x s)" and ?t = "with_sysbuf y (changed_alloc N (searched m x s))"
  have "stuck ?u g k"
    using stuck_changed [of "searched m x s" g k N] ok f N n apart found_block_apart [OF ok _ k bm] by (simp add: alloc_block_ok_def)
  then have t: "stuck ?t g k"
    by (simp add: stuck_def alloc_block_ok_def)
  moreover have "found_block ?t g k = N"
    by (simp add: N found_block_def)
  ultimately have "is_allocated ?t N" "free_block_bit ?t g k"
    by (simp_all only: stuck_def)
  moreover from this(2) have "bitmap_bit ?t (bg_block_bitmap (bg_desc ?t g)) j = (j < k)" if "j \<le> k" for j
    using that by (cases "j = k") (simp_all add: free_block_bit_def)
  ultimately show ?thesis
    using run allocations_stuck [OF t, of _ "[]"] by (auto simp: allocations_def)
qed

text \<open>The demo volume with a block free inside its group, and the cursor of its file on the second block.\<close>

definition demo_gap :: fs where
  "demo_gap = put_sector 6 (0x3F # replicate 511 0) (seeked 1024 demo_fs)"

lemma demo_gap_fields [simp]:
  "ctx demo_gap = demo_ctx" "fe demo_gap = (fe demo_fs)\<lparr>fe_cursor := 1024\<rparr>" "in_part demo_gap n = (n < 16)" "spb demo_gap = 2" "bsize demo_gap = 1024"
  "pc_ok (dev demo_gap)" "m < 16 \<Longrightarrow> part_sector demo_gap m = (if m = 6 then 0x3F # replicate 511 0 else demo_sector m)"
proof -
  have s: "part_sector (seeked 1024 demo_fs) = part_sector demo_fs" "fe (seeked 1024 demo_fs) = (fe demo_fs)\<lparr>fe_cursor := 1024\<rparr>"
    "spb (seeked 1024 demo_fs) = 2"
    by (simp_all add: seeked_def part_sector_def spb_def fun_eq_iff)
  then show "ctx demo_gap = demo_ctx" "fe demo_gap = (fe demo_fs)\<lparr>fe_cursor := 1024\<rparr>" "in_part demo_gap n = (n < 16)"
    "spb demo_gap = 2" "bsize demo_gap = 1024"
    by (simp_all add: demo_gap_def bsize_spb)
  show "pc_ok (dev demo_gap)" "m < 16 \<Longrightarrow> part_sector demo_gap m = (if m = 6 then 0x3F # replicate 511 0 else demo_sector m)"
    using put_sector_run(2,3) [of "seeked 1024 demo_fs" 6 "0x3F # replicate 511 0"] s by (simp_all add: demo_gap_def)
qed

lemma demo_gap_groups [simp]:
  "bg_sector demo_gap 0 = 4" "bg_desc demo_gap 0 = demo_bg" "block_group demo_gap 7 = 0" "block_bit demo_gap 7 = 7"
  "bitmap_sector demo_gap 7 = 3" "tables_ok demo_gap 0" "found_block demo_gap 0 6 = 7"
proof -
  show g: "bg_sector demo_gap 0 = 4" "block_group demo_gap 7 = 0" "block_bit demo_gap 7 = 7" "tables_ok demo_gap 0"
    "found_block demo_gap 0 6 = 7"
    by (simp_all add: bg_sector_def block_group_def block_bit_def tables_ok_def table_sector_def found_block_def)
  have "bg_desc demo_fs 0 = demo_bg"
    by simp
  then show "bg_desc demo_gap 0 = demo_bg"
    using g(1) by (simp add: bg_desc_def)
  then show "bitmap_sector demo_gap 7 = 3"
    by (simp add: bitmap_sector_def g)
qed

lemma demo_gap_ok:
  "map_state demo_gap" "alloc_block_ok demo_gap 0" "free_block_bit demo_gap 0 6" "alloc_ok demo_gap 7" "\<not> is_allocated demo_gap 7"
proof -
  have "\<forall>j<6. bit (0x3F :: u8) j"
    by (simp add: numeral_eq_Suc less_Suc_eq all_conj_distrib)
  then show "free_block_bit demo_gap 0 6"
    by (simp add: free_block_bit_def fullest_def bitmap_bit_def bitmap_byte_def)
qed (simp_all add: map_state_def alloc_block_ok_def blk_ok_def alloc_ok_def is_allocated_def demo_sector_def)

lemma blocks_are_allocated_only_once_witness:
  "\<exists>t u. ext2_allocate_block 0 demo_gap = Inr (7, t) \<and> \<not> bitmap_bit t (bg_block_bitmap (bg_desc t 0)) 6
    \<and> allocations [0, 7] t = Inr ([0, 0], u)"
proof -
  obtain t where t: "ext2_allocate_block 0 demo_gap = Inr (7, t)"
    "\<forall>j\<le>6. bitmap_bit t (bg_block_bitmap (bg_desc t 0)) j = (j < 6)"
    "\<forall>ps. \<exists>u. allocations ps t = Inr (replicate (length ps) 0, u) \<and> dev u = dev t"
    using blocks_are_allocated_only_once [of demo_gap 0 6 7 0] demo_gap_ok by auto
  then show ?thesis
    using spec [OF t(3), of "[0, 7]"] by (auto simp: numeral_2_eq_2)
qed

section \<open>A file that grows\<close>

text \<open>The state in which the search starts differs from the first one at most in the sector in the buffer.\<close>

lemma same_but_buffer_searched:
  assumes "same_but_buffer s v" "map_state s"
  shows "v = s \<or> (\<exists>m. v = searched m (cx_sysbuf (ctx s)) s)"
proof -
  have "with_sysbuf (cx_sysbuf (ctx s)) s = s"
    by (simp add: with_sysbuf_def)
  then show ?thesis
    using assms by (auto simp: same_but_buffer_def searched_def)
qed

lemma changed_alloc_dev:
  assumes "dev t = dev s" "cx_part_start (ctx t) = cx_part_start (ctx s)" "bitmap_sector t b = bitmap_sector s b"
    "is_allocated t b = is_allocated s b" "block_bit t b = block_bit s b"
  shows "dev (changed_alloc b t) = dev (changed_alloc b s)"
proof -
  have "part_sector t = part_sector s"
    using assms by (simp add: part_sector_def fun_eq_iff)
  then show ?thesis
    using assms by (simp add: changed_alloc_def Let_def put_sector_def flipped_sector_def)
qed

lemma searched_fe: "fe (searched m x s) = (fe s)\<lparr>fe_buffer := buf (searched m x s)\<rparr>"
  by (simp add: searched_def loaded_def with_sysbuf_def)

lemma searched_alloc:
  assumes "v = s \<or> (\<exists>m. v = searched m (cx_sysbuf (ctx s)) s)" "map_state s"
  shows "alloc_block_ok v g = alloc_block_ok s g \<and> free_block_bit v = free_block_bit s \<and> found_block v = found_block s
    \<and> alloc_ok v = alloc_ok s \<and> is_allocated v = is_allocated s \<and> map_state v \<and> spb v = spb s \<and> in_part v = in_part s
    \<and> dev (changed_alloc b v) = dev (changed_alloc b s) \<and> fe v = (fe s)\<lparr>fe_buffer := buf v\<rparr>"
  using assms(1)
proof (elim disjE exE)
  fix m
  assume v: "v = searched m (cx_sysbuf (ctx s)) s"
  show ?thesis
    unfolding v using assms(2) searched_fe changed_alloc_dev [of "searched m (cx_sysbuf (ctx s)) s" s b]
    by (intro conjI) (simp_all only: searched_fields searched_groups free_block_bit_searched found_block_searched
        alloc_block_ok_def)
next
  assume v: "v = s"
  have "fe s = (fe s)\<lparr>fe_buffer := buf s\<rparr>"
    by (cases "fe s") simp
  then show ?thesis
    unfolding v using assms(2) by blast
qed

lemma select_hole_run:
  assumes s: "map_state s" and c: "fe_cursor (fe s) = int c" "c < 4294967296"
    and map: "file_block_ok s (c div bsize s)" "0 < c div bsize s \<Longrightarrow> file_block_ok s (c div bsize s - 1)"
    and hole: "file_block s (c div bsize s) = 0" and w: "fe_flags (fe s) AND EXT2_FLAG_WRITE \<noteq> 0"
    and ok: "alloc_block_ok s g" and f: "free_block_bit s g k" and N: "N = found_block s g k" "N \<noteq> 0" "blk_ok s N"
    and n: "alloc_ok s N" "\<not> is_allocated s N"
  shows "\<exists>t. ext2_select_buffer s = Inr (0, loaded (unat N * spb s + c mod bsize s div 512) t) \<and> map_state t
    \<and> fe t = (fe s)\<lparr>fe_inode := (ino s)\<lparr>i_block := (i_block (ino s))[0 := N]\<rparr>, fe_buffer := buf t\<rparr>
    \<and> dev t = dev (changed_alloc N s) \<and> in_part t = in_part s \<and> spb t = spb s"
proof -
  let ?n = "c div bsize s"
  have bs: "0 < bsize s" "bsize s \<le> 4096"
    using map_state_bsize [OF s] by auto
  have n32: "?n < 4294967296"
    using c(2) by (meson div_le_dividend le_less_trans)
  have u: "unat (word_of_int (int c) :: u64) = c"
    using c(2) by (intro unat_word64) linarith
  obtain t where t: "ext2_block_from_offset (word_of_int (int c)) s = Inr (0, t)" "same_but_buffer s t"
    using ext2_block_from_offset_run [OF s, of "word_of_int (int c)"] map n32 hole unfolding u by auto
  have ts: "map_state t" "fe_cursor (fe t) = int c" "bsize t = bsize s" "file_block_ok t = file_block_ok s"
    using t(2) s c by (auto simp: same_but_buffer_def)
  obtain b v where v: "ext2_block_from_offset (word_of_int ((int c sdiv int (bsize s) - 1) * int (bsize s))) t
      = Inr (b, v)" "same_but_buffer t v"
    using previous_block_run [OF ts(1,2) c(2)] map ts by auto
  have size: "ext2_block_size t = Inr (of_nat (bsize s), t)" "uint (of_nat (bsize s) :: u32) = int (bsize s)"
    using ext2_block_size_run [of t] ts(1,3) unat_bsize [of s] s
    by (simp_all add: map_state_def) (metis le_less_trans uint_nat map_state_log s)
  have r: "int c smod int (bsize s) = int (c mod bsize s)"
    using bs by (simp add: smod_nonneg zmod_int)
  have sv: "v = s \<or> (\<exists>m. v = searched m (cx_sysbuf (ctx s)) s)"
    using same_but_buffer_searched [OF same_but_buffer_trans [OF t(2) v(2)] s] .
  from searched_alloc [OF this s] have vs: "alloc_block_ok v g = alloc_block_ok s g" "free_block_bit v = free_block_bit s"
    "found_block v = found_block s" "alloc_ok v = alloc_ok s" "is_allocated v = is_allocated s" "map_state v"
    "spb v = spb s" "in_part v = in_part s" "dev (changed_alloc N v) = dev (changed_alloc N s)"
    "fe v = (fe s)\<lparr>fe_buffer := buf v\<rparr>"
    by blast+
  have "alloc_block_ok v g" "free_block_bit v g k" "N = found_block v g k" "alloc_ok v N" "\<not> is_allocated v N"
    using ok f N n by (simp_all only: vs not_False_eq_True)
  note al = allocate_block_run [OF this]
  obtain m x y where al: "ext2_allocate_block b v = Inr (N, with_sysbuf y (changed_alloc N (searched m x v)))"
    using al by blast
  let ?w = "with_sysbuf y (changed_alloc N (searched m x v))"
  let ?u = "fe_update (fe_inode_update (i_block_update (\<lambda>bs. bs[0 := N]))) ?w"
    and ?m = "unat N * spb s + c mod bsize s div 512"
  have dev: "dev ?u = dev (changed_alloc N s)"
    using vs(9) changed_alloc_dev [of "searched m x v" v N] by simp
  have v': "spb ?u = spb s" "in_part ?u = in_part s" "bo_dirty (buf ?u) = 0" "s_log_block_size (sb ?u) = s_log_block_size (sb v)"
    using vs(7,8) by (simp_all add: spb_def in_part_def dev changed_alloc_def Let_def put_sector_def fun_eq_iff)
  have pc: "pc_ok (dev ?u)"
    unfolding dev using n(1) by (rule changed_alloc_sectors(1))
  then have mu: "map_state ?u"
    using vs(6) v'(3,4) by (simp add: map_state_def)
  have m: "c mod bsize s < bsize s" "c mod bsize s < 4294967296"
    using bs by (auto intro: less_le_trans [OF mod_less_divisor])
  have um: "unat (of_nat (c mod bsize s) :: u32) = c mod bsize s"
    using m(2) by (rule unat_of_nat32)
  have "c mod bsize s div 512 < spb s"
    using m(1) unfolding bsize_spb by (intro less_mult_imp_div_less) (simp add: mult.commute)
  then have inp: "in_part ?u ?m"
    using blk_ok_in_part [OF N(3)] v'(2) by simp
  have load: "ext2_load_buffer N (word_of_int (int (c mod bsize s))) ?u = Inr (0, loaded ?m ?u)"
    using mu inp v'(1) by (intro ext2_load_buffer_clean) (simp_all add: map_state_def um)
  have "fe_flags (fe v) = fe_flags (fe s)"
    by (subst vs(10)) simp
  then have "ext2_select_buffer s = Inr (0, loaded ?m ?u)"
    using w N(2) load
    by (simp only: ext2_select_buffer_def bnd_gets c(1) bnd_Inr t(1) size v(1) r if_False not_True_eq_False)
      (simp add: bnd_Inr al set_i_block_def upd_inode_def)
  moreover have "fe ?u = (fe s)\<lparr>fe_inode := (ino s)\<lparr>i_block := (i_block (ino s))[0 := N]\<rparr>, fe_buffer := buf ?u\<rparr>"
    by (simp add: searched_def loaded_def with_sysbuf_def) (subst vs(10), simp)
  ultimately show ?thesis
    using mu dev v' by blast
qed

text \<open>C13: a file cannot grow beyond its first block. A write into a block that is not allocated yet gets a new block,
  but that block is put into \<open>i_block[0]\<close>, whatever block of the file was asked for. The call reports success and
  the file gets its new size; but the block under the cursor is still missing, the block the file had first is no
  longer in the map, and the bytes are found in the first block of the file, at the place they should have in the
  other one.\<close>

theorem growing_replaces_the_first_block:
  assumes s: "map_state s" and c: "fe_cursor (fe s) = int c" "c + length bytes < 4294967296"
    and later: "0 < c div bsize s" "c div bsize s < 12" and hole: "i_block (ino s) ! (c div bsize s) = 0"
    and len: "length (i_block (ino s)) = 15" and b: "bytes \<noteq> []" "c mod 512 + length bytes \<le> 512"
    and m: "fe_magic (fe s) = EMBEXT_MAGIC" and w: "fe_flags (fe s) AND EXT2_FLAG_WRITE \<noteq> 0"
    and na: "fe_flags (fe s) AND EXT2_FLAG_APPEND = 0"
    and ok: "alloc_block_ok s g" and f: "free_block_bit s g k" and N: "N = found_block s g k" "N \<noteq> 0" "blk_ok s N"
    and n: "alloc_ok s N" "\<not> is_allocated s N"
  shows "\<exists>t. ext2_write TheFe bytes s = Inr (int (length bytes), t)
    \<and> unat (i_size (ino t)) = max (unat (i_size (ino s))) (c + length bytes)
    \<and> i_block (ino t) = (i_block (ino s))[0 := N] \<and> file_block (settled t) (c div bsize s) = 0
    \<and> (\<forall>j<length bytes. file_byte (settled t) (c mod bsize s + j) = bytes ! j)"
proof -
  let ?c = "c mod bsize s" and ?m = "unat N * spb s + c mod bsize s div 512"
  have c32: "c < 4294967296"
    using c(2) by simp
  have map: "file_block_ok s (c div bsize s)" "file_block_ok s (c div bsize s - 1)" "file_block s (c div bsize s) = 0"
    using later hole less_imp_diff_less [OF later(2)] by (simp_all add: file_block_ok_def file_block_def Let_def)
  obtain u where u: "ext2_select_buffer s = Inr (0, loaded ?m u)" "map_state u"
    "fe u = (fe s)\<lparr>fe_inode := (ino s)\<lparr>i_block := (i_block (ino s))[0 := N]\<rparr>, fe_buffer := buf u\<rparr>"
    "in_part u = in_part s" "spb u = spb s"
    using select_hole_run [OF s c(1) c32 map w ok f N n] by blast
  have uf: "ino u = (ino s)\<lparr>i_block := (i_block (ino s))[0 := N]\<rparr>" "fe_cursor (fe u) = fe_cursor (fe s)"
    by (subst u(3), simp)+
  let ?v = "loaded ?m u"
  have t0: "map_state ?v" "ino ?v = (ino s)\<lparr>i_block := (i_block (ino s))[0 := N]\<rparr>" "fe_cursor (fe ?v) = int c"
    "bsize ?v = bsize s" "blk_ok ?v = blk_ok s"
    using u(2,4,5) c(1) uf by (simp_all add: bsize_spb blk_ok_def fun_eq_iff)
  have bs: "0 < bsize s" "bsize s = 512 * spb s"
    using map_state_bsize [OF s] by (auto simp: bsize_spb)
  have mod: "?c mod 512 = c mod 512" "?c < bsize s"
    using bs(1) mod_less_divisor by (simp add: bs(2) mod_mult2_eq, blast)
  have fb: "file_block u 0 = N" "file_block_ok u 0" "bsize u = bsize s" "blk_ok u = blk_ok s"
    using len t0(4,5) by (simp_all add: file_block_def file_block_ok_def uf(1))
  then have sec: "byte_sector ?v ?c = ?m"
    using mod(2) u(5) by (simp add: byte_sector_def)
  have bok: "byte_ok ?v ?c"
    using mod(2) N(2,3) fb by (simp add: byte_ok_def)
  let ?t = "after_write ?c bytes ?v"
  have io: "io_state ?v" "settled ?v = ?v"
    using t0(1) by (simp_all add: io_state_def map_state_def settled_def)
  have "length bytes < 2 ^ 63"
    using c(2) by simp
  moreover have "?t = modified (grown (advanced (length bytes) (patched (c mod 512) bytes ?v)))"
    unfolding after_write_def put_bytes_def io(2) sec using b(1) mod(1) by simp
  ultimately have run: "ext2_write TheFe bytes s = Inr (int (length bytes), ?t)"
    using ext2_write_selected [of bytes s ?v c] u(1) t0(1,3) m w na b by simp
  have ib: "i_block (ino ?t) = (i_block (ino s))[0 := N]" "i_block (ino (settled ?t)) = (i_block (ino s))[0 := N]"
    using after_write_fields(4) [OF b(1), of ?c ?v] t0(2) by simp_all
  then have "file_block (settled ?t) (c div bsize s) = 0"
    using later hole by (simp add: file_block_def)
  moreover have "unat (i_size (ino ?t)) = max (unat (i_size (ino s))) (c + length bytes)"
    using after_write_size [OF t0(3) c(2) b(1), of ?c] t0(2) by simp
  moreover have "file_byte (settled ?t) (?c + j) = bytes ! j" if "j < length bytes" for j
  proof -
    have "(?c + j) div 512 = ?c div 512"
      using b(2) mod(1) that by (intro same_sector [where n = "length bytes"]) simp_all
    moreover from this have "(?c + j) div (512 * spb s) = ?c div (512 * spb s)"
      by (simp only: div_mult2_eq)
    then have "(?c + j) div bsize s = 0"
      using mod(2) by (simp only: bs(2) [symmetric]) simp
    moreover from this have "byte_ok ?v (?c + j)" "undisturbed ?v k (?c + j)" for k
      using N(2,3) fb by (simp_all add: byte_ok_def undisturbed_def map_path_def)
    ultimately show ?thesis
      using file_byte_after_write [of ?v ?c bytes "?c + j", unfolded io(2)] io(1) bok b mod(1) that by simp
  qed
  ultimately show ?thesis
    using run ib(1) by blast
qed

lemma growing_replaces_the_first_block_witness:
  "\<exists>t. ext2_write TheFe [1, 2] demo_gap = Inr (2, t) \<and> unat (i_size (ino t)) = 1026
    \<and> i_block (ino t) = (replicate 15 0)[0 := 7] \<and> file_block (settled t) 1 = 0 \<and> file_byte (settled t) 1 = 2"
proof -
  have "blk_ok demo_gap 7"
    by (simp add: blk_ok_def)
  with demo_gap_ok have "\<exists>t. ext2_write TheFe [1, 2] demo_gap = Inr (int (length [1, 2 :: u8]), t)
    \<and> unat (i_size (ino t)) = max (unat (i_size (ino demo_gap))) (1024 + length [1, 2 :: u8])
    \<and> i_block (ino t) = (i_block (ino demo_gap))[0 := 7] \<and> file_block (settled t) (1024 div bsize demo_gap) = 0
    \<and> (\<forall>j<length [1, 2 :: u8]. file_byte (settled t) (1024 mod bsize demo_gap + j) = [1, 2] ! j)"
    by (intro growing_replaces_the_first_block [where g = 0 and k = 6]) (simp_all add: flag_defs)
  then obtain t where t: "ext2_write TheFe [1, 2] demo_gap = Inr (2, t)" "unat (i_size (ino t)) = 1026"
    "i_block (ino t) = (replicate 15 0)[0 := 7]" "file_block (settled t) 1 = 0"
    "\<forall>j<2. file_byte (settled t) j = [1, 2] ! j"
    by (elim exE conjE) simp
  then show ?thesis
    using spec [OF t(5), of 1] by auto
qed

end
