(* ===== verification/Ext2_Truncate.thy ===== *)
theory Ext2_Truncate
  imports Ext2_Alloc_Block
begin

text \<open>
  Truncating a file: \<open>ext2_truncate_file\<close> frees the blocks that the map of the inode lists, the direct ones,
  those of the indirect and of the double indirect block, and these blocks themselves. \<open>file_blocks\<close> is that
  list, read off the disk; \<open>freeing\<close> is what holds after some of it is freed.
\<close>

unbundle bit_operations_syntax

section \<open>Freeing blocks one after the other\<close>

text \<open>Where the bit of a block is looked for: the sector, the byte in it and the bit.\<close>

definition bit_place :: "fs \<Rightarrow> u32 \<Rightarrow> nat \<times> nat \<times> nat" where
  "bit_place s b = (bitmap_sector s b, block_bit s b div 8 mod 512, block_bit s b mod 8)"

text \<open>A set of blocks whose bits lie apart from each other and from the descriptors.\<close>

definition blocks_ok :: "fs \<Rightarrow> u32 set \<Rightarrow> bool" where
  "blocks_ok s B \<longleftrightarrow> (\<forall>b\<in>B. alloc_ok s b) \<and> inj_on (bit_place s) B
     \<and> (\<forall>b\<in>B. \<forall>c\<in>B. bitmap_sector s b \<noteq> bg_sector s (block_group s c))"





lemma blocks_ok_with_sysbuf [simp]: "blocks_ok (with_sysbuf x s) B = blocks_ok s B"
proof -
  have "bit_place (with_sysbuf x s) = bit_place s"
    by (simp add: bit_place_def fun_eq_iff)
  then show ?thesis
    by (simp add: blocks_ok_def)
qed


section \<open>The blocks listed in an indirect block\<close>




lemma blocks_ok_loaded [simp]: "blocks_ok (loaded m s) B = blocks_ok s B"
  "bitmap_sector (loaded m s) = bitmap_sector s" "is_allocated (loaded m s) = is_allocated s"
proof -
  have "with_sysbuf (cx_sysbuf (ctx s)) s = s"
    by (simp add: with_sysbuf_def)
  then have l: "loaded m s = searched m (cx_sysbuf (ctx s)) s"
    by (simp add: searched_def)
  show "bitmap_sector (loaded m s) = bitmap_sector s" "is_allocated (loaded m s) = is_allocated s"
    by (simp_all add: l)
  have "bit_place (loaded m s) = bit_place s"
    by (simp add: l bit_place_def fun_eq_iff)
  then show "blocks_ok (loaded m s) B = blocks_ok s B"
    by (simp add: blocks_ok_def) (simp add: l)
qed





section \<open>The blocks of a file\<close>








definition cleared :: "nat list \<Rightarrow> u32 list \<Rightarrow> u32 list" where
  "cleared ks ib = fold (\<lambda>k ib. ib[k := 0]) ks ib"

lemma length_cleared [simp]: "length (cleared ks ib) = length ib"
  by (induction ks arbitrary: ib) (simp_all add: cleared_def)






section \<open>The whole function\<close>






text \<open>The demo volume with all the bits set where the driver looks for them.\<close>

definition demo_used :: fs where
  "demo_used = put_sector 3 (0xFF # replicate 511 0) demo_fs"

lemma demo_used_fields [simp]:
  "ctx demo_used = demo_ctx" "fe demo_used = fe demo_fs" "in_part demo_used n = (n < 16)" "spb demo_used = 2" "bsize demo_used = 1024"
  "pc_ok (dev demo_used)" "m < 16 \<Longrightarrow> part_sector demo_used m = (if m = 3 then 0xFF # replicate 511 0 else demo_sector m)"
  using put_sector_run(2,3) [of demo_fs 3 "0xFF # replicate 511 0"] by (simp_all add: demo_used_def bsize_spb)

lemma demo_used_groups [simp]:
  "bg_sector demo_used 0 = 4" "tables_ok demo_used 0"
  "unat b < 8 \<Longrightarrow> block_group demo_used b = 0" "unat b < 8 \<Longrightarrow> block_bit demo_used b = unat b"
  by (simp_all add: bg_sector_def block_group_def block_bit_def tables_ok_def table_sector_def)

lemma demo_used_bitmap [simp]:
  "bg_desc demo_used 0 = demo_bg" "unat b < 8 \<Longrightarrow> bitmap_sector demo_used b = 3"
proof -
  have "bg_desc demo_fs 0 = demo_bg"
    by simp
  then show "bg_desc demo_used 0 = demo_bg"
    by (simp add: bg_desc_def)
  then show "bitmap_sector demo_used b = 3" if "unat b < 8"
    using that by (simp add: bitmap_sector_def)
qed


end
