(* ===== verification/Ext2_Damaged.thy ===== *)
theory Ext2_Damaged
  imports Ext2_Append
begin

text \<open>
  A damaged directory: when the last block begins with an entry of length 0, the search for its last entry
  stays at this entry, and \<open>ext2_append_to_directory\<close> does not return.
\<close>

unbundle bit_operations_syntax

lemma last_entry_stuck:
  assumes "editing d n f s" "cursor_ok s" "c mod 512 + 8 \<le> 512" "c + 8 \<le> n" "rec_len_at f c = 0" "int c - int base < bs"
    and "int c = int base + (off + uint (dh_rec_len h))"
  shows "last_entry fuel bs (int base) off h s = Inl Out_of_fuel"
  using assms
proof (induction fuel arbitrary: s off h)
  case 0
  then show ?case
    by (simp add: fail_def)
next
  case (Suc m)
  obtain t where t: "last_entry (Suc m) bs (int base) off h s
      = (if int c - int base + int (rec_len_at f c) < bs then last_entry m bs (int base) (int c - int base) (header_at f c)
         else ret (Some (int c - int base, header_at f c))) t"
    "editing d n f t" "cursor_ok t"
    using last_entry_step [OF Suc.prems(1-4,7), of m bs] by blast
  have "uint (dh_rec_len (header_at f c)) = int (rec_len_at f c)"
    by (simp only: rec_len_at_def uint_nat)
  then have "int c = int base + (int c - int base + uint (dh_rec_len (header_at f c)))"
    using Suc.prems(5) by simp
  then show ?case
    using Suc.IH [OF t(2,3) Suc.prems(3-6)] Suc.prems(5,6) t(1) by simp
qed

lemma append_entry_stuck:
  assumes e: "editing d n f s" "cursor_ok s" and bs: "bs \<le> n" "n mod bs = 0" "512 dvd bs" "0 < bs" and z: "rec_len_at f (n - bs) = 0"
  shows "append_entry fuel (int bs) inode name s = Inl Out_of_fuel"
proof -
  let ?c = "n - bs" and ?zero = "\<lparr>dh_inode = 0, dh_rec_len = 0, dh_name_len = 0, dh_file_type = 0\<rparr>"
  note end_ = edit_seek_end [OF e]
  have "512 dvd n"
    using bs(2,3) by (meson dvd_eq_mod_eq_0 dvd_trans)
  then have "512 dvd ?c"
    using bs(3) by (rule dvd_diff_nat)
  moreover have "512 \<le> bs"
    using bs(3,4) by (simp add: dvd_imp_le)
  ultimately have c: "?c mod 512 + 8 \<le> 512" "?c + 8 \<le> n" "int n - int bs = int ?c"
    using bs(1) by (simp_all add: dvd_eq_mod_eq_0 of_nat_diff)
  have stuck: "last_entry fuel (int bs) (int ?c) 0 ?zero (seeked (int n) s) = Inl Out_of_fuel"
    using bs(4) by (intro last_entry_stuck [OF conjunct1 [OF conjunct2 [OF end_]] conjunct2 [OF conjunct2 [OF end_]] c(1,2) z]) simp_all
  have smod: "int n smod int bs = 0"
    using bs(2,4) by (simp add: smod_nonneg zmod_int [symmetric])
  show ?thesis
    unfolding append_entry_def
    by (simp add: bnd_Inr [of "ext2_lseek TheFe 0 SEEK_END", OF conjunct1 [OF end_]] smod Let_def c(3) bnd_Inl [of "last_entry fuel (int bs) (int ?c) 0 ?zero", OF stuck])
qed

lemma names_entry_mono: "names_entry d n nm e \<Longrightarrow> n \<le> m \<Longrightarrow> names_entry d m nm e"
  by (auto simp: names_entry_def)

lemma resolves_mono: "resolves s n i names j \<Longrightarrow> n \<le> m \<Longrightarrow> resolves s m i names j"
  by (induction rule: resolves.induct) (auto intro: resolves.intros names_entry_mono)

text \<open>C19: appending to a directory whose last block begins with an entry of length 0 never returns: whatever bound is put
  on the number of rounds, it is used up.\<close>

theorem append_to_a_damaged_directory_never_ends:
  assumes s: "mounted_ok s" "cx_read_only (ctx s) = 0" and r: "resolves (fresh s) n EXT2_ROOT_INO (path_elements directory) k"
    and k: "inode_ok s k" and d: "dir_file (opened_inode k s) dsz"
    and z: "rec_len_at (file_byte (opened_inode k s)) (dsz - bsize s) = 0" and m: "n \<le> m"
  shows "ext2_append_to_directory (Suc (Suc m)) directory inode filename s = Inl Out_of_fuel"
proof -
  obtain t where t: "ext2_open (Suc m) directory O_RDWR 0x3FF s = Inr (True, opened_rw k t)" "lookup_state t" "same_disk s t"
    using open_dir_rw [OF s resolves_mono [OF r m] k] by blast
  note e = edit_opened_rw [OF d t(2,3) k]
  have log: "unat (s_log_block_size (sb s)) \<le> 2"
    using s(1) by (simp add: mounted_ok_def)
  have bs: "uint (of_nat (bsize s) :: u32) = int (bsize s)" "ext2_block_size s = Inr (of_nat (bsize s), s)" "bsize (opened_inode k s) = bsize s"
    "512 dvd bsize s" "0 < bsize s"
    using unat_bsize [of s] log block_size_spb(1) [OF log] same_disk_sectors(6) [OF opened_inode_same_disk, of k s] bsize_spb [of s]
    by (simp_all only: uint_nat) (simp_all add: bsize_def)
  have cur: "cursor_ok (opened_rw k t)"
    by (simp add: cursor_ok_def opened_rw_fields INT64_MAX_def)
  have "append_entry (Suc m) (int (bsize s)) inode filename (opened_rw k t) = Inl Out_of_fuel"
    using d z bs(3-5) by (intro append_entry_stuck [OF e(3) cur]) (simp_all add: dir_file_def)
  then show ?thesis
    unfolding ext2_append_to_directory.simps
    by (simp only: bnd_Inr [of ext2_block_size, OF bs(2)] bnd_Inr [of "ext2_open (Suc m) directory O_RDWR 0x3FF", OF t(1)] bs(1)
        not_True_eq_False if_False)
qed

text \<open>The root directory of the demo volume with its block wiped.\<close>

definition demo_wiped :: fs where
  "demo_wiped = put_sector 12 (replicate 512 0) demo_fs"

lemma demo_wiped_sectors: "pc_ok (dev demo_wiped)" "m < 16 \<Longrightarrow> part_sector demo_wiped m = (if m = 12 then replicate 512 0 else demo_sector m)"
  unfolding demo_wiped_def using put_sector_run(2,3) [of demo_fs 12 "replicate 512 0"] by simp_all

lemma demo_wiped_inode:
  "inode_ok demo_wiped 2" "disk_inode demo_wiped 2 = demo_root" "inode_sector demo_wiped 2 = 10" "inode_group demo_wiped 2 = 0"
  "bg_sector demo_wiped 0 = 4"
proof -
  have geo: "same_geometry demo_fs demo_wiped"
    by (simp add: same_geometry_def demo_wiped_def)
  note iv = inode_view [OF geo, of 2]
  show "inode_ok demo_wiped 2" "disk_inode demo_wiped 2 = demo_root" "inode_sector demo_wiped 2 = 10" "inode_group demo_wiped 2 = 0"
    "bg_sector demo_wiped 0 = 4"
    using iv demo_disk_inode(2) by (simp_all add: demo_wiped_sectors disk_inode_def)
qed

lemma demo_wiped_dir: "dir_file (opened_inode 2 demo_wiped) 1024" "rec_len_at (file_byte (opened_inode 2 demo_wiped)) 0 = 0"
proof -
  let ?d = "opened_inode 2 demo_wiped"
  note v = same_disk_sectors [OF opened_inode_same_disk, of 2 demo_wiped]
    and g = inode_sector_same_disk [OF opened_inode_same_disk, of 2 demo_wiped] same_disk_inodes(1) [OF opened_inode_same_disk, of 2 demo_wiped]
  have i: "ino ?d = demo_root" "fe_inode_number (fe ?d) = 2"
    by (simp_all add: opened_inode_def demo_wiped_inode)
  have p: "in_part ?d = in_part demo_fs" "spb ?d = 2" "bsize ?d = 1024"
    unfolding v by (simp_all add: demo_wiped_def bsize_def)
  have sec: "byte_sector ?d j = 12 + j div 512" "undisturbed ?d x j" "byte_ok ?d j" if "j < 1024" for j x
    using that by (simp_all add: byte_sector_def file_block_def undisturbed_def map_path_def byte_ok_def file_block_ok_def blk_ok_def i p Let_def)
  show "dir_file ?d 1024"
    using sec by (simp add: dir_file_def i p layout_ok_def inode_apart_def Let_def g demo_wiped_inode)
  have "file_byte ?d j = 0" if "j < 512" for j
    using sec(1) [of j] that by (simp add: file_byte_def v demo_wiped_sectors)
  then have "map (file_byte ?d) [0..<8] = replicate 8 0"
    by (simp add: map_replicate_const upt_conv_Cons numeral_eq_Suc)
  then show "rec_len_at (file_byte ?d) 0 = 0"
    by (simp add: rec_len_at_def header_at_def decode_dir_header_def rd2_def numeral_eq_Suc)
qed

lemma append_to_a_damaged_directory_never_ends_witness:
  "\<forall>m. ext2_append_to_directory (Suc (Suc m)) [slash] 5 [98] demo_wiped = Inl Out_of_fuel"
proof
  fix m
  have w: "mounted_ok demo_wiped" "cx_read_only (ctx demo_wiped) = 0" "bsize demo_wiped = 1024"
    using demo_wiped_sectors(1) demo_fresh(1) by (simp_all add: mounted_ok_def demo_wiped_def put_sector_def bsize_def)
  have "path_elements [slash] = []"
    by (simp add: path_elements_def tokens.simps [of "[slash]"] MAX_PATH_LEN_def)
  then have "resolves (fresh demo_wiped) 0 EXT2_ROOT_INO (path_elements [slash]) 2"
    by (simp add: EXT2_ROOT_INO_def resolves_Nil)
  then show "ext2_append_to_directory (Suc (Suc m)) [slash] 5 [98] demo_wiped = Inl Out_of_fuel"
    using append_to_a_damaged_directory_never_ends [OF w(1,2) _ demo_wiped_inode(1) demo_wiped_dir(1), of 0 "[slash]" m] demo_wiped_dir(2) w(3)
    by (simp del: ext2_append_to_directory.simps)
qed

end
