(* ===== verification/Ext2_Debug.thy ===== *)
theory Ext2_Debug
  imports Ext2_Alloc
begin

text \<open>
  The debug output of \<open>embext.c\<close> (lines 104 to 197, under \<open>EMBEXT_DEBUG\<close>): what
  \<open>ext2_print_inode\<close> and \<open>ext2_print_bg1_bitmap\<close> write to the standard output, as text. The lemmas
  show what can be read back from it and that the numbers it gives are those of the volume.
\<close>

unbundle bit_operations_syntax

section \<open>Numbers as printf writes them\<close>

definition digit :: "nat \<Rightarrow> char" where
  "digit n = ''0123456789abcdef'' ! n"

function show_base :: "nat \<Rightarrow> nat \<Rightarrow> string" where
  "show_base b n = (if n < b \<or> b < 2 then [digit n] else show_base b (n div b) @ [digit (n mod b)])"
  by pat_completeness auto
termination
  by (relation "measure snd") auto

declare show_base.simps [simp del]

definition newline :: char where "newline = CHR 0x0A"

text \<open>\<open>%u\<close>, \<open>%o\<close>, \<open>%d\<close> of a 32-bit value, and \<open>%02x\<close> of a byte.\<close>

definition show_u :: "nat \<Rightarrow> string" where "show_u n = show_base 10 n"
definition show_o :: "nat \<Rightarrow> string" where "show_o n = show_base 8 n"

definition show_d :: "u32 \<Rightarrow> string" where
  "show_d w = (if sint w < 0 then CHR 0x2D # show_u (nat (- sint w)) else show_u (nat (sint w)))"

definition show_02x :: "u8 \<Rightarrow> string" where
  "show_02x b = [digit (unat b div 16), digit (unat b mod 16)]"

section \<open>ext2_print_inode\<close>

definition print_line :: "string \<Rightarrow> string \<Rightarrow> string" where
  "print_line label value = label @ value @ [newline]"

text \<open>A byte of \<open>i_osd2\<close>: itself when it is printable, escaped otherwise.\<close>

definition print_char :: "u8 \<Rightarrow> string" where
  "print_char b = (if unat b < 32 \<or> 126 < unat b then CHR 0x5C # CHR 0x78 # show_02x b else [char_of (unat b)])"

definition inode_text :: "inode \<Rightarrow> string" where
  "inode_text i =
     print_line ''i_mode = 0'' (show_o (unat (i_mode i)))
     @ print_line ''i_uid = '' (show_u (unat (i_uid i)))
     @ print_line ''i_size = '' (show_u (unat (i_size i)))
     @ print_line ''i_atime = '' (show_u (unat (i_atime i)))
     @ print_line ''i_ctime = '' (show_u (unat (i_ctime i)))
     @ print_line ''i_mtime = '' (show_u (unat (i_mtime i)))
     @ print_line ''i_dtime = '' (show_u (unat (i_dtime i)))
     @ print_line ''i_gid = '' (show_u (unat (i_gid i)))
     @ print_line ''i_links_count = '' (show_u (unat (i_links_count i)))
     @ print_line ''i_blocks = '' (show_u (unat (i_blocks i)))
     @ print_line ''i_flags = '' (show_u (unat (i_flags i)))
     @ print_line ''i_osd1 = '' (show_u (unat (i_osd1 i)))
     @ print_line ''i_block = ['' ''''
     @ concat (map (\<lambda>k. print_line ''  '' (show_u (unat (i_block i ! k)) @ '','')) [0..<15])
     @ print_line ''  ]'' ''''
     @ print_line ''i_generation = '' (show_u (unat (i_generation i)))
     @ print_line ''i_file_acl = '' (show_u (unat (i_file_acl i)))
     @ print_line ''i_dir_acl = '' (show_u (unat (i_dir_acl i)))
     @ print_line ''i_faddr = '' (show_u (unat (i_faddr i)))
     @ ''i_osd2 = '' @ [CHR 0x22] @ concat (map (\<lambda>k. print_char (i_osd2 i ! k)) [0..<12]) @ [CHR 0x22, newline]"

definition ext2_print_inode :: "(fs, string) cm" where
  "ext2_print_inode = gets (\<lambda>s. inode_text (ino s))"

section \<open>ext2_print_bg1_bitmap\<close>

text \<open>One sector of the bitmap: 16 lines of 32 bytes, and the count of used bits carried along.\<close>

definition dump_sector :: "u8 list \<Rightarrow> string" where
  "dump_sector sys = concat (map (\<lambda>j. concat (map (\<lambda>i. show_02x (sys ! (j * 32 + i))) [0..<32]) @ [newline]) [0..<16])"

definition count_byte :: "u8 \<Rightarrow> u32 \<Rightarrow> u32" where
  "count_byte b nused = (if b \<noteq> 0 then fold (\<lambda>k n. if b AND push_bit k 1 \<noteq> 0 then n + 1 else n) [0..<8] nused
                         else nused)"

definition count_sector :: "u8 list \<Rightarrow> u32 \<Rightarrow> u32" where
  "count_sector sys nused = fold (\<lambda>j. fold (\<lambda>i. count_byte (sys ! (j * 32 + i))) [0..<32]) [0..<16] nused"

primrec bitmap_loop :: "nat \<Rightarrow> u32 \<Rightarrow> u32 \<Rightarrow> u32 \<Rightarrow> string \<Rightarrow> (fs, u32 \<times> u32 \<times> string) cm" where
  "bitmap_loop 0 bmp_read bmp_block nused out = fail Out_of_fuel"
| "bitmap_loop (Suc fuel) bmp_read bmp_block nused out =
     bnd (gets (\<lambda>s. s_log_block_size (sb s))) (\<lambda>l.
     bnd (c_shl 1024 l) (\<lambda>limit.
     if \<not> bmp_read < limit then ret (bmp_read, nused, out) else
     bnd (sys_read bmp_block) (\<lambda>_.
     bnd (gets (\<lambda>s. cx_sysbuf (ctx s))) (\<lambda>sys.
     bitmap_loop fuel (bmp_read + 512) (bmp_block + 1) (count_sector sys nused) (out @ dump_sector sys)))))"

definition group_text :: "block_group_descriptor \<Rightarrow> u32 \<Rightarrow> string" where
  "group_text bg blocks_per_group =
     print_line ''bg_block_bitmap = '' (show_u (unat (bg_block_bitmap bg)))
     @ print_line ''bg_inode_bitmap = '' (show_u (unat (bg_inode_bitmap bg)))
     @ print_line ''bg_inode_table = '' (show_u (unat (bg_inode_table bg)))
     @ print_line ''bg_free_blocks_count = ''
         (show_u (unat (bg_free_blocks_count bg)) @ '' (of '' @ show_u (unat blocks_per_group) @ '')'')
     @ print_line ''bg_free_inodes_count = '' (show_u (unat (bg_free_inodes_count bg)))
     @ print_line ''bg_used_dirs_count = '' (show_u (unat (bg_used_dirs_count bg)))"

definition total_text :: "u32 \<Rightarrow> u32 \<Rightarrow> string" where
  "total_text bmp_read nused =
     [newline] @ print_line ''Total bitmap entries = ''
       (show_d (bmp_read * 8) @ '', used = '' @ show_d nused @ '', free = '' @ show_d (bmp_read * 8 - nused))"

text \<open>The group whose bitmap is printed is group 0, whatever the name of the function says.\<close>

definition ext2_print_bg1_bitmap :: "nat \<Rightarrow> (fs, string) cm" where
  "ext2_print_bg1_bitmap fuel =
     bnd (gets (\<lambda>s. s_blocks_count (sb s))) (\<lambda>count.
     bnd (gets (\<lambda>s. s_blocks_per_group (sb s))) (\<lambda>bpg.
     bnd (c_div count bpg) (\<lambda>full.
     bnd (c_mod count bpg) (\<lambda>rest.
     let block_group_count = (if rest \<noteq> 0 then full + 1 else full) in
     bnd (gets (\<lambda>s. s_log_block_size (sb s) + 1)) (\<lambda>l.
     bnd (gets (\<lambda>s. cx_superblock_block (ctx s) + 1)) (\<lambda>table.
     bnd (c_shl table l) (\<lambda>bg_block.
     bnd (gets (\<lambda>s. bg_block + 0 * 32 div block_get_block_size + cx_part_start (ctx s))) (\<lambda>b.
     bnd (sys_read b) (\<lambda>_.
     bnd (gets (\<lambda>s. decode_block_group_descriptor (slice 0 sizeof_block_group_descriptor (cx_sysbuf (ctx s))))) (\<lambda>block_table.
     bnd (c_shl (bg_block_bitmap block_table) l) (\<lambda>bmp_block.
     bnd (gets (\<lambda>s. bmp_block + cx_part_start (ctx s))) (\<lambda>bmp_block.
     bnd (bitmap_loop fuel 0 bmp_block 0 '''') (\<lambda>(bmp_read, nused, rows).
     ret (print_line ''block group count = '' (show_d block_group_count) @ group_text block_table bpg @ rows
          @ total_text bmp_read nused))))))))))))))"

section \<open>Reading the text back\<close>

definition digit_value :: "char \<Rightarrow> nat" where
  "digit_value c = length (takeWhile (\<lambda>d. d \<noteq> c) ''0123456789abcdef'')"

definition read_base :: "nat \<Rightarrow> string \<Rightarrow> nat" where
  "read_base b cs = foldl (\<lambda>n c. b * n + digit_value c) 0 cs"

fun read_hex :: "string \<Rightarrow> u8 list" where
  "read_hex (a # b # cs) = of_nat (16 * digit_value a + digit_value b) # read_hex cs"
| "read_hex cs = []"

text \<open>The bytes of a hexadecimal dump in lines.\<close>

definition read_dump :: "string \<Rightarrow> u8 list" where
  "read_dump cs = read_hex (filter (\<lambda>c. c \<noteq> newline) cs)"

lemma digits: "\<forall>n\<in>set [0..<16]. digit_value (digit n) = n \<and> digit n \<noteq> newline"
  by code_simp

lemma digit_value [simp]: "n < 16 \<Longrightarrow> digit_value (digit n) = n"
  using digits by simp

lemma digit_no_newline [simp]: "n < 16 \<Longrightarrow> digit n \<noteq> newline" "n < 16 \<Longrightarrow> newline \<noteq> digit n"
proof -
  assume "n < 16"
  then have "digit n \<noteq> newline"
    using digits by simp
  then show "digit n \<noteq> newline" "newline \<noteq> digit n"
    by auto
qed

lemma read_show_base [simp]: "2 \<le> b \<Longrightarrow> b \<le> 16 \<Longrightarrow> read_base b (show_base b n) = n"
proof (induction b n rule: show_base.induct)
  case (1 b n)
  have "n mod b < 16"
    using 1(2,3) mod_less_divisor [of b n] by linarith
  then show ?case
    using 1 by (subst show_base.simps) (auto simp: read_base_def)
qed

lemma show_base_no_newline: "2 \<le> b \<Longrightarrow> b \<le> 16 \<Longrightarrow> newline \<notin> set (show_base b n)"
proof (induction b n rule: show_base.induct)
  case (1 b n)
  have "n mod b < 16"
    using 1(2,3) mod_less_divisor [of b n] by linarith
  then show ?case
    using 1 by (subst show_base.simps) auto
qed

lemma read_show [simp]: "read_base 10 (show_u n) = n" "read_base 8 (show_o n) = n"
  by (simp_all add: show_u_def show_o_def)

lemma show_no_newline [simp]: "newline \<notin> set (show_u n)" "newline \<notin> set (show_o n)"
  by (simp_all add: show_u_def show_o_def show_base_no_newline)

lemma show_d_small: "n < 2 ^ 31 \<Longrightarrow> show_d (of_nat n) = show_u n"
proof -
  assume n: "n < 2 ^ 31"
  have "sint (of_nat n :: u32) = int n"
    using n by (simp only: signed_of_nat) (simp add: signed_take_bit_int_eq_self)
  then show ?thesis
    by (simp add: show_d_def)
qed

lemma show_02x_digits:
  "read_hex (show_02x b @ cs) = b # read_hex cs" "newline \<notin> set (show_02x b)"
proof -
  have "unat b div 16 < 16" "unat b mod 16 < 16"
    using unat_byte [of b] by auto
  then show "read_hex (show_02x b @ cs) = b # read_hex cs" "newline \<notin> set (show_02x b)"
    by (simp_all add: show_02x_def)
qed

lemma filter_show_02x [simp]: "filter (\<lambda>c. c \<noteq> newline) (show_02x b) = show_02x b"
  using show_02x_digits(2) by (simp add: filter_id_conv) blast

lemma read_hex_map: "read_hex (concat (map show_02x bs) @ cs) = bs @ read_hex cs"
  by (induction bs) (simp_all add: show_02x_digits(1))

lemma rows_of:
  "length xs = m * n \<Longrightarrow> concat (map (\<lambda>j. map (\<lambda>i. xs ! (j * n + i)) [0..<n]) [0..<m]) = xs"
proof (induction m arbitrary: xs)
  case (Suc m)
  have "concat (map (\<lambda>j. map (\<lambda>i. take (m * n) xs ! (j * n + i)) [0..<n]) [0..<m]) = take (m * n) xs"
    using Suc.prems by (intro Suc.IH) simp
  moreover have "map (\<lambda>j. map (\<lambda>i. take (m * n) xs ! (j * n + i)) [0..<n]) [0..<m]
      = map (\<lambda>j. map (\<lambda>i. xs ! (j * n + i)) [0..<n]) [0..<m]"
  proof (intro map_cong refl)
    fix j i
    assume "j \<in> set [0..<m]" "i \<in> set [0..<n]"
    then have "j * n + i < (j + 1) * n" "(j + 1) * n \<le> m * n"
      by (simp, intro mult_le_mono1, simp)
    then show "take (m * n) xs ! (j * n + i) = xs ! (j * n + i)"
      by simp
  qed
  moreover have "map (\<lambda>i. xs ! (m * n + i)) [0..<n] = drop (m * n) xs"
    using Suc.prems by (intro nth_equalityI) (simp_all add: add.commute)
  ultimately show ?case
    by simp
qed simp

lemma concat_concat_map:
  "concat (map (\<lambda>j. concat (map (\<lambda>i. g (f j i)) js)) ks) = concat (map g (concat (map (\<lambda>j. map (f j) js) ks)))"
  by (induction ks) (simp_all add: o_def)

lemma filter_dump: "length sys = 512 \<Longrightarrow> filter (\<lambda>c. c \<noteq> newline) (dump_sector sys) = concat (map show_02x sys)"
proof -
  assume l: "length sys = 512"
  have "filter (\<lambda>c. c \<noteq> newline) (dump_sector sys)
      = concat (map (\<lambda>j. concat (map (\<lambda>i. show_02x (sys ! (j * 32 + i))) [0..<32])) [0..<16])"
    by (simp only: dump_sector_def filter_concat map_map o_def filter_append filter_show_02x)
      simp
  also have "\<dots> = concat (map show_02x (concat (map (\<lambda>j. map (\<lambda>i. sys ! (j * 32 + i)) [0..<32]) [0..<16])))"
    by (rule concat_concat_map)
  finally show ?thesis
    using rows_of [of sys 16 32] l by simp
qed

lemma read_dump_append: "length sys = 512 \<Longrightarrow> read_dump (dump_sector sys @ cs) = sys @ read_dump cs"
  by (simp add: read_dump_def filter_dump read_hex_map)

section \<open>What the text of an inode determines\<close>

lemma line_split: "newline \<notin> set v \<Longrightarrow> newline \<notin> set w \<Longrightarrow> v @ newline # xs = w @ newline # ys \<longleftrightarrow> v = w \<and> xs = ys"
proof (induction v arbitrary: w)
  case Nil
  then show ?case
    by (cases w) auto
next
  case (Cons c v)
  then show ?case
    by (cases w) auto
qed

lemma print_line_split:
  "newline \<notin> set v \<Longrightarrow> newline \<notin> set w
   \<Longrightarrow> print_line l v @ xs = print_line l w @ ys \<longleftrightarrow> v = w \<and> xs = ys"
  using line_split [of v w xs ys] by (simp add: print_line_def)

lemma show_inj [simp]: "show_u m = show_u n \<longleftrightarrow> m = n" "show_o m = show_o n \<longleftrightarrow> m = n"
  using read_show by metis+

lemma print_lines_split:
  assumes "\<And>k. newline \<notin> set (f k)" "\<And>k. newline \<notin> set (g k)"
  shows "concat (map (\<lambda>k. print_line l (f k)) ks) @ xs = concat (map (\<lambda>k. print_line l (g k)) ks) @ ys
    \<longleftrightarrow> (\<forall>k\<in>set ks. f k = g k) \<and> xs = ys"
  using assms by (induction ks) (auto simp: print_line_split)

lemma inode_text_fields:
  assumes "wf_inode i" "wf_inode j" "inode_text i = inode_text j"
  shows "i\<lparr>i_osd2 := x\<rparr> = j\<lparr>i_osd2 := x\<rparr>"
proof -
  have e: "newline \<notin> set ''''" "newline \<notin> set (show_u n @ '','')" for n
    by (simp_all only: set_append Un_iff show_no_newline) (simp_all add: newline_def)
  have "\<forall>k\<in>set [0..<15]. i_block i ! k = i_block j ! k"
    using assms(3) unfolding inode_text_def
    by (simp only: print_line_split print_lines_split show_no_newline e not_False_eq_True simp_thms append_same_eq) (auto simp: word_unat_eq_iff)
  moreover have "length (i_block i) = 15" "length (i_block j) = 15"
    using assms(1,2) by (simp_all add: wf_inode_def)
  ultimately have "i_block i = i_block j"
    by (intro nth_equalityI) auto
  then show ?thesis
    using assms(3) unfolding inode_text_def
    by (simp only: print_line_split print_lines_split show_no_newline e not_False_eq_True simp_thms append_same_eq)
      (simp add: word_unat_eq_iff)
qed

lemma inode_text_osd2:
  "concat (map (\<lambda>k. print_char (ys ! k)) [0..<12]) = concat (map (\<lambda>k. print_char (zs ! k)) [0..<12])
   \<Longrightarrow> inode_text (i\<lparr>i_osd2 := ys\<rparr>) = inode_text (i\<lparr>i_osd2 := zs\<rparr>)"
  by (simp only: inode_text_def) simp

section \<open>The count\<close>

definition used_bits :: "u8 list \<Rightarrow> nat" where
  "used_bits bs = sum_list (map (\<lambda>b. length (filter (bit b) [0..<8])) bs)"

lemma used_bits_simps [simp]:
  "used_bits [] = 0" "used_bits (b # bs) = length (filter (bit b) [0..<8]) + used_bits bs"
  "used_bits (bs @ cs) = used_bits bs + used_bits cs"
  by (simp_all add: used_bits_def)

lemma used_bits_le: "used_bits bs \<le> 8 * length bs"
proof (induction bs)
  case (Cons b bs)
  have "length (filter (bit b) [0..<8]) \<le> 8"
    using length_filter_le [of "bit b" "[0..<8]"] by simp
  with Cons show ?case
    by simp
qed simp

lemma fold_count_bits: "fold (\<lambda>k n. if P k then n + 1 else n) ks (n :: u32) = n + of_nat (length (filter P ks))"
  by (induction ks arbitrary: n) simp_all

lemma count_byte_bits: "count_byte b n = n + of_nat (length (filter (bit b) [0..<8]))"
  by (cases "b = 0") (simp_all only: count_byte_def bit_mask fold_count_bits, simp_all)

lemma fold_count_bytes: "fold count_byte bs n = n + of_nat (used_bits bs)"
  by (induction bs arbitrary: n) (simp_all add: count_byte_bits)

lemma fold_concat_map: "fold (\<lambda>j. fold g (f j)) js n = fold g (concat (map f js)) n"
  by (induction js arbitrary: n) simp_all

lemma count_sector_bits: "length sys = 512 \<Longrightarrow> count_sector sys n = n + of_nat (used_bits sys)"
proof -
  assume "length sys = 512"
  have "count_sector sys n
      = fold (\<lambda>j. fold count_byte (map (\<lambda>i. sys ! (j * 32 + i)) [0..<32])) [0..<16] n"
    by (simp only: count_sector_def fold_map o_def)
  also have "\<dots> = fold count_byte sys n"
    unfolding fold_concat_map using rows_of [of sys 16 32] \<open>length sys = 512\<close> by simp
  finally show ?thesis
    by (simp add: fold_count_bytes)
qed

section \<open>The bitmap on the disk\<close>

definition block_bytes :: "fs \<Rightarrow> u32 \<Rightarrow> u8 list" where
  "block_bytes s b = concat (map (part_sector s) [unat b * spb s..<unat b * spb s + spb s])"

lemma block_size_limit:
  "unat (s_log_block_size (sb s)) \<le> 2 \<Longrightarrow> c_shl 1024 (s_log_block_size (sb s)) t = Inr (of_nat (bsize s), t)"
  by (simp add: c_shl_run bsize_def push_bit_eq_mult)

lemma bsize_small: "unat (s_log_block_size (sb s)) \<le> 2 \<Longrightarrow> bsize s \<le> 4096"
  using power_increasing [of "unat (s_log_block_size (sb s))" 2 "2 :: nat"] by (simp add: bsize_def)

lemma bitmap_loop_run:
  assumes "pc_ok (dev s)" "unat (s_log_block_size (sb s)) \<le> 2" "\<forall>m. n \<le> m \<and> m < n + r \<longrightarrow> in_part s m"
    and "512 * k + 512 * r = bsize s" "r < fuel"
  shows "\<exists>x. bitmap_loop fuel (of_nat (512 * k)) (of_nat n + cx_part_start (ctx s)) nused out s
    = Inr ((of_nat (bsize s), nused + of_nat (used_bits (concat (map (part_sector s) [n..<n + r]))),
            out @ concat (map dump_sector (map (part_sector s) [n..<n + r]))), with_sysbuf x s)"
  using assms
proof (induction r arbitrary: s n k fuel nused out)
  case 0
  obtain f where f: "fuel = Suc f"
    using "0.prems"(5) by (cases fuel) auto
  have same: "with_sysbuf (cx_sysbuf (ctx s)) s = s"
    by (simp add: with_sysbuf_def)
  have k: "512 * k = bsize s"
    using "0.prems"(4) by simp
  show ?case
    unfolding k
    by (rule exI [of _ "cx_sysbuf (ctx s)"])
      (simp add: f bnd_Inr [of "c_shl 1024 (s_log_block_size (sb s))", OF block_size_limit [OF "0.prems"(2)]] same)
next
  case (Suc r)
  obtain f where f: "fuel = Suc f"
    using Suc.prems(5) by (cases fuel) auto
  let ?t = "sys_loaded n s"
  have lt: "(of_nat (512 * k) :: u32) < of_nat (bsize s)"
    using Suc.prems(4) bsize_small [OF Suc.prems(2)] by (intro w32_less [THEN iffD2]) auto
  have read: "sys_read (of_nat n + cx_part_start (ctx s)) s = Inr (0, ?t)"
    using Suc.prems(1,3) by (intro sys_read_loaded) auto
  have len: "length (part_sector s n) = 512"
    using Suc.prems(1,3) by (intro length_part_sector) auto
  have step: "of_nat (512 * k) + 512 = (of_nat (512 * Suc k) :: u32)"
    "of_nat n + cx_part_start (ctx s) + 1 = of_nat (Suc n) + cx_part_start (ctx ?t)"
    by simp_all
  have once: "bitmap_loop fuel (of_nat (512 * k)) (of_nat n + cx_part_start (ctx s)) nused out s
      = bitmap_loop f (of_nat (512 * Suc k)) (of_nat (Suc n) + cx_part_start (ctx ?t))
          (count_sector (part_sector s n) nused) (out @ dump_sector (part_sector s n)) ?t"
    by (simp only: f bitmap_loop.simps bnd_gets lt not_True_eq_False if_False sys_loaded_fields step
        bnd_Inr [of "c_shl 1024 (s_log_block_size (sb s))", OF block_size_limit [OF Suc.prems(2)]]
        bnd_Inr [of "sys_read (of_nat n + cx_part_start (ctx s))", OF read])
  have rest: "\<forall>m. Suc n \<le> m \<and> m < Suc n + r \<longrightarrow> in_part ?t m" "512 * Suc k + 512 * r = bsize ?t" "r < f"
    using Suc.prems f by simp_all
  have upt: "[n..<n + Suc r] = n # [Suc n..<Suc n + r]"
    by (simp add: upt_conv_Cons)
  obtain x where "bitmap_loop f (of_nat (512 * Suc k)) (of_nat (Suc n) + cx_part_start (ctx ?t))
      (count_sector (part_sector s n) nused) (out @ dump_sector (part_sector s n)) ?t
    = Inr ((of_nat (bsize s), count_sector (part_sector s n) nused
              + of_nat (used_bits (concat (map (part_sector s) [Suc n..<Suc n + r]))),
            (out @ dump_sector (part_sector s n)) @ concat (map dump_sector (map (part_sector s) [Suc n..<Suc n + r]))),
           with_sysbuf x ?t)"
    using Suc.IH [of ?t "Suc n" "Suc k" f, OF _ _ rest] Suc.prems(1,2) by (auto simp only: sys_loaded_fields)
  then show ?case
    by (intro exI [of _ x]) (simp only: once upt list.map concat.simps count_sector_bits [OF len] used_bits_simps
        of_nat_add add.assoc append_assoc sys_loaded_with with_sysbuf_fields)
qed

text \<open>The dump of the sectors of block \<open>b\<close>.\<close>

lemma block_dump:
  assumes "pc_ok (dev s)" "blk_ok s b" "m = unat b * spb s"
  defines "secs \<equiv> map (part_sector s) [m..<m + spb s]"
  shows "concat secs = block_bytes s b" "length (block_bytes s b) = bsize s"
    "read_dump (concat (map dump_sector secs)) = block_bytes s b"
proof -
  show bytes: "concat secs = block_bytes s b"
    by (simp add: secs_def block_bytes_def assms(3))
  have inp: "in_part s n" if "m \<le> n" "n < m + spb s" for n
    using blk_ok_in_part [OF assms(2), of "n - m"] that by (simp add: assms(3))
  have len: "\<forall>bs\<in>set secs. length bs = 512"
    using inp length_part_sector [OF assms(1)] by (auto simp: secs_def)
  have dump: "read_dump (concat (map dump_sector xs)) = concat xs \<and> length (concat xs) = 512 * length xs"
    if "\<forall>bs\<in>set xs. length bs = 512" for xs
    using that by (induction xs) (simp_all add: read_dump_append, simp add: read_dump_def)
  have "length secs = spb s"
    by (simp add: secs_def)
  then show "length (block_bytes s b) = bsize s"
    "read_dump (concat (map dump_sector secs)) = block_bytes s b"
    using dump [OF len] by (simp_all add: bytes bsize_spb)
qed

lemma rounded_up:
  assumes "(m :: u32) \<noteq> 0"
  shows "(if n mod m \<noteq> 0 then n div m + 1 else n div m) = of_nat ((unat n + unat m - 1) div unat m)"
proof -
  have m: "0 < unat m"
    using assms by (simp add: unat_gt_0)
  have eq: "unat n + unat m - 1 = unat n mod unat m + (unat m - 1) + unat n div unat m * unat m"
    using m by simp
  have "(unat n + unat m - 1) div unat m = unat n div unat m + (unat n mod unat m + (unat m - 1)) div unat m"
    unfolding eq using m by (intro div_mult_self1) simp
  moreover have "(unat n mod unat m + (unat m - 1)) div unat m = (if unat n mod unat m = 0 then 0 else 1)"
    using m mod_less_divisor [OF m, of "unat n"] by (auto intro!: div_nat_eqI)
  moreover have "n mod m = 0 \<longleftrightarrow> unat n mod unat m = 0"
    by (simp add: unat_eq_0 flip: unat_mod32)
  moreover have "n div m = of_nat (unat n div unat m)"
    by (simp add: word_div_nat)
  ultimately show ?thesis
    by simp
qed

section \<open>The properties\<close>

text \<open>C33: \<open>ext2_print_bg1_bitmap\<close> reads the block bitmap of group 0 where it is, at the block the
  descriptor names, and prints it completely: the dump read back gives the bytes of the bitmap, and
  the last line counts their bits, those set and those clear. Only \<open>sysbuf\<close> changes.\<close>

theorem print_bg1_bitmap_counts_the_used_blocks:
  assumes s: "pc_ok (dev s)" "unat (s_log_block_size (sb s)) \<le> 2" "s_blocks_per_group (sb s) \<noteq> 0"
    and bg: "in_part s (bg_sector s 0)" "blk_ok s (bg_block_bitmap (bg_desc s 0))" and fuel: "spb s < fuel"
  defines "bitmap \<equiv> block_bytes s (bg_block_bitmap (bg_desc s 0))"
  defines "groups \<equiv> (unat (s_blocks_count (sb s)) + unat (s_blocks_per_group (sb s)) - 1) div unat (s_blocks_per_group (sb s))"
  shows "\<exists>dump x. ext2_print_bg1_bitmap fuel s =
       Inr (print_line ''block group count = '' (show_d (of_nat groups))
            @ group_text (bg_desc s 0) (s_blocks_per_group (sb s)) @ dump
            @ [newline] @ print_line ''Total bitmap entries = ''
                (show_u (8 * bsize s) @ '', used = '' @ show_u (used_bits bitmap)
                 @ '', free = '' @ show_u (8 * bsize s - used_bits bitmap)), s\<lparr>ctx := (ctx s)\<lparr>cx_sysbuf := x\<rparr>\<rparr>)
     \<and> read_dump dump = bitmap"
proof -
  let ?b = "unat (bg_block_bitmap (bg_desc s 0)) * spb s" and ?t = "sys_loaded (bg_sector s 0) s"
  let ?secs = "map (part_sector s) [?b..<?b + spb s]"
  have inp: "in_part s m" if "?b \<le> m" "m < ?b + spb s" for m
    using blk_ok_in_part [OF bg(2), of "m - ?b"] that by simp
  note bytes = block_dump(1) [OF s(1) bg(2) refl, folded bitmap_def]
    and dump = block_dump(3,2) [OF s(1) bg(2) refl, folded bitmap_def]
  have used: "used_bits bitmap \<le> 8 * bsize s" "bsize s \<le> 4096"
    using used_bits_le [of bitmap] dump(2) bsize_small [OF s(2)] by simp_all
  obtain x where loop: "bitmap_loop fuel 0 (of_nat ?b + cx_part_start (ctx s)) 0 [] ?t
      = Inr ((of_nat (bsize s), of_nat (used_bits bitmap), concat (map dump_sector ?secs)), with_sysbuf x ?t)"
    using bitmap_loop_run [of ?t ?b "spb s" 0 fuel 0 "[]"] s inp fuel by (auto simp: bytes bsize_spb)
  have b: "(cx_superblock_block (ctx s) + 1) * of_nat (spb s) = (of_nat (bg_sector s 0) :: u32)"
    by (simp add: bg_sector_def) (simp add: algebra_simps)
  have total: "show_d (of_nat (bsize s) * 8) = show_u (8 * bsize s)" "show_d (of_nat (used_bits bitmap)) = show_u (used_bits bitmap)"
    "show_d (of_nat (bsize s) * 8 - of_nat (used_bits bitmap)) = show_u (8 * bsize s - used_bits bitmap)"
    using used show_d_small [of "8 * bsize s"] show_d_small [of "used_bits bitmap"] show_d_small [of "8 * bsize s - used_bits bitmap"]
    by (simp_all add: mult.commute of_nat_diff)
  have read: "sys_read (of_nat (bg_sector s 0) + cx_part_start (ctx s)) s = Inr (0, ?t)"
    using sys_read_loaded [OF s(1) bg(1)] by simp
  have state: "with_sysbuf x ?t = s\<lparr>ctx := (ctx s)\<lparr>cx_sysbuf := x\<rparr>\<rparr>"
    by (simp add: with_sysbuf_def sys_loaded_def)
  have bitmap_block: "bg_block_bitmap (bg_desc s 0) * of_nat (spb s) = (of_nat ?b :: u32)"
    by simp
  have desc: "decode_block_group_descriptor (slice 0 32 (part_sector s (bg_sector s 0))) = bg_desc s 0"
    by (simp add: bg_desc_def)
  let ?count = "s_blocks_count (sb s)" and ?bpg = "s_blocks_per_group (sb s)"
  have "ext2_print_bg1_bitmap fuel s
      = Inr (print_line ''block group count = ''
               (show_d (if ?count mod ?bpg \<noteq> 0 then ?count div ?bpg + 1 else ?count div ?bpg))
             @ group_text (bg_desc s 0) ?bpg @ concat (map dump_sector ?secs)
             @ total_text (of_nat (bsize s)) (of_nat (used_bits bitmap)), with_sysbuf x ?t)"
    using s(3) loop read
    by (simp only: ext2_print_bg1_bitmap_def Let_def bnd_gets)
      (simp add: bnd_Inr c_div_run c_mod_run c_shl_spb [OF s(2)] b sizeof_block_group_descriptor_def desc)
  moreover have "(if ?count mod ?bpg \<noteq> 0 then ?count div ?bpg + 1 else ?count div ?bpg) = of_nat groups"
    unfolding groups_def by (rule rounded_up [OF s(3)])
  ultimately show ?thesis
    using dump(1) unfolding total_text_def total state by auto
qed

lemma print_bg1_bitmap_counts_the_used_blocks_witness:
  "\<exists>dump x. ext2_print_bg1_bitmap 3 demo_fs =
       Inr (print_line ''block group count = '' (show_d 1) @ group_text demo_bg 8 @ dump
            @ [newline] @ print_line ''Total bitmap entries = ''
                (show_u 8192 @ '', used = '' @ show_u 7 @ '', free = '' @ show_u 8185),
            demo_fs\<lparr>ctx := demo_ctx\<lparr>cx_sysbuf := x\<rparr>\<rparr>)
     \<and> read_dump dump = 0x7F # replicate 1023 0"
proof -
  have bytes: "block_bytes demo_fs 3 = 0x7F # replicate 1023 0"
    by (simp add: block_bytes_def demo_sector_def upt_conv_Cons flip: replicate_add)
  have "used_bits (replicate n 0) = 0" for n
    by (induction n) simp_all
  moreover have "filter (bit (0x7F :: u8)) [0..<8] = [0..<7]"
    by code_simp
  ultimately have used: "used_bits (block_bytes demo_fs 3) = 7"
    by (simp add: bytes)
  show ?thesis
    using print_bg1_bitmap_counts_the_used_blocks [of demo_fs 3] by (simp add: blk_ok_def used) (simp add: bytes)
qed

text \<open>The text of an inode determines all its fields except \<open>i_osd2\<close>, where a backslash is printed as it
  stands and cannot be told from the escape of another byte.\<close>

theorem print_inode_determines_the_fields:
  "(wf_inode (ino s) \<and> wf_inode (ino t) \<and> ext2_print_inode s = Inr (out, s) \<and> ext2_print_inode t = Inr (out, t)
      \<longrightarrow> (ino s)\<lparr>i_osd2 := []\<rparr> = (ino t)\<lparr>i_osd2 := []\<rparr>)
    \<and> inode_text (i\<lparr>i_osd2 := [0x5C, 0x78, 0x30, 0x31, 0x01] @ xs\<rparr>)
        = inode_text (i\<lparr>i_osd2 := [0x01, 0x5C, 0x78, 0x30, 0x31] @ xs\<rparr>)"
proof (intro conjI impI)
  assume "wf_inode (ino s) \<and> wf_inode (ino t) \<and> ext2_print_inode s = Inr (out, s) \<and> ext2_print_inode t = Inr (out, t)"
  then show "(ino s)\<lparr>i_osd2 := []\<rparr> = (ino t)\<lparr>i_osd2 := []\<rparr>"
    by (intro inode_text_fields) (auto simp: ext2_print_inode_def)
next
  let ?osd = "\<lambda>ys :: u8 list. concat (map (\<lambda>k. print_char ((ys @ xs) ! k)) [0..<12])"
  have split: "?osd ys = concat (map print_char ys) @ concat (map (\<lambda>k. print_char (xs ! (k - 5))) [5..<12])"
    if l: "length ys = 5" for ys
  proof -
    have "map (\<lambda>k. print_char ((ys @ xs) ! k)) [0..<5] = map print_char ys"
      using l by (intro nth_equalityI) (simp_all add: nth_append)
    moreover have "map (\<lambda>k. print_char ((ys @ xs) ! k)) [5..<12] = map (\<lambda>k. print_char (xs ! (k - 5))) [5..<12]"
      using l by (intro map_cong) (auto simp: nth_append)
    moreover have "[0..<12] = [0..<5] @ [5..<12]"
      by (simp add: upt_conv_Cons)
    ultimately show ?thesis
      by (simp only: map_append concat_append)
  qed
  have "concat (map print_char [0x5C, 0x78, 0x30, 0x31, 0x01]) = concat (map print_char [0x01, 0x5C, 0x78, 0x30, 0x31])"
    by code_simp
  then have "?osd [0x5C, 0x78, 0x30, 0x31, 0x01] = ?osd [0x01, 0x5C, 0x78, 0x30, 0x31]"
    by (subst (1 2) split) simp_all
  then show "inode_text (i\<lparr>i_osd2 := [0x5C, 0x78, 0x30, 0x31, 0x01] @ xs\<rparr>)
        = inode_text (i\<lparr>i_osd2 := [0x01, 0x5C, 0x78, 0x30, 0x31] @ xs\<rparr>)"
    by (rule inode_text_osd2)
qed

lemma print_inode_determines_the_fields_witness:
  "inode_text (demo_file\<lparr>i_osd2 := [0x5C, 0x78, 0x30, 0x31, 0x01] @ replicate 7 0\<rparr>)
     = inode_text (demo_file\<lparr>i_osd2 := [0x01, 0x5C, 0x78, 0x30, 0x31] @ replicate 7 0\<rparr>)
   \<and> demo_file\<lparr>i_osd2 := []\<rparr> = (ino demo_fs)\<lparr>i_osd2 := []\<rparr>"
  using print_inode_determines_the_fields [where s = demo_fs and t = demo_fs and out = "inode_text demo_file" and i = demo_file and xs = "replicate 7 0"]
  by (simp add: ext2_print_inode_def)

end
