(* ===== verification/Md5.thy ===== *)
theory Md5
  imports Block_Pc
begin

text \<open>
  \<open>test/hash.c\<close>: the MD5 sum by which the test driver compares images. \<open>md5_digest\<close> is the one-shot
  definition (pad the message, fold the compression function over its blocks); the lemmas show that
  the streaming functions compute it however the message is cut into chunks.
\<close>

unbundle bit_operations_syntax

section \<open>The compression function\<close>

definition md5_r :: "nat list" where
  "md5_r = [7, 12, 17, 22, 7, 12, 17, 22, 7, 12, 17, 22, 7, 12, 17, 22,
            5,  9, 14, 20, 5,  9, 14, 20, 5,  9, 14, 20, 5,  9, 14, 20,
            4, 11, 16, 23, 4, 11, 16, 23, 4, 11, 16, 23, 4, 11, 16, 23,
            6, 10, 15, 21, 6, 10, 15, 21, 6, 10, 15, 21, 6, 10, 15, 21]"

definition md5_k :: "u32 list" where
  "md5_k = [0xd76aa478, 0xe8c7b756, 0x242070db, 0xc1bdceee,
            0xf57c0faf, 0x4787c62a, 0xa8304613, 0xfd469501,
            0x698098d8, 0x8b44f7af, 0xffff5bb1, 0x895cd7be,
            0x6b901122, 0xfd987193, 0xa679438e, 0x49b40821,
            0xf61e2562, 0xc040b340, 0x265e5a51, 0xe9b6c7aa,
            0xd62f105d, 0x02441453, 0xd8a1e681, 0xe7d3fbc8,
            0x21e1cde6, 0xc33707d6, 0xf4d50d87, 0x455a14ed,
            0xa9e3e905, 0xfcefa3f8, 0x676f02d9, 0x8d2a4c8a,
            0xfffa3942, 0x8771f681, 0x6d9d6122, 0xfde5380c,
            0xa4beea44, 0x4bdecfa9, 0xf6bb4b60, 0xbebfbc70,
            0x289b7ec6, 0xeaa127fa, 0xd4ef3085, 0x04881d05,
            0xd9d4d039, 0xe6db99e5, 0x1fa27cf8, 0xc4ac5665,
            0xf4292244, 0x432aff97, 0xab9423a7, 0xfc93a039,
            0x655b59c3, 0x8f0ccc92, 0xffeff47d, 0x85845dd1,
            0x6fa87e4f, 0xfe2ce6e0, 0xa3014314, 0x4e0811a1,
            0xf7537e82, 0xbd3af235, 0x2ad7d2bb, 0xeb86d391]"

definition leftrotate :: "u32 \<Rightarrow> nat \<Rightarrow> u32" where
  "leftrotate x c = push_bit c x OR drop_bit (32 - c) x"

type_synonym md5_words = "u32 \<times> u32 \<times> u32 \<times> u32"

text \<open>One round: \<open>f\<close> mixes \<open>b\<close>, \<open>c\<close>, \<open>d\<close>, and \<open>g\<close> selects the message word.\<close>

definition md5_round ::
    "(u32 \<Rightarrow> u32 \<Rightarrow> u32 \<Rightarrow> u32) \<Rightarrow> (nat \<Rightarrow> nat) \<Rightarrow> u8 list \<Rightarrow> nat \<Rightarrow> md5_words \<Rightarrow> md5_words" where
  "md5_round f g buffer j = (\<lambda>(a, b, c, d).
     let x = a + f b c d + md5_k ! j + rd4 buffer (g j * 4)
     in (d, b + leftrotate x (md5_r ! j), b, c))"

definition md5_transform :: "u8 list \<Rightarrow> md5_words \<Rightarrow> md5_words" where
  "md5_transform buffer h =
     (let h1 = fold (md5_round (\<lambda>b c d. ((c XOR d) AND b) XOR d) (\<lambda>j. j) buffer) [0..<16] h;
          h2 = fold (md5_round (\<lambda>b c d. ((b XOR c) AND d) XOR c) (\<lambda>j. (5 * j + 1) mod 16) buffer) [16..<32] h1;
          h3 = fold (md5_round (\<lambda>b c d. b XOR c XOR d) (\<lambda>j. (3 * j + 5) mod 16) buffer) [32..<48] h2;
          h4 = fold (md5_round (\<lambda>b c d. c XOR (b OR NOT d)) (\<lambda>j. 7 * j mod 16) buffer) [48..<64] h3
      in case (h, h4) of ((a, b, c, d), (a', b', c', d')) \<Rightarrow> (a + a', b + b', c + c', d + d'))"

section \<open>The streaming functions\<close>

record md_context =
  md_h :: md5_words
  md_digest :: "u8 list"
  md_count :: u64
  md_buffer :: "u8 list"

definition md5_start :: "md_context \<Rightarrow> md_context" where
  "md5_start c = c\<lparr>md_h := (0x67452301, 0xefcdab89, 0x98badcfe, 0x10325476), md_count := 0,
     md_buffer := replicate 64 0\<rparr>"

text \<open>\<open>md5_transform(context)\<close>.\<close>

definition md_compress :: "md_context \<Rightarrow> md_context" where
  "md_compress c = c\<lparr>md_h := md5_transform (md_buffer c) (md_h c)\<rparr>"

text \<open>The \<open>while\<close> loop of \<open>md5_update\<close> and the copy of the rest.\<close>

function md5_blocks :: "u8 list \<Rightarrow> md_context \<Rightarrow> md_context" where
  "md5_blocks chunk c =
     (if 64 \<le> length chunk then md5_blocks (drop 64 chunk) (md_compress (c\<lparr>md_buffer := take 64 chunk\<rparr>))
      else c\<lparr>md_buffer := patch 0 chunk (md_buffer c)\<rparr>)"
  by pat_completeness auto
termination
  by (relation "measure (\<lambda>(chunk, c). length chunk)") auto

declare md5_blocks.simps [simp del]

definition md5_update :: "u8 list \<Rightarrow> md_context \<Rightarrow> md_context" where
  "md5_update chunk c =
     (let buflen = unat (md_count c AND 63);
          c = c\<lparr>md_count := md_count c + of_nat (length chunk)\<rparr> in
      if buflen + length chunk < 64 then c\<lparr>md_buffer := patch buflen chunk (md_buffer c)\<rparr>
      else md5_blocks (drop (64 - buflen) chunk)
             (md_compress (c\<lparr>md_buffer := patch buflen (take (64 - buflen) chunk) (md_buffer c)\<rparr>)))"

definition le8 :: "u64 \<Rightarrow> u8 list" where
  "le8 w = map (\<lambda>i. ucast (drop_bit (8 * i) w)) [0..<8]"

definition md5_finish :: "md_context \<Rightarrow> md_context" where
  "md5_finish c =
     (let buflen = unat (md_count c AND 63);
          c = c\<lparr>md_buffer := (md_buffer c)[buflen := 0x80]\<rparr>;
          buflen = buflen + 1;
          c = c\<lparr>md_buffer := patch buflen (replicate (64 - buflen) 0) (md_buffer c)\<rparr>;
          c = (if buflen > 56 then (md_compress c)\<lparr>md_buffer := replicate 64 0\<rparr> else c);
          c = md_compress (c\<lparr>md_buffer := patch 56 (le8 (md_count c * 8)) (md_buffer c)\<rparr>)
      in case md_h c of (x0, x1, x2, x3) \<Rightarrow> c\<lparr>md_digest := le4 x0 @ le4 x1 @ le4 x2 @ le4 x3\<rparr>)"

definition BUFSIZE :: nat where "BUFSIZE = 1024 * 1024"

text \<open>The pieces in which \<open>md5_memory\<close> hands the memory over; the context it starts from is not
  initialised.\<close>

function md5_feed :: "u8 list \<Rightarrow> md_context \<Rightarrow> md_context" where
  "md5_feed mem c =
     (if BUFSIZE < length mem then md5_feed (drop BUFSIZE mem) (md5_update (take BUFSIZE mem) c)
      else md5_update mem c)"
  by pat_completeness auto
termination
  by (relation "measure (\<lambda>(mem, c). length mem)") (auto simp: BUFSIZE_def)

declare md5_feed.simps [simp del]

definition md5_memory :: "md_context \<Rightarrow> u8 list \<Rightarrow> u8 list" where
  "md5_memory c mem = md_digest (md5_finish (md5_feed mem (md5_start c)))"

text \<open>\<open>md5_file\<close> reads the pieces from a file, the last of them possibly empty. What is left of the
  file is the argument: \<open>fread\<close> delivers \<open>BUFSIZE\<close> bytes of it, or the rest when there are fewer. The
  contents are \<open>None\<close> when \<open>fopen\<close> fails; the digest then stays what it was.\<close>

function md5_read :: "u8 list \<Rightarrow> md_context \<Rightarrow> md_context" where
  "md5_read rest c =
     (let buffer = take BUFSIZE rest in
      if length buffer = BUFSIZE then md5_read (drop BUFSIZE rest) (md5_update buffer c)
      else md5_update buffer c)"
  by pat_completeness auto
termination
  by (relation "measure (\<lambda>(rest, c). length rest)") (auto simp: BUFSIZE_def)

declare md5_read.simps [simp del]

definition md5_file :: "md_context \<Rightarrow> u8 list option \<Rightarrow> u8 list \<Rightarrow> int \<times> u8 list" where
  "md5_file c contents hash =
     (case contents of
        None \<Rightarrow> (-1, hash)
      | Some bs \<Rightarrow> (0, md_digest (md5_finish (md5_read bs (md5_start c)))))"

text \<open>The digest of a part of the image, as \<open>block_pc.c\<close> offers it to the tests; the context is the
  uninitialised local variable.\<close>

definition block_pc_hash :: "md_context \<Rightarrow> u64 \<Rightarrow> u64 \<Rightarrow> (pc_dev, u8 list) cm" where
  "block_pc_hash c start len = bnd (pc_copy_out (unat start) (unat len)) (\<lambda>bs. ret (md5_memory c bs))"

definition block_pc_hash_all :: "md_context \<Rightarrow> (pc_dev, u8 list) cm" where
  "block_pc_hash_all c = bnd (gets block_fs_size) (\<lambda>size. block_pc_hash c 0 size)"

section \<open>The one-shot definition\<close>

function md5_absorb :: "md5_words \<Rightarrow> u8 list \<Rightarrow> md5_words" where
  "md5_absorb h xs = (if 64 \<le> length xs then md5_absorb (md5_transform (take 64 xs) h) (drop 64 xs) else h)"
  by pat_completeness auto
termination
  by (relation "measure (\<lambda>(h, xs). length xs)") auto

declare md5_absorb.simps [simp del]

definition md5_init :: md5_words where
  "md5_init = (0x67452301, 0xefcdab89, 0x98badcfe, 0x10325476)"

definition md5_pad :: "u8 list \<Rightarrow> u8 list" where
  "md5_pad msg = msg @ [0x80] @ replicate ((119 - length msg mod 64) mod 64) 0 @ le8 (of_nat (length msg) * 8)"

definition md5_output :: "md5_words \<Rightarrow> u8 list" where
  "md5_output h = (case h of (x0, x1, x2, x3) \<Rightarrow> le4 x0 @ le4 x1 @ le4 x2 @ le4 x3)"

definition md5_digest :: "u8 list \<Rightarrow> u8 list" where
  "md5_digest msg = md5_output (md5_absorb md5_init (md5_pad msg))"

text \<open>What is left of a message after its full blocks.\<close>

definition md5_tail :: "'a list \<Rightarrow> 'a list" where
  "md5_tail xs = drop (64 * (length xs div 64)) xs"

lemma length_md5_tail [simp]: "length (md5_tail xs) = length xs mod 64"
  by (simp add: md5_tail_def minus_mult_div_eq_mod)

lemma md5_tail_short [simp]: "length xs < 64 \<Longrightarrow> md5_tail xs = xs"
  by (simp add: md5_tail_def)

lemma md5_absorb_short [simp]: "length xs < 64 \<Longrightarrow> md5_absorb h xs = h"
  by (subst md5_absorb.simps) simp

lemma md5_absorb_block: "length x = 64 \<Longrightarrow> md5_absorb h (x @ xs) = md5_absorb (md5_transform x h) xs"
  by (subst md5_absorb.simps) simp

lemma md5_tail_block: "length x = 64 \<Longrightarrow> md5_tail (x @ xs) = md5_tail xs"
  by (simp add: md5_tail_def div_add_self1)

lemma md5_absorb_append: "md5_absorb h (xs @ ys) = md5_absorb (md5_absorb h xs) (md5_tail xs @ ys)"
  and md5_tail_append: "md5_tail (xs @ ys) = md5_tail (md5_tail xs @ ys)"
proof (induction h xs rule: md5_absorb.induct)
  case (1 h xs)
  {
    case 1
    then show ?case
    proof (cases "64 \<le> length xs")
      case True
      then have "xs = take 64 xs @ drop 64 xs" "length (take 64 xs) = 64"
        by simp_all
      then show ?thesis
        using "1.IH"(1) [OF True] by (metis append.assoc md5_absorb_block md5_tail_block)
    qed simp
  next
    case 2
    then show ?case
    proof (cases "64 \<le> length xs")
      case True
      then have "xs = take 64 xs @ drop 64 xs" "length (take 64 xs) = 64"
        by simp_all
      then show ?thesis
        using "1.IH"(2) [OF True] by (metis append.assoc md5_tail_block)
    qed simp
  }
qed

section \<open>The streaming functions compute it\<close>

text \<open>The context after the bytes \<open>msg\<close>: the digest words of the full blocks, and the rest in the buffer.\<close>

definition md5_holds :: "u8 list \<Rightarrow> md_context \<Rightarrow> bool" where
  "md5_holds msg c \<longleftrightarrow> md_h c = md5_absorb md5_init msg \<and> length (md_buffer c) = 64
     \<and> take (length msg mod 64) (md_buffer c) = md5_tail msg \<and> md_count c = of_nat (length msg)"

lemma md5_holds_start: "md5_holds [] (md5_start c)"
  by (simp add: md5_holds_def md5_start_def md5_init_def)

lemma count_in_buffer: "unat ((of_nat n :: u64) AND 63) = n mod 64"
proof -
  have "(of_nat n :: u64) AND 63 = take_bit 6 (of_nat n)"
    by (simp add: take_bit_eq_mask mask_eq_exp_minus_1)
  then have "unat ((of_nat n :: u64) AND 63) = take_bit 6 (unat (of_nat n :: u64))"
    by (simp add: unsigned_take_bit_eq)
  then show ?thesis
    by (simp add: unat_of_nat take_bit_eq_mod mod_mod_cancel)
qed

lemma md5_blocks_run:
  "length (md_buffer c) = 64 \<Longrightarrow>
   md_h (md5_blocks chunk c) = md5_absorb (md_h c) chunk \<and> length (md_buffer (md5_blocks chunk c)) = 64
   \<and> take (length chunk mod 64) (md_buffer (md5_blocks chunk c)) = md5_tail chunk
   \<and> md_count (md5_blocks chunk c) = md_count c"
proof (induction chunk c rule: md5_blocks.induct)
  case (1 chunk c)
  show ?case
  proof (cases "64 \<le> length chunk")
    case True
    then have split: "chunk = take 64 chunk @ drop 64 chunk" and len: "length (take 64 chunk) = 64"
      by simp_all
    have "md5_absorb (md_h c) chunk = md5_absorb (md5_transform (take 64 chunk) (md_h c)) (drop 64 chunk)"
      "md5_tail chunk = md5_tail (drop 64 chunk)"
      using md5_absorb_block [OF len] md5_tail_block [OF len] split by metis+
    then show ?thesis
      using "1.IH" [OF True] len True
      by (subst (1 2 3 4) md5_blocks.simps) (simp add: md_compress_def le_mod_geq)
  next
    case False
    then show ?thesis
      using "1.prems" by (subst (1 2 3 4) md5_blocks.simps) (simp add: patch_def)
  qed
qed

lemma md5_holds_update:
  assumes "md5_holds msg c"
  shows "md5_holds (msg @ chunk) (md5_update chunk c)"
proof -
  let ?b = "length msg mod 64"
  have c: "md_h c = md5_absorb md5_init msg" "length (md_buffer c) = 64" "take ?b (md_buffer c) = md5_tail msg"
    "md_count c = of_nat (length msg)" "unat (md_count c AND 63) = ?b"
    using assms by (simp_all add: md5_holds_def count_in_buffer)
  have b: "?b < 64"
    by simp
  have h: "md5_absorb md5_init (msg @ chunk) = md5_absorb (md_h c) (md5_tail msg @ chunk)"
    using md5_absorb_append c(1) by simp
  have t: "md5_tail (msg @ chunk) = md5_tail (md5_tail msg @ chunk)"
    by (rule md5_tail_append)
  show ?thesis
  proof (cases "?b + length chunk < 64")
    case True
    then have "length (md5_tail msg @ chunk) < 64"
      by simp
    moreover from True have "(length msg + length chunk) mod 64 = ?b + length chunk"
      by (metis mod_add_left_eq mod_less)
    ultimately show ?thesis
      using True c h t by (simp add: md5_holds_def md5_update_def Let_def patch_def)
  next
    case False
    let ?k = "64 - ?b"
    let ?x = "md5_tail msg @ take ?k chunk" and ?r = "drop ?k chunk"
    have split: "md5_tail msg @ chunk = ?x @ ?r" and len: "length ?x = 64"
      using False b by auto
    have buf: "patch ?b (take ?k chunk) (md_buffer c) = ?x"
      using False b c(2,3) by (simp add: patch_def)
    have "md5_absorb md5_init (msg @ chunk) = md5_absorb (md5_transform ?x (md_h c)) ?r"
      "md5_tail (msg @ chunk) = md5_tail ?r"
      using md5_absorb_block [OF len, of "md_h c" ?r] md5_tail_block [OF len, of ?r] h t split by (simp_all only:)
    moreover have "length ?r mod 64 = (length msg + length chunk) mod 64"
    proof -
      have "length msg = ?b + length msg div 64 * 64"
        by simp
      then have "length msg + length chunk = length ?r + (length msg div 64 + 1) * 64"
        using False b by simp
      then show ?thesis
        by (metis mod_mult_self1)
    qed
    ultimately show ?thesis
      using md5_blocks_run [of "md_compress (c\<lparr>md_count := md_count c + of_nat (length chunk), md_buffer := ?x\<rparr>)" ?r]
        False c(4,5) len buf
      by (simp add: md5_holds_def md5_update_def Let_def md_compress_def)
  qed
qed

lemma length_le8 [simp]: "length (le8 w) = 8"
  by (simp add: le8_def)

text \<open>The padded last one or two blocks.\<close>

lemma buffer_padded:
  assumes "length buf = 64" "b < 64" "take b buf = xs" "length xs = b"
  shows "patch (b + 1) (replicate (63 - b) 0) (buf[b := (v::u8)]) = xs @ v # replicate (63 - b) 0"
  using assms by (intro nth_equalityI) (auto simp: patch_nth nth_append nth_Cons' nth_list_update)

lemma md5_finish_digest:
  assumes "md5_holds msg c"
  shows "md_digest (md5_finish c) = md5_digest msg"
proof -
  define b where "b = length msg mod 64"
  let ?n = "le8 (of_nat (length msg) * 8)"
  have b: "b < 64" "length (md5_tail msg) = b"
    by (simp_all add: b_def)
  have c: "md_h c = md5_absorb md5_init msg" "length (md_buffer c) = 64" "take b (md_buffer c) = md5_tail msg"
    "md_count c = of_nat (length msg)" "unat (md_count c AND 63) = b"
    using assms by (simp_all add: md5_holds_def count_in_buffer b_def)
  note pad = buffer_padded [OF c(2) b(1) c(3) b(2), of "0x80"]
  have h: "md5_absorb md5_init (md5_pad msg)
      = md5_absorb (md_h c) (md5_tail msg @ 0x80 # replicate ((119 - b) mod 64) 0 @ ?n)"
    using md5_absorb_append [of md5_init msg] by (simp add: md5_pad_def c(1) b_def)
  show ?thesis
  proof (cases "b < 56")
    case True
    have z: "(119 - b) mod 64 = 55 - b"
      using True by (simp add: mod_if)
    let ?x = "md5_tail msg @ 0x80 # replicate (55 - b) 0 @ ?n"
    have len: "length ?x = 64"
      using True b(2) by simp
    have "patch 56 ?n (md5_tail msg @ 0x80 # replicate (63 - b) 0) = ?x"
      using True b(2) by (simp add: patch_def take_Cons' drop_Cons')
    then have "md_h (md5_finish c) = md5_transform ?x (md_h c)"
      using True c(4,5) pad by (simp add: md5_finish_def Let_def md_compress_def split: prod.splits)
    moreover have "md5_absorb (md_h c) ?x = md5_transform ?x (md_h c)"
      using md5_absorb_block [OF len, of "md_h c" "[]"] by simp
    moreover have "md_digest (md5_finish c) = md5_output (md_h (md5_finish c))"
      by (simp add: md5_finish_def Let_def md5_output_def split: prod.splits)
    ultimately show ?thesis
      by (simp only: md5_digest_def h z)
  next
    case False
    then have z: "(119 - b) mod 64 = 63 - b + 56"
      using b(1) by (simp add: mod_if)
    let ?x = "md5_tail msg @ 0x80 # replicate (63 - b) 0" and ?y = "replicate 56 0 @ ?n"
    have len: "length ?x = 64" "length ?y = 64"
      using False b by simp_all
    have "patch 56 ?n (replicate 64 0) = ?y"
      by (simp add: patch_def)
    then have "md_h (md5_finish c) = md5_transform ?y (md5_transform ?x (md_h c))"
      using False c(4,5) pad by (simp add: md5_finish_def Let_def md_compress_def split: prod.splits)
    moreover have "md5_absorb (md_h c) (?x @ ?y) = md5_transform ?y (md5_transform ?x (md_h c))"
      using md5_absorb_block [OF len(1), of "md_h c" ?y] md5_absorb_block [OF len(2), of _ "[]"] by simp
    moreover have "md_digest (md5_finish c) = md5_output (md_h (md5_finish c))"
      by (simp add: md5_finish_def Let_def md5_output_def split: prod.splits)
    moreover have "?x @ ?y = md5_tail msg @ 0x80 # replicate (63 - b + 56) 0 @ ?n"
      by (simp add: replicate_add)
    ultimately show ?thesis
      by (simp only: md5_digest_def h z)
  qed
qed

lemma md5_holds_feed: "md5_holds msg c \<Longrightarrow> md5_holds (msg @ mem) (md5_feed mem c)"
proof (induction mem c arbitrary: msg rule: md5_feed.induct)
  case (1 mem c)
  show ?case
  proof (cases "BUFSIZE < length mem")
    case True
    have "md5_holds ((msg @ take BUFSIZE mem) @ drop BUFSIZE mem)
        (md5_feed (drop BUFSIZE mem) (md5_update (take BUFSIZE mem) c))"
      using "1.IH" [OF True] md5_holds_update [OF "1.prems"] by blast
    then show ?thesis
      using True by (subst md5_feed.simps) simp
  next
    case False
    then show ?thesis
      using md5_holds_update [OF "1.prems"] by (subst md5_feed.simps) simp
  qed
qed

lemma md5_holds_read: "md5_holds msg c \<Longrightarrow> md5_holds (msg @ rest) (md5_read rest c)"
proof (induction rest c arbitrary: msg rule: md5_read.induct)
  case (1 rest c)
  show ?case
  proof (cases "length (take BUFSIZE rest) = BUFSIZE")
    case True
    have "md5_holds ((msg @ take BUFSIZE rest) @ drop BUFSIZE rest)
        (md5_read (drop BUFSIZE rest) (md5_update (take BUFSIZE rest) c))"
      using "1.IH" [OF refl True] md5_holds_update [OF "1.prems"] by blast
    then show ?thesis
      using True by (subst md5_read.simps) (simp add: Let_def)
  next
    case False
    then have "take BUFSIZE rest = rest"
      by auto
    then show ?thesis
      using False md5_holds_update [OF "1.prems"] by (subst md5_read.simps) (simp add: Let_def)
  qed
qed

section \<open>The properties\<close>

text \<open>C24: \<open>md5_memory\<close> returns the MD5 digest of the memory (the padded message folded block by block)
  whatever its length and whatever the context held before, although it works in pieces of one MiB
  through a 64-byte buffer. \<open>md5_file\<close> gives the same for the contents of a file, although the two cut the bytes
  differently when their number is a multiple of one MiB; when the file cannot be opened it returns \<open>-1\<close> and
  leaves the digest alone.\<close>

theorem md5_memory_computes_the_digest:
  "md5_memory c mem = md5_digest mem \<and> md5_file c (Some mem) hash = (0, md5_digest mem) \<and> md5_file c None hash = (-1, hash)"
  using md5_finish_digest [OF md5_holds_feed [OF md5_holds_start]] md5_finish_digest [OF md5_holds_read [OF md5_holds_start]]
  by (simp add: md5_memory_def md5_file_def)

text \<open>The digest does not depend on how a message is cut into calls of \<open>md5_update\<close>: any chunks,
  empty ones included, give the digest of their concatenation.\<close>

theorem md5_update_chunks:
  "md_digest (md5_finish (fold md5_update chunks (md5_start c))) = md5_digest (concat chunks)"
proof -
  have "md5_holds (msg @ concat chunks) (fold md5_update chunks d)" if "md5_holds msg d" for msg d
    using that
  proof (induction chunks arbitrary: msg d)
    case (Cons x xs)
    then show ?case
      using Cons.IH [OF md5_holds_update [OF Cons.prems]] by simp
  qed simp
  then show ?thesis
    using md5_finish_digest [of "concat chunks"] md5_holds_start by fastforce
qed

end
