(* ===== verification/Test_Driver.thy ===== *)
theory Test_Driver
  imports Ext2_Lookup Ext2_Debug Md5
begin

text \<open>
  The test program \<open>test/test_embext.c\<close>: it mounts an image, lists the directories, compares the MD5 sum of a
  file on it with one that was computed on the host, appends to a file, creates one and unmounts. One definition per
  section of \<open>main\<close>; \<open>Some code\<close> as the result of a section stands for \<open>exit(code)\<close>. \<open>tt_out\<close> is what
  \<open>main\<close> itself prints.
\<close>

unbundle bit_operations_syntax

section \<open>State and environment\<close>

text \<open>\<open>tt_dump\<close> is the file \<open>dump.png\<close>, \<open>None\<close> where it cannot be opened for writing.\<close>

record test_state =
  tt_fs :: fs
  tt_out :: string
  tt_dump :: "u8 list option"

text \<open>What the host supplies: the files that can be opened for reading, the memory for the image and how much of it is
  read, whether files can be created, and the texts and numbers of the errors.\<close>

record test_env =
  te_files :: "string \<Rightarrow> u8 list option"
  te_memory :: bool
  te_nread :: nat
  te_create :: "string \<Rightarrow> bool"
  te_errno :: "errno \<Rightarrow> int"
  te_strerror :: "errno \<Rightarrow> string"

definition on_fs :: "(fs, 'a) cm \<Rightarrow> (test_state, 'a) cm" where
  "on_fs m = (\<lambda>s. case m (tt_fs s) of Inl e \<Rightarrow> Inl e | Inr (x, t) \<Rightarrow> Inr (x, s\<lparr>tt_fs := t\<rparr>))"

text \<open>A section that works on a second open file.\<close>

definition second_file :: "(test_state, 'a) cm \<Rightarrow> (test_state, 'a) cm" where
  "second_file m = bnd (gets (\<lambda>s. fe (tt_fs s))) (\<lambda>outer.
     bnd m (\<lambda>r. seq (upd (tt_fs_update (fe_update (\<lambda>_. outer)))) (ret r)))"

definition exits_or :: "(test_state, int option) cm \<Rightarrow> (test_state, int) cm \<Rightarrow> (test_state, int) cm" where
  "exits_or m k = bnd m (\<lambda>r. case r of Some code \<Rightarrow> ret code | None \<Rightarrow> k)"

section \<open>Output\<close>

definition say :: "string \<Rightarrow> (test_state, unit) cm" where
  "say txt = upd (tt_out_update (\<lambda>out. out @ txt))"

definition show_int :: "int \<Rightarrow> string" where
  "show_int n = show_d (word_of_int n)"

definition ascii :: "string \<Rightarrow> u8 list" where "ascii = map of_char"
definition unascii :: "u8 list \<Rightarrow> string" where "unascii = map (\<lambda>b. char_of (unat b))"

definition line :: "string \<Rightarrow> (test_state, unit) cm" where "line txt = say (txt @ [newline])"

text \<open>\<open>printf("[%4d] %-60s", p, title)\<close>.\<close>

definition heading :: "nat \<Rightarrow> string \<Rightarrow> (test_state, unit) cm" where
  "heading p title = say (''['' @ replicate (4 - length (show_u p)) (CHR 0x20) @ show_u p @ ''] ''
     @ title @ replicate (60 - length title) (CHR 0x20))"

definition pass :: "(test_state, int option) cm" where
  "pass = seq (line ''    pass'') (ret None)"

definition failed :: "string \<Rightarrow> int \<Rightarrow> (test_state, int option) cm" where
  "failed txt code = seq (line ''    fail'') (seq (line txt) (ret (Some code)))"

text \<open>A failure that prints the error number and its text.\<close>

definition failed_errno :: "test_env \<Rightarrow> string \<Rightarrow> string \<Rightarrow> string \<Rightarrow> int \<Rightarrow> (test_state, int option) cm" where
  "failed_errno env txt sep close code = bnd (gets (\<lambda>s. rerrno (tt_fs s))) (\<lambda>e.
     failed (txt @ show_int (te_errno env e) @ sep @ te_strerror env e @ close) code)"

section \<open>Starting and mounting\<close>

definition test_start :: "test_env \<Rightarrow> (test_state, int option) cm" where
  "test_start env =
     seq (line (''Running EXT2 tests...'' @ [newline]))
     (seq (on_fs (upd (dev_update (block_pc_set_image_name ''testext.img''))))
     (seq (heading 0 ''start block device emulation...'')
     (bnd (on_fs (on_dev (block_init (te_files env) (te_memory env) (te_nread env)))) (\<lambda>result.
     if result = 0 then pass else failed (''    Return code '' @ show_int result) 1))))"

text \<open>\<open>result\<close> is also the variable the later calls leave their error number in.\<close>

definition test_mount :: "(test_state, int option) cm" where
  "test_mount =
     seq (heading 1 ''mount filesystem'')
     (bnd (on_fs (bnd (gets (\<lambda>s. block_get_volume_size (dev s))) (\<lambda>size. ext2_mount 0 size 0))) (\<lambda>result.
     seq (on_fs (set_errno (EOTHER result)))
     (if result = 0 then pass else failed (''    Return code '' @ show_int result) 1)))"

section \<open>Listing the directories\<close>

definition entry_text :: "string \<Rightarrow> fs \<Rightarrow> string" where
  "entry_text indent s = indent @ unascii (c_string (d_name (static_de s))) @ '' ['' @ show_d (d_ino (static_de s)) @ '']''"

primrec list_subdirectory :: "nat \<Rightarrow> (test_state, unit) cm" where
  "list_subdirectory 0 = fail Out_of_fuel"
| "list_subdirectory (Suc fuel) =
     bnd (on_fs (ext2_readdir TheFe)) (\<lambda>found.
     if \<not> found then ret () else
     bnd (gets (\<lambda>s. entry_text ''  '' (tt_fs s))) (\<lambda>txt. seq (line txt) (list_subdirectory fuel)))"

definition complain :: "test_env \<Rightarrow> string \<Rightarrow> (test_state, unit) cm" where
  "complain env txt = bnd (gets (\<lambda>s. rerrno (tt_fs s))) (\<lambda>e. line (txt @ '' ['' @ show_int (te_errno env e) @ '']''))"

definition list_entry :: "test_env \<Rightarrow> nat \<Rightarrow> u8 list \<Rightarrow> (test_state, int option) cm" where
  "list_entry env fuel buffer =
     bnd (on_fs (ext2_open fuel buffer 0 0x1FF)) (\<lambda>opened.
     if \<not> opened then seq (complain env (''Opening '' @ unascii buffer @ '' failed.'')) (ret (Some 1)) else
     bnd (on_fs (ext2_fstat TheFe)) (\<lambda>(r, st).
     case st of None \<Rightarrow> seq (complain env (''Couldn't stat '' @ unascii buffer @ ''.'')) (ret (Some 1))
     | Some st \<Rightarrow>
       bnd (gets (\<lambda>s. entry_text ''/'' (tt_fs s))) (\<lambda>txt.
       seq (line (txt @ '' '' @ show_d (st_size st)))
       (bnd (gets (\<lambda>s. c_string (d_name (static_de (tt_fs s))))) (\<lambda>name.
       seq (if st_mode st AND EXT2_S_IFDIR \<noteq> 0 \<and> name \<noteq> ascii ''.'' \<and> name \<noteq> ascii ''..''
            then list_subdirectory fuel else ret ())
       (bnd (on_fs (ext2_close TheFe)) (\<lambda>_. ret None)))))))"

text \<open>\<open>buffer\<close> has room for 255 characters.\<close>

primrec list_root :: "test_env \<Rightarrow> nat \<Rightarrow> nat \<Rightarrow> (test_state, int option) cm" where
  "list_root env depth 0 = fail Out_of_fuel"
| "list_root env depth (Suc fuel) =
     bnd (on_fs (ext2_readdir TheFe)) (\<lambda>found.
     if \<not> found then ret None else
     bnd (gets (\<lambda>s. take 255 (slash # c_string (d_name (static_de (tt_fs s)))))) (\<lambda>buffer.
     bnd (second_file (list_entry env depth buffer)) (\<lambda>r.
     case r of Some code \<Rightarrow> ret (Some code) | None \<Rightarrow> list_root env depth fuel)))"

definition test_list :: "test_env \<Rightarrow> nat \<Rightarrow> (test_state, int option) cm" where
  "test_list env fuel =
     seq (heading 2 ''open root folder'')
     (bnd (on_fs (ext2_open fuel [slash] 0 0x1FF)) (\<lambda>opened.
     if \<not> opened then failed_errno env ''    errno = '' '' '' '''' 1 else
     bnd pass (\<lambda>_.
     bnd (list_root env fuel fuel) (\<lambda>r. case r of Some code \<Rightarrow> ret (Some code) | None \<Rightarrow>
     bnd (on_fs (ext2_close TheFe)) (\<lambda>_. ret None)))))"

section \<open>The MD5 sum of a file\<close>

text \<open>\<open>fwrite\<close> on the dump; with no bytes, \<open>fclose\<close>. The result of \<open>fopen\<close> is not tested.\<close>

definition dump_write :: "u8 list \<Rightarrow> (test_state, unit) cm" where
  "dump_write bytes = bnd (gets tt_dump) (\<lambda>d. case d of None \<Rightarrow> fail Null_deref
     | Some old \<Rightarrow> upd (tt_dump_update (\<lambda>_. Some (old @ bytes))))"

text \<open>The loop over pieces of 256 bytes and the last piece after it: the context and the number of bytes read.\<close>

primrec image_loop :: "nat \<Rightarrow> md_context \<Rightarrow> int \<Rightarrow> (test_state, md_context \<times> int) cm" where
  "image_loop 0 hash_context flen = fail Out_of_fuel"
| "image_loop (Suc fuel) hash_context flen =
     bnd (on_fs (ext2_read TheFe 256)) (\<lambda>(r, buffer).
     if r = 256 then
       seq (dump_write buffer) (image_loop fuel (md5_update buffer hash_context) (flen + r))
     else if r > 0 then
       seq (dump_write buffer) (ret (md5_update buffer hash_context, flen + r))
     else ret (hash_context, flen))"

definition hash_text :: "u8 list \<Rightarrow> string" where
  "hash_text h = concat (map (\<lambda>i. show_02x (h ! i)) [0..<16])"

definition compare_hash :: "test_env \<Rightarrow> u8 list \<Rightarrow> int \<Rightarrow> (test_state, int option) cm" where
  "compare_hash env digest flen =
     (case te_files env ''test_image.md5'' of
        None \<Rightarrow> seq (line ([newline] @ ''Couldn't open md5 sum of image for verification''))
                 (seq (line ''Have you run the latest version of ext_tests.py?'') (ret (Some 1)))
      | Some contents \<Rightarrow>
        let real_hash = take 16 contents in
        if length real_hash \<noteq> 16 then
          seq (line ''Couldn't read hash from hash file.  Can't verify image'') (ret (Some 1))
        else if digest \<noteq> real_hash then
          failed (''    Hash comparison failed (read '' @ show_int flen @ '' bytes),'' @ [newline]
            @ ''    Expected:   '' @ hash_text real_hash @ [newline] @ ''    Calculated: '' @ hash_text digest) 1
        else pass)"

definition test_image :: "test_env \<Rightarrow> md_context \<Rightarrow> nat \<Rightarrow> (test_state, int option) cm" where
  "test_image env hash_context fuel =
     seq (heading 3 ''read binary file'')
     (seq (upd (tt_dump_update (\<lambda>_. if te_create env ''dump.png'' then Some [] else None)))
     (bnd (on_fs (ext2_open fuel (ascii ''/static/test_image.png'') 0 0x1FF)) (\<lambda>opened.
     if \<not> opened then failed_errno env ''    Open for reading failed errno='' '' ('' '')'' 1 else
     bnd (image_loop fuel (md5_start hash_context) 0) (\<lambda>(hash_context, flen).
     seq (dump_write [])
     (bnd (on_fs (ext2_close TheFe)) (\<lambda>_.
     compare_hash env (md_digest (md5_finish hash_context)) flen))))))"

section \<open>Appending and creating\<close>

definition test_append :: "test_env \<Rightarrow> nat \<Rightarrow> (test_state, int option) cm" where
  "test_append env fuel =
     seq (heading 4 ''append test'')
     (bnd (on_fs (ext2_open fuel (ascii ''/logs/test.txt'') (O_WRONLY OR O_APPEND) 0x1FF)) (\<lambda>opened.
     if \<not> opened then failed_errno env ''    Open for writing failed, errno='' '' ('' ('')'' @ [CHR 0x0D]) (-1) else
     bnd (on_fs (ext2_write TheFe (ascii (''Hello world'' @ [CHR 0x0D, newline])))) (\<lambda>r.
     if r \<noteq> 13 then
       failed_errno env (''    writing failed, tried 13 bytes, actually wrote '' @ show_int r @ [newline] @ ''    errno = '') '', '' '''' 1
     else bnd (on_fs (ext2_close TheFe)) (\<lambda>_. pass))))"

text \<open>\<open>ext2_print_inode\<close> reads through the pointer it is given: it must be neither null nor closed.\<close>

definition print_inode_at :: "vfe \<Rightarrow> (test_state, unit) cm" where
  "print_inode_at v = (case v of NullFe \<Rightarrow> fail Null_deref
     | TheFe \<Rightarrow> bnd (gets (\<lambda>s. fe_magic (fe (tt_fs s)) = EMBEXT_MAGIC)) (\<lambda>open'.
         if open' then bnd (on_fs ext2_print_inode) say else fail Dangling_deref))"

definition test_create :: "test_env \<Rightarrow> nat \<Rightarrow> (test_state, int option) cm" where
  "test_create env fuel =
     seq (heading 5 ''create file test'')
     (bnd (on_fs (ext2_open fuel (ascii ''/logs/new_test.txt'') (O_WRONLY OR O_CREAT) 0x1FF)) (\<lambda>opened.
     if \<not> opened then failed_errno env ''    Open for writing failed, errno='' '' ('' '')'' (-1) else
     bnd (on_fs (ext2_write TheFe (ascii (''Hello world'' @ [newline])))) (\<lambda>r.
     if r \<noteq> 12 then
       failed_errno env (''    Writing failed, tried to write 12 bytes, actually wrote '' @ show_int r @ [newline] @ ''    errno = '') '', '' '''' (-1)
     else bnd (on_fs (ext2_close TheFe)) (\<lambda>r.
     if r \<noteq> 0 then failed_errno env ''    Closing the file failed, errno='' '' ('' '')'' (-1) else
     pass))))"

text \<open>Looking at the new file: the calls are made with whatever \<open>ext2_open\<close> has returned. The numbers of the \<open>stat\<close>
  are printed only where the file was opened: otherwise the null pointer ends the program at the next step.\<close>

definition test_inspect :: "nat \<Rightarrow> (test_state, int option) cm" where
  "test_inspect fuel =
     bnd (on_fs (ext2_open fuel (ascii ''/logs/new_test.txt'') 0 0x1FF)) (\<lambda>opened.
     let v = (if opened then TheFe else NullFe) in
     bnd (on_fs (ext2_fstat v)) (\<lambda>(_, st).
     bnd (on_fs (ext2_close v)) (\<lambda>_.
     seq (case st of None \<Rightarrow> ret () | Some st \<Rightarrow>
       seq (line (''new file inode = '' @ show_d (st_ino st))) (line (''new file size = '' @ show_d (st_size st))))
     (seq (print_inode_at v) (ret None)))))"

definition test_finish :: "test_env \<Rightarrow> (test_state, int) cm" where
  "test_finish env =
     seq (heading 6 ''unmount volume'')
     (bnd (on_fs ext2_umount) (\<lambda>_.
     bnd pass (\<lambda>_.
     bnd (on_fs (on_dev (block_pc_snapshot_all (te_create env ''writenfs.img'')))) (\<lambda>_.
     bnd (on_fs (on_dev block_halt)) (\<lambda>_. ret 0)))))"

definition test_main :: "test_env \<Rightarrow> md_context \<Rightarrow> nat \<Rightarrow> (test_state, int) cm" where
  "test_main env hash_context fuel =
     exits_or (test_start env) (exits_or test_mount (exits_or (test_list env fuel)
       (exits_or (test_image env hash_context fuel) (exits_or (test_append env fuel)
       (exits_or (test_create env fuel) (exits_or (test_inspect fuel) (test_finish env)))))))"

end
