(* ===== verification/Test_Image.thy ===== *)
theory Test_Image
  imports Test_Driver Ext2_Edit
begin

text \<open>
  What the test program establishes. Its comparison of the image file passes exactly when the file on the volume has
  the sum computed on the host, and the program as a whole cannot reach its \<open>exit(0)\<close>: before that it prints the
  inode of a file it has closed.
\<close>

unbundle bit_operations_syntax

section \<open>Reading a file in pieces\<close>

text \<open>A file open for reading with the cursor at \<open>c\<close>; \<open>d\<close> is the state it was opened in.\<close>

definition reading :: "fs \<Rightarrow> nat \<Rightarrow> fs \<Rightarrow> bool" where
  "reading d c s \<longleftrightarrow> dir_at c s \<and> same_dir d s \<and> fe_inode_number (fe s) = fe_inode_number (fe d) \<and> wf_inode (ino s)"

abbreviation file_size :: "fs \<Rightarrow> nat" where "file_size d \<equiv> unat (i_size (ino d))"

lemma reading_piece:
  assumes r: "reading d c s" and ok: "\<forall>j < file_size d. byte_ok d j" and c: "c mod 256 = 0" "n = min 256 (file_size d - c)"
  shows "\<exists>t. ext2_read TheFe 256 s = Inr ((int n, map (file_byte d) [c..<c + n]), t) \<and> reading d (c + n) t"
proof -
  have d: "dir_at c s" "same_dir d s" "fe_magic (fe s) = EMBEXT_MAGIC" "map_state s" "fe_cursor (fe s) = int c"
    using r by (simp_all add: reading_def dir_at_def)
  note v = same_dir_view [OF d(2)]
  have n: "n = read_count s c (unat (256 :: u64))"
    using c(2) by (simp add: read_count_def v)
  have "c mod 512 = c mod 256 + 256 * (c div 256 mod 2)"
    using mod_mult2_eq [of c 256 2] by simp
  then have "c mod 512 + n \<le> 512"
    using c mod_less_divisor [of 2 "c div 256"] by linarith
  moreover have "0 < n \<Longrightarrow> byte_ok s c"
    using ok c(2) by (simp add: v)
  ultimately have run: "ext2_read TheFe 256 s = Inr ((int n, map (file_byte d) [c..<c + n]), after_read c n s)"
    using ext2_read_run [OF d(4,5,3) n] by (simp add: v)
  have "dir_at (c + n) (after_read c n s)" "same_dir s (after_read c n s)"
    using d(1) by (auto simp: dir_at_def same_dir_def same_disk_def map_state_def after_read_fields
        intro!: exI [of _ "cx_sysbuf (ctx s)"])
  then have "reading d (c + n) (after_read c n s)"
    using r same_dir_trans [OF d(2)]
    by (simp add: reading_def) (simp add: after_read_def accessed_def advanced_def loaded_def wf_inode_def)
  then show ?thesis
    using run by blast
qed

lemma dump_write_run: "tt_dump s = Some x \<Longrightarrow> dump_write b s = Inr ((), s\<lparr>tt_dump := Some (x @ b)\<rparr>)"
  by (simp add: dump_write_def bnd_def gets_def upd_def)

text \<open>The loop hashes and dumps what is left of the file.\<close>

lemma image_loop_run:
  assumes "reading d c (tt_fs s)" and "\<forall>j < file_size d. byte_ok d j" and "c mod 256 = 0" "c \<le> file_size d"
    and "(file_size d - c) div 256 < fuel" and "md5_holds (map (file_byte d) [0..<c]) h" and "tt_dump s = Some x"
  shows "\<exists>h' t. image_loop fuel h flen s = Inr ((h', flen + int (file_size d - c)), t)
     \<and> md5_holds (map (file_byte d) [0..<file_size d]) h' \<and> reading d (file_size d) (tt_fs t)
     \<and> tt_dump t = Some (x @ map (file_byte d) [c..<file_size d]) \<and> tt_out t = tt_out s"
  using assms
proof (induction fuel arbitrary: s c h x flen)
  case (Suc fuel)
  define n where "n = min 256 (file_size d - c)"
  obtain t where t: "ext2_read TheFe 256 (tt_fs s) = Inr ((int n, map (file_byte d) [c..<c + n]), t)" "reading d (c + n) t"
    using reading_piece [OF Suc.prems(1-3) n_def] by blast
  let ?b = "map (file_byte d) [c..<c + n]" and ?s = "s\<lparr>tt_fs := t, tt_dump := Some (x @ map (file_byte d) [c..<c + n])\<rparr>"
  have up: "map (file_byte d) [0..<c + n] = map (file_byte d) [0..<c] @ ?b"
    by (subst upt_add_eq_append [OF le0], rule map_append)
  have h: "md5_holds (map (file_byte d) [0..<c + n]) (md5_update ?b h)"
    unfolding up by (rule md5_holds_update [OF Suc.prems(6)])
  have dw: "dump_write ?b (s\<lparr>tt_fs := t\<rparr>) = Inr ((), ?s)"
    using Suc.prems(7) by (simp add: dump_write_run)
  have "on_fs (ext2_read TheFe 256) s = Inr ((int n, ?b), s\<lparr>tt_fs := t\<rparr>)"
    using t(1) by (simp add: on_fs_def)
  note step = bnd_Inr [of "on_fs (ext2_read TheFe 256)" s, OF this]
  note dump = seq_Inr [of "dump_write ?b" "s\<lparr>tt_fs := t\<rparr>", OF dw]
  consider "n = 256" | "0 < n" "n < 256" | "n = 0"
    unfolding n_def by linarith
  then show ?case
  proof cases
    case 1
    then have c: "c + 256 \<le> file_size d" "(c + 256) mod 256 = 0"
      using Suc.prems(3,4) by (simp_all add: n_def)
    have "(file_size d - c) div 256 = Suc ((file_size d - (c + 256)) div 256)"
      using div_add_self2 [of 256 "file_size d - (c + 256)"] c(1) by simp
    then have f: "(file_size d - (c + 256)) div 256 < fuel"
      using Suc.prems(5) by simp
    have "image_loop (Suc fuel) h flen s = image_loop fuel (md5_update ?b h) (flen + 256) ?s"
      by (simp add: step 1 dump [unfolded 1])
    moreover obtain h' u where "image_loop fuel (md5_update ?b h) (flen + 256) ?s = Inr ((h', flen + 256 + int (file_size d - (c + n))), u)"
      "md5_holds (map (file_byte d) [0..<file_size d]) h'" "reading d (file_size d) (tt_fs u)"
      "tt_dump u = Some ((x @ ?b) @ map (file_byte d) [c + n..<file_size d])" "tt_out u = tt_out ?s"
      using Suc.IH [of "c + n" ?s "md5_update ?b h" "x @ ?b" "flen + 256"] t(2) Suc.prems(2) c f h 1 by auto
    moreover have "map (file_byte d) [c..<file_size d] = ?b @ map (file_byte d) [c + n..<file_size d]"
      using upt_add_eq_append [of c "c + n" "file_size d - (c + n)"] c(1) 1 by (simp flip: map_append)
    ultimately show ?thesis
      using c(1) 1 by (auto simp: of_nat_diff)
  next
    case 2
    then have run: "image_loop (Suc fuel) h flen s = Inr ((md5_update ?b h, flen + int n), ?s)"
      by (simp add: step dump)
    have "file_size d - c = n" "file_size d = c + n"
      using 2 Suc.prems(4) by (simp_all add: n_def min_def split: if_splits)
    then show ?thesis
      unfolding run using t(2) h by (intro exI [of _ "md5_update ?b h"] exI [of _ ?s]) (simp del: int_nat_eq)
  next
    case 3
    then have "c = file_size d"
      using Suc.prems(4) by (simp add: n_def)
    then show ?thesis
      using 3 t(2) Suc.prems(6,7) by (simp add: step)
  qed
qed simp

lemma reading_close:
  assumes r: "reading d c s" and j: "inode_ok d (fe_inode_number (fe d))"
  shows "\<exists>t. ext2_close TheFe s = Inr (0, t)"
proof (cases "fe_flags (fe s) AND EXT2_FLAG_FS_DIRTY = 0")
  case True
  then show ?thesis
    using r by (simp add: reading_def dir_at_def map_state_def ext2_close_def bnd_bad_file is_open_def seq_def upd_fe_def)
next
  case False
  have m: "map_state s" "settled s = s" "same_disk d s"
    using r by (simp_all add: reading_def dir_at_def same_dir_def map_state_def settled_def)
  then have "io_state s"
    by (simp add: map_state_def io_state_def)
  then show ?thesis
    using close_run [of s] r j False m same_disk_inodes(1) [OF m(3)] by (simp add: reading_def dir_at_def)
qed

section \<open>The comparison\<close>

definition contents :: "u32 \<Rightarrow> fs \<Rightarrow> u8 list" where
  "contents j s = map (file_byte (opened_inode j s)) [0..<file_size (opened_inode j s)]"

lemma say_run: "say txt s = Inr ((), s\<lparr>tt_out := tt_out s @ txt\<rparr>)"
  by (cases s) (simp add: say_def upd_def)

lemma report_run:
  "\<exists>out. pass s = Inr (None, s\<lparr>tt_out := out\<rparr>)" "\<exists>out. failed txt code s = Inr (Some code, s\<lparr>tt_out := out\<rparr>)"
  unfolding pass_def failed_def line_def seq_def bnd_def say_run ret_def by (simp_all del: append_Cons) blast+

lemma compare_hash_run:
  assumes "te_files env ''test_image.md5'' = Some real" "16 \<le> length real"
  shows "\<exists>out. compare_hash env digest flen s = Inr (if digest = take 16 real then None else Some 1, s\<lparr>tt_out := out\<rparr>)"
  using assms report_run by (simp add: compare_hash_def Let_def)

text \<open>C17: the test of the image file does what it is for. When the path leads to a file all of whose blocks can be
  reached, the section reads it to its end in pieces of 256 bytes, leaves a copy of its bytes in the dump, and passes
  exactly when their MD5 sum is the first sixteen bytes of the host's file; otherwise it exits with status 1.\<close>

theorem test_image_checks_the_file:
  assumes s: "mounted_ok (tt_fs s)" and r: "resolves (fresh (tt_fs s)) n EXT2_ROOT_INO (path_elements (ascii ''/static/test_image.png'')) j"
    and j: "inode_ok (tt_fs s) j" and ok: "\<forall>c < length (contents j (tt_fs s)). byte_ok (opened_inode j (tt_fs s)) c"
    and n: "length (contents j (tt_fs s)) div 256 \<le> n"
    and host: "te_create env ''dump.png''" "te_files env ''test_image.md5'' = Some real" "16 \<le> length real"
  shows "\<exists>t. test_image env h (Suc n) s
       = Inr (if md5_digest (contents j (tt_fs s)) = take 16 real then None else Some 1, t)
     \<and> tt_dump t = Some (contents j (tt_fs s))"
proof -
  let ?d = "opened_inode j (tt_fs s)" and ?path = "ascii ''/static/test_image.png''"
  obtain out where out: "heading 3 ''read binary file'' s = Inr ((), s\<lparr>tt_out := out\<rparr>)"
    by (simp add: heading_def say_run)
  let ?s = "s\<lparr>tt_out := out, tt_dump := Some []\<rparr>"
  obtain t where t: "ext2_open (Suc n) ?path 0 0x1FF (tt_fs s) = Inr (True, t)" "fe_inode_number (fe t) = j"
    "ino t = disk_inode (tt_fs s) j" "dir_at 0 t" "same_dir ?d t"
    using open_read_run [OF s r j, of 0 "0x1FF"] by (auto simp: open_flag_defs simp del: ext2_open.simps)
  have op: "on_fs (ext2_open (Suc n) ?path 0 0x1FF) ?s = Inr (True, ?s\<lparr>tt_fs := t\<rparr>)"
    using t(1) by (simp add: on_fs_def del: ext2_open.simps)
  have "reading ?d 0 t"
    using t s j by (simp add: reading_def wf_disk_inode mounted_ok_def) (simp add: opened_inode_def)
  then obtain h' u where u: "image_loop (Suc n) (md5_start h) 0 (?s\<lparr>tt_fs := t\<rparr>) = Inr ((h', 0 + int (file_size ?d - 0)), u)"
    "md5_holds (contents j (tt_fs s)) h'" "reading ?d (file_size ?d) (tt_fs u)" "tt_dump u = Some (contents j (tt_fs s))"
    using image_loop_run [of ?d 0 "?s\<lparr>tt_fs := t\<rparr>" "Suc n" "md5_start h" "[]" 0] ok n
    by (auto simp: md5_holds_start contents_def simp del: image_loop.simps)
  have "inode_ok ?d (fe_inode_number (fe ?d))"
    using j same_disk_inodes(1) [OF opened_inode_same_disk, of j "tt_fs s"] by (simp add: opened_inode_def)
  then obtain v where "ext2_close TheFe (tt_fs u) = Inr (0, v)"
    using reading_close [OF u(3)] by blast
  then have cl: "on_fs (ext2_close TheFe) (u\<lparr>tt_dump := Some (contents j (tt_fs s) @ [])\<rparr>)
      = Inr (0, u\<lparr>tt_dump := Some (contents j (tt_fs s) @ []), tt_fs := v\<rparr>)"
    by (simp add: on_fs_def)
  obtain out' where "compare_hash env (md_digest (md5_finish h')) (int (file_size ?d)) (u\<lparr>tt_dump := Some (contents j (tt_fs s)), tt_fs := v\<rparr>)
      = Inr (if md5_digest (contents j (tt_fs s)) = take 16 real then None else Some 1,
          u\<lparr>tt_dump := Some (contents j (tt_fs s)), tt_fs := v, tt_out := out'\<rparr>)"
    using compare_hash_run [OF host(2,3), of "md_digest (md5_finish h')"] md5_finish_digest [OF u(2)] by metis
  then show ?thesis
    unfolding test_image_def
    using host(1) by (simp add: seq_Inr [of "heading 3 title" for title, OF out] bnd_Inr [of "on_fs (ext2_open m ?path 0 0x1FF)" for m, OF op]
        bnd_Inr [of "image_loop m (md5_start h) 0" for m, OF u(1)] seq_Inr [of "dump_write []", OF dump_write_run [OF u(4)]]
        bnd_Inr [of "on_fs (ext2_close TheFe)", OF cl [unfolded append_Nil2]] del: image_loop.simps ext2_open.simps)
qed

section \<open>A volume with an image\<close>

text \<open>The demo volume with two entries in its root directory: \<open>static\<close>, which is the root again, and the file.\<close>

definition image_entries :: "u8 list" where
  "image_entries = encode_dir_header \<lparr>dh_inode = 2, dh_rec_len = 16, dh_name_len = 6, dh_file_type = 2\<rparr> @ ascii ''static'' @ [0, 0]
     @ encode_dir_header \<lparr>dh_inode = 3, dh_rec_len = 1008, dh_name_len = 14, dh_file_type = 1\<rparr> @ ascii ''test_image.png''"

definition demo_image :: fs where
  "demo_image = put_sector 12 (image_entries @ replicate (512 - length image_entries) 0) demo_fs"

lemma image_path:
  "path_elements (ascii ''/static/test_image.png'') = [ascii ''static'', ascii ''test_image.png'']"
  by (simp add: path_elements_def MAX_PATH_LEN_def MAX_PATH_LEVELS_def ascii_def slash_def
      tokens.simps [of "x # xs" for x xs] tokens.simps [of "[]"] of_char_def)

lemma length_image_entries: "length image_entries = 38"
  by (simp add: image_entries_def encode_dir_header_def ascii_def)

lemma demo_image_sectors:
  "pc_ok (dev demo_image)" "m < 16 \<Longrightarrow> m \<noteq> 12 \<Longrightarrow> part_sector demo_image m = demo_sector m"
  "part_sector demo_image 12 = image_entries @ replicate 474 0"
  unfolding demo_image_def using put_sector_run(2,3) [of demo_fs 12 "image_entries @ replicate (512 - length image_entries) 0"]
  by (simp_all add: length_image_entries)

lemma demo_image_inode:
  "inode_ok demo_image 2" "inode_ok demo_image 3" "disk_inode demo_image 2 = demo_root" "disk_inode demo_image 3 = demo_file"
proof -
  have geo: "same_geometry demo_fs demo_image"
    by (simp add: same_geometry_def demo_image_def)
  show "inode_ok demo_image 2" "inode_ok demo_image 3" "disk_inode demo_image 2 = demo_root" "disk_inode demo_image 3 = demo_file"
    using inode_view [OF geo, of 2] inode_view [OF geo, of 3] demo_disk_inode by (simp_all add: demo_image_sectors disk_inode_def)
qed

lemma image_mounted: "mounted_ok demo_image" "same_disk demo_image (fresh demo_image)"
proof -
  show m: "mounted_ok demo_image"
    using demo_fresh(1) demo_image_sectors(1) by (simp add: mounted_ok_def demo_image_def put_sector_def)
  show "same_disk demo_image (fresh demo_image)"
    using fresh_state(1) [OF m] .
qed

abbreviation image_root :: fs where "image_root \<equiv> opened_inode 2 (fresh demo_image)"

lemma image_root_view:
  "part_sector image_root = part_sector demo_image" "in_part image_root = in_part demo_fs" "spb image_root = 2"
  "bsize image_root = 1024" "ino image_root = demo_root" "map_state image_root"
  using same_disk_sectors [OF same_disk_trans [OF image_mounted(2) opened_inode_same_disk]] same_disk_inodes(2) [OF image_mounted(2)]
    opened_inode_reader [OF fresh_state(2) [OF image_mounted(1)], of 2] demo_image_inode(3)
  by (simp_all add: reader_at_def dir_at_def) (simp_all add: demo_image_def opened_inode_def bsize_def)

lemma image_root_sectors: "c < 1024 \<Longrightarrow> byte_ok image_root c" "c < 512 \<Longrightarrow> byte_sector image_root c = 12"
  by (simp_all add: byte_ok_def file_block_ok_def file_block_def blk_ok_def byte_sector_def Let_def image_root_view)

lemma image_root_bytes: "c + n \<le> 38 \<Longrightarrow> 0 < n \<Longrightarrow> map (file_byte image_root) [c..<c + n] = slice c n image_entries"
  using sector_bytes [OF image_root_view(6), of c n] image_root_sectors(2) [of c]
  by (simp add: image_root_view demo_image_sectors slice_append_left length_image_entries)

lemma image_root_entries:
  "entry_ino image_root 0 = 2" "entry_rec_len image_root 0 = 16" "entry_name_len image_root 0 = 6"
  "shown_name image_root 0 = ascii ''static''"
  "entry_ino image_root 16 = 3" "entry_rec_len image_root 16 = 1008" "entry_name_len image_root 16 = 14"
  "shown_name image_root 16 = ascii ''test_image.png''"
proof -
  note e = image_entries_def encode_dir_header_def ascii_def of_char_def slice_def rd4_def rd2_def le4_def le2_def
  show "entry_ino image_root 0 = 2" "entry_ino image_root 16 = 3"
    using image_root_bytes [of 0 4] image_root_bytes [of 16 4] by (simp_all add: entry_ino_def e)
  show "entry_rec_len image_root 0 = 16" "entry_rec_len image_root 16 = 1008"
    using image_root_bytes [of 4 2] image_root_bytes [of 20 2] by (simp_all add: entry_rec_len_def e)
  show n: "entry_name_len image_root 0 = 6" "entry_name_len image_root 16 = 14"
    using image_root_bytes [of 6 1] image_root_bytes [of 22 1] by (simp_all add: entry_name_len_def e)
  show "shown_name image_root 0 = ascii ''static''" "shown_name image_root 16 = ascii ''test_image.png''"
    using image_root_bytes [of 8 6] image_root_bytes [of 24 14] n by (simp_all add: shown_name_def entry_name_def e)
qed

lemma image_resolves: "resolves (fresh demo_image) 2 EXT2_ROOT_INO (path_elements (ascii ''/static/test_image.png'')) 3"
proof -
  note ok = header_ok_def name_ok_def used_def image_root_entries image_root_sectors image_root_view
  have "names_entry image_root 2 (ascii ''static'') 0"
    unfolding names_entry_def by (intro exI [of _ "[]"] exI [of _ 16]) (simp add: ok)
  moreover have "names_entry image_root 2 (ascii ''test_image.png'') 16"
    unfolding names_entry_def by (intro exI [of _ "[0]"] exI [of _ 1024]) (simp add: ok, simp add: ascii_def)
  moreover have "inode_ok (fresh demo_image) 2"
    using demo_image_inode(1) same_disk_inodes(1) [OF image_mounted(2)] by simp
  ultimately show ?thesis
    unfolding image_path EXT2_ROOT_INO_def using resolves.here [of "fresh demo_image" 2 3]
    by (intro resolves.down [where e = 0] resolves.down [where e = 16]) (simp_all add: image_root_entries)
qed

lemma image_contents:
  "contents 3 demo_image = replicate 512 65 @ replicate 88 0" "c < 600 \<Longrightarrow> byte_ok (opened_inode 3 demo_image) c"
proof -
  let ?d = "opened_inode 3 demo_image"
  have v: "part_sector ?d = part_sector demo_image" "in_part ?d = in_part demo_fs" "spb ?d = 2" "bsize ?d = 1024" "ino ?d = demo_file"
    using same_disk_sectors [OF opened_inode_same_disk, of 3 demo_image] demo_image_inode(4)
    by (simp_all add: demo_image_def opened_inode_def bsize_def)
  have b: "byte_ok ?d c" "byte_sector ?d c = 14 + c div 512" if "c < 600" for c
    using that by (simp_all add: byte_ok_def file_block_ok_def file_block_def blk_ok_def byte_sector_def Let_def v)
  show "c < 600 \<Longrightarrow> byte_ok ?d c"
    by (rule b(1))
  have "file_byte ?d c = (if c < 512 then 65 else 0)" if "c < 600" for c
  proof -
    have "c div 512 = (if c < 512 then 0 else 1)"
      using that by auto
    then show ?thesis
      using that by (simp add: file_byte_def b v demo_image_sectors) (simp add: demo_sector_def)
  qed
  then show "contents 3 demo_image = replicate 512 65 @ replicate 88 0"
    by (intro nth_equalityI) (simp_all add: contents_def v nth_append)
qed

definition image_state :: test_state where
  "image_state = \<lparr>tt_fs = demo_image, tt_out = [], tt_dump = None\<rparr>"

definition image_env :: test_env where
  "image_env = \<lparr>te_files = (\<lambda>name. Some (md5_digest (replicate 512 65 @ replicate 88 0))), te_memory = True, te_nread = 8192,
     te_create = (\<lambda>name. True), te_errno = (\<lambda>e. 0), te_strerror = (\<lambda>e. [])\<rparr>"

lemma test_image_checks_the_file_witness:
  "\<forall>h. \<exists>t. test_image image_env h (Suc 2) image_state = Inr (None, t) \<and> tt_dump t = Some (replicate 512 65 @ replicate 88 0)"
proof
  fix h
  have len: "length (md5_digest x) = 16" for x
    by (simp add: md5_digest_def md5_output_def split: prod.splits)
  show "\<exists>t. test_image image_env h (Suc 2) image_state = Inr (None, t) \<and> tt_dump t = Some (replicate 512 65 @ replicate 88 0)"
  proof -
    have "\<exists>t. test_image image_env h (Suc 2) image_state
        = Inr (if md5_digest (contents 3 (tt_fs image_state)) = take 16 (md5_digest (contents 3 demo_image)) then None else Some 1, t)
      \<and> tt_dump t = Some (contents 3 (tt_fs image_state))"
    proof (rule test_image_checks_the_file)
      show "resolves (fresh (tt_fs image_state)) 2 EXT2_ROOT_INO (path_elements (ascii ''/static/test_image.png'')) 3"
        using image_resolves by (simp add: image_state_def)
      show "\<forall>c<length (contents 3 (tt_fs image_state)). byte_ok (opened_inode 3 (tt_fs image_state)) c"
        using image_contents by (simp add: image_state_def)
    qed (simp_all add: image_state_def image_env_def image_mounted demo_image_inode image_contents len)
    then show ?thesis
      by (simp add: len image_state_def image_contents(1))
  qed
qed

section \<open>The end of the program\<close>

text \<open>Opening for reading leaves a file that closing has nothing to write for.\<close>

lemma open_inode_flags: "ext2_open_inode i s = Inr (0, t) \<Longrightarrow> fe_flags (fe t) = EXT2_FLAG_READ"
  unfolding ext2_open_inode_def by (auto simp: bnd_eq_Inr seq_eq_Inr gets_def upd_fe_def upd_def ret_def split: if_splits)

lemma open_clean:
  assumes "ext2_open (Suc n) name 0 mode s = Inr (True, t)"
  shows "bo_dirty (buf t) = 0 \<and> fe_flags (fe t) AND EXT2_FLAG_FS_DIRTY = 0"
proof -
  obtain u i where "ext2_open_inode i u = Inr (0, t) \<or> (\<exists>v. ext2_open_inode i u = Inr (0, v) \<and> set_flag (O_ACCESS_FLAGS 0) v = Inr ((), t))"
    using assms by (auto simp: bnd_eq_Inr seq_eq_Inr gets_def upd_def open_fails_def open_existing_def Let_def ret_def set_errno_def open_flag_defs
        split: if_splits)
  then have "fe_flags (fe t) AND EXT2_FLAG_FS_DIRTY = 0"
    by (auto dest: open_inode_flags simp: set_flag_def upd_fe_def upd_def O_ACCESS_FLAGS_def flag_defs)
  moreover have "bo_dirty (buf t) = 0"
    using open_read_only_dev [OF _ _ assms] by simp
  ultimately show ?thesis
    by simp
qed

lemma close_clean:
  assumes "bo_dirty (buf s) = 0" "fe_flags (fe s) AND EXT2_FLAG_FS_DIRTY = 0"
  shows "\<exists>r t. ext2_close TheFe s = Inr (r, t) \<and> fe_magic (fe t) \<noteq> EMBEXT_MAGIC"
proof (cases "fe_magic (fe s) = EMBEXT_MAGIC")
  case True
  then have "ext2_close TheFe s = Inr (0, fe_update (fe_magic_update (\<lambda>_. 0)) s)"
    using assms by (simp add: ext2_close_def bnd_bad_file is_open_def seq_def upd_fe_def)
  then show ?thesis
    by (simp add: EMBEXT_MAGIC_def)
next
  case False
  then have "ext2_close TheFe s = Inr (-1, s\<lparr>rerrno := EBADF\<rparr>)"
    by (simp add: ext2_close_def bnd_bad_file is_open_def seq_def set_errno_def)
  then show ?thesis
    using False by simp
qed

lemma on_fs_eq_Inr: "on_fs m s = Inr (x, t) \<longleftrightarrow> (\<exists>u. m (tt_fs s) = Inr (x, u) \<and> t = s\<lparr>tt_fs := u\<rparr>)"
  by (auto simp: on_fs_def split: sum.splits)

lemma print_inode_at_Inr: "print_inode_at v t = Inr (x, u) \<Longrightarrow> v = TheFe \<and> fe_magic (fe (tt_fs t)) = EMBEXT_MAGIC"
  by (auto simp: print_inode_at_def fail_def bnd_def gets_def split: vfe.splits if_splits)

lemma test_inspect_faults: "\<exists>e. test_inspect (Suc n) s = Inl e"
proof (cases "test_inspect (Suc n) s")
  case (Inr ru)
  obtain r u where "ru = (r, u)"
    by force
  then obtain opened t st1 t' r' c w where
    opn: "ext2_open (Suc n) (ascii ''/logs/new_test.txt'') 0 0x1FF (tt_fs s) = Inr (opened, t)"
    and st: "ext2_fstat (if opened then TheFe else NullFe) t = Inr (st1, t')"
    and cl: "ext2_close (if opened then TheFe else NullFe) t' = Inr (r', c)"
    and pr: "print_inode_at (if opened then TheFe else NullFe) w = Inr ((), u)" and w: "tt_fs w = c"
    using Inr by (auto simp: test_inspect_def Let_def bnd_eq_Inr seq_eq_Inr on_fs_eq_Inr line_def say_run ret_def
        simp del: ext2_open.simps split: option.splits prod.splits)
  have "opened" "fe_magic (fe c) = EMBEXT_MAGIC"
    using print_inode_at_Inr [OF pr] w by (auto split: if_splits)
  moreover have "fe t' = fe t"
    using st by (auto simp: ext2_fstat_def bnd_bad_file bnd_eq_Inr seq_eq_Inr ext2_block_size_def c_shl_def require_def fail_def set_errno_def
        upd_def gets_def ret_def Let_def split: if_splits)
  ultimately have "bo_dirty (buf t') = 0" "fe_flags (fe t') AND EXT2_FLAG_FS_DIRTY = 0"
    using open_clean [of n _ _ "tt_fs s" t] opn by (simp_all del: ext2_open.simps)
  then obtain k z where "ext2_close TheFe t' = Inr (k, z)" "fe_magic (fe z) \<noteq> EMBEXT_MAGIC"
    using close_clean by blast
  then show ?thesis
    using cl \<open>opened\<close> \<open>fe_magic (fe c) = EMBEXT_MAGIC\<close> by simp
qed simp

text \<open>The sections before it end the program with a status that is not 0, if they end it.\<close>

definition fails_nonzero :: "(test_state, int option) cm \<Rightarrow> bool" where
  "fails_nonzero m \<longleftrightarrow> (\<forall>s t. m s \<noteq> Inr (Some 0, t))"

lemma nonzero_bnd: "(\<And>x. fails_nonzero (k x)) \<Longrightarrow> fails_nonzero (bnd m k)"
  unfolding fails_nonzero_def bnd_eq_Inr by blast

lemma nonzero_seq: "fails_nonzero k \<Longrightarrow> fails_nonzero (seq m k)"
  unfolding fails_nonzero_def seq_eq_Inr by blast

lemma nonzero_if: "fails_nonzero m \<Longrightarrow> fails_nonzero k \<Longrightarrow> fails_nonzero (if b then m else k)"
  by simp

lemma nonzero_ends: "fails_nonzero (ret None)" "code \<noteq> 0 \<Longrightarrow> fails_nonzero (ret (Some code))" "fails_nonzero pass"
  "fails_nonzero (fail e)" "code \<noteq> 0 \<Longrightarrow> fails_nonzero (failed a code)" "code \<noteq> 0 \<Longrightarrow> fails_nonzero (failed_errno env a b c code)"
  by (auto simp: fails_nonzero_def ret_def fail_def pass_def failed_def failed_errno_def bnd_eq_Inr seq_eq_Inr)

lemma nonzero_option: "fails_nonzero m \<Longrightarrow> (\<And>x. fails_nonzero (k x)) \<Longrightarrow> fails_nonzero (case r of None \<Rightarrow> m | Some x \<Rightarrow> k x)"
  by (cases r) simp_all

lemma nonzero_pair: "(\<And>x y. fails_nonzero (k x y)) \<Longrightarrow> fails_nonzero (case p of (x, y) \<Rightarrow> k x y)"
  by (cases p) simp

lemmas nonzero = nonzero_if nonzero_option nonzero_pair nonzero_ends nonzero_seq nonzero_bnd

lemma sections_nonzero:
  "fails_nonzero (test_start env)" "fails_nonzero test_mount" "fails_nonzero (test_image env h fuel)"
  "fails_nonzero (test_append env fuel)" "fails_nonzero (test_create env fuel)"
  unfolding test_start_def test_mount_def test_image_def test_append_def test_create_def compare_hash_def Let_def
  by (intro nonzero; simp)+

lemma nonzero_then:
  assumes "fails_nonzero m" "fails_nonzero k"
  shows "fails_nonzero (bnd m (\<lambda>r. case r of None \<Rightarrow> k | Some code \<Rightarrow> ret (Some code)))"
  using assms by (fastforce simp: fails_nonzero_def bnd_eq_Inr ret_def split: option.splits)

lemma nonzero_second_file: "fails_nonzero m \<Longrightarrow> fails_nonzero (second_file m)"
  by (auto simp: fails_nonzero_def second_file_def bnd_eq_Inr seq_eq_Inr ret_def)

lemma list_nonzero: "fails_nonzero (test_list env fuel)"
proof -
  have entry: "fails_nonzero (list_entry env d b)" for d b
    unfolding list_entry_def by (intro nonzero; simp)
  have "fails_nonzero (list_root env d n)" for d n
  proof (induction n)
    case (Suc n)
    then show ?case
      unfolding list_root.simps by (intro nonzero_then nonzero_second_file entry nonzero_if nonzero_ends nonzero_bnd)
  qed (simp only: list_root.simps nonzero_ends)
  then show ?thesis
    unfolding test_list_def by (intro nonzero_then nonzero) simp_all
qed

lemma exits_or_zero: "fails_nonzero m \<Longrightarrow> (\<And>s t. k s \<noteq> Inr (0, t)) \<Longrightarrow> exits_or m k s \<noteq> Inr (0, t)"
  by (fastforce simp: fails_nonzero_def exits_or_def bnd_eq_Inr ret_def split: option.splits)

text \<open>C30: whatever the image and the host, the test program does not reach its \<open>exit(0)\<close> without a fault: when every
  test has passed it prints the inode of the file it has just closed, and since closing cannot fail for a file that
  was opened for reading and not read, the \<open>file_ent\<close> it reads has been freed.\<close>

theorem test_program_never_ends_with_success: "test_main env h (Suc n) s \<noteq> Inr (0, t)"
proof -
  have inspect: "exits_or (test_inspect (Suc n)) k s \<noteq> Inr (0, t)" for k s t
    using test_inspect_faults [of n s] by (auto simp: exits_or_def bnd_def)
  show ?thesis
    unfolding test_main_def by (rule exits_or_zero sections_nonzero list_nonzero inspect)+
qed

end
