(* ===== verification/Partition.thy ===== *)
theory Partition
  imports Prelude
begin

text \<open>
  The partition table of the master boot record (\<open>partition.c\<close>): the four entries at offset
  \<open>0x1BE\<close> are checked against the size of the volume, and those that pass are copied, packed to
  the front, into a static array that the caller gets a pointer to. The comparisons are those of
  \<open>uint32_t\<close>: the end of an entry is computed modulo \<open>2 ^ 32\<close>.
\<close>

unbundle bit_operations_syntax

section \<open>Data\<close>

definition PARTITION0START :: nat where "PARTITION0START = 0x1BE"

record mbr_entry =
  bootable :: u8
  chs :: "u8 list"
  mbr_type :: u8
  chs_end :: "u8 list"
  lba_start :: u32
  mbr_length :: u32

definition sizeof_mbr_entry :: nat where "sizeof_mbr_entry = 16"

definition decode_mbr_entry :: "u8 list \<Rightarrow> mbr_entry" where
  "decode_mbr_entry bs = \<lparr>bootable = bs ! 0, chs = slice 1 3 bs, mbr_type = bs ! 4,
     chs_end = slice 5 3 bs, lba_start = rd4 bs 8, mbr_length = rd4 bs 12\<rparr>"

record partition =
  part_start :: u32
  part_length :: u32
  part_type :: u8

section \<open>Reading the table\<close>

text \<open>\<open>entry\<close> after \<open>i\<close> increments.\<close>

definition nth_entry :: "u8 list \<Rightarrow> nat \<Rightarrow> mbr_entry" where
  "nth_entry mbr i =
     decode_mbr_entry (slice (PARTITION0START + i * sizeof_mbr_entry) sizeof_mbr_entry mbr)"

definition valid_entry :: "mbr_entry \<Rightarrow> u32 \<Rightarrow> bool" where
  "valid_entry entry volume_size \<longleftrightarrow>
     lba_start entry < volume_size \<and> lba_start entry + mbr_length entry \<le> volume_size
     \<and> lba_start entry > 0 \<and> mbr_length entry > 0"



section \<open>The listed partitions\<close>

definition partition_of :: "mbr_entry \<Rightarrow> partition" where
  "partition_of e = \<lparr>part_start = lba_start e, part_length = mbr_length e, part_type = mbr_type e\<rparr>"

definition valid_partitions :: "u8 list \<Rightarrow> u32 \<Rightarrow> nat list \<Rightarrow> partition list" where
  "valid_partitions mbr volume_size ns =
     map partition_of (filter (\<lambda>e. valid_entry e volume_size) (map (nth_entry mbr) ns))"

lemma valid_partitions_simps [simp]:
  "valid_partitions mbr n [] = []"
  "valid_partitions mbr n (i # ns) =
     (if valid_entry (nth_entry mbr i) n then [partition_of (nth_entry mbr i)] else [])
     @ valid_partitions mbr n ns"
  by (simp_all add: valid_partitions_def)




text \<open>An entry whose sectors all lie in the volume, with no wrap-around in its end.\<close>

definition inside :: "partition \<Rightarrow> u32 \<Rightarrow> bool" where
  "inside p volume_size \<longleftrightarrow> 0 < unat (part_start p) \<and> 0 < unat (part_length p)
     \<and> unat (part_start p) + unat (part_length p) \<le> unat volume_size"

lemma valid_entry_inside:
  assumes "valid_entry e n" "unat (lba_start e) + unat (mbr_length e) < 2 ^ 32"
  shows "inside (partition_of e) n"
  using assms by (simp add: inside_def partition_of_def valid_entry_def word_le_nat_alt
      word_less_nat_alt unat_word_ariths)

text \<open>Twice the same volume size: the check accepts an entry exactly when it lies inside, or when its
  end, cut to 32 bits, comes back below the volume size.\<close>

lemma valid_entry_exact:
  "valid_entry e n \<longleftrightarrow> inside (partition_of e) n
     \<or> 0 < unat (lba_start e) \<and> unat (lba_start e) < unat n \<and> 2 ^ 32 \<le> unat (lba_start e) + unat (mbr_length e)
       \<and> unat (lba_start e) + unat (mbr_length e) - 2 ^ 32 \<le> unat n"
proof -
  have sum: "unat (lba_start e + mbr_length e)
      = (if unat (lba_start e) + unat (mbr_length e) < 2 ^ 32 then unat (lba_start e) + unat (mbr_length e)
         else unat (lba_start e) + unat (mbr_length e) - 2 ^ 32)"
    using unat_lt32 [of "lba_start e"] unat_lt32 [of "mbr_length e"] by (simp add: unat_word_ariths le_mod_geq)
  show ?thesis
    using unat_lt32 [of "lba_start e"] unat_lt32 [of "mbr_length e"] unat_lt32 [of n]
    unfolding valid_entry_def inside_def partition_of_def word_le_nat_alt word_less_nat_alt sum
    by auto
qed

section \<open>The properties\<close>







text \<open>The check accepts an entry that lies inside the volume, and besides these exactly the entries
  that start in it and whose end wraps past \<open>2 ^ 32\<close> back below the volume size; those are listed
  although they run far beyond the volume.\<close>

theorem valid_entry_wraps:
  "valid_entry e n \<longleftrightarrow> inside (partition_of e) n
     \<or> 0 < unat (lba_start e) \<and> unat (lba_start e) < unat n \<and> 2 ^ 32 \<le> unat (lba_start e) + unat (mbr_length e)
       \<and> unat (lba_start e) + unat (mbr_length e) - 2 ^ 32 \<le> unat n"
  by (rule valid_entry_exact)

end
