(* ===== verification/Block_Sd.thy ===== *)
theory Block_Sd
  imports Block_Device
begin

text \<open>
  \<open>src/src/block_drivers/block_sd.c\<close>, the block driver of the microcontroller build: an SD card on
  an SPI bus. \<open>sd_state\<close> holds the driver's static variable \<open>card\<close>, the sequence of calls it made
  to the hardware library, and what the hardware answers: the byte the card returns for a transfer
  and the level of an input pin, both as functions of everything that happened on the bus before.
  The card is not part of the program; nothing is assumed of it here. Loops that wait for the card
  without a bound take fuel.
\<close>

unbundle bit_operations_syntax

section \<open>Constants\<close>

definition SD_CARD_NONE :: u16 where "SD_CARD_NONE = 0"
definition SD_CARD_MMC :: u16 where "SD_CARD_MMC = 1"
definition SD_CARD_SC :: u16 where "SD_CARD_SC = 2"
definition SD_CARD_HC :: u16 where "SD_CARD_HC = 3"
definition SD_CARD_XC :: u16 where "SD_CARD_XC = 4"
definition SD_CARD_ERROR :: u16 where "SD_CARD_ERROR = 99"

definition CMD0 :: u8 where "CMD0 = 0"
definition CMD8 :: u8 where "CMD8 = 8"
definition CMD9 :: u8 where "CMD9 = 9"
definition CMD12 :: u8 where "CMD12 = 12"
definition CMD17 :: u8 where "CMD17 = 17"
definition CMD24 :: u8 where "CMD24 = 24"
definition ACMD41 :: u8 where "ACMD41 = 0x80 + 41"

definition SD_ERR_NOT_PRESENT :: u8 where "SD_ERR_NOT_PRESENT = 2"
definition SD_RETRIES :: nat where "SD_RETRIES = 1000"

lemmas card_type_defs = SD_CARD_NONE_def SD_CARD_MMC_def SD_CARD_SC_def SD_CARD_HC_def SD_CARD_XC_def
  SD_CARD_ERROR_def

lemmas cmd_defs = CMD0_def CMD8_def CMD9_def CMD12_def CMD17_def CMD24_def ACMD41_def

section \<open>The hardware\<close>

text \<open>The calls of the hardware library, in the order in which they are made.\<close>

datatype pin = SD_CS_PIN | SD_MOSI_PIN | SD_SCK_PIN | SD_MISO_PIN | SD_WP_PIN | SD_CP_PIN | SD_WP | SD_CP

datatype pin_mode = OUTPUT_PUSHPULL | OUTPUT_ALTFN_PUSHPULL | INPUT_FLOAT

datatype spi_setting = Unidirectional | Disable_crc | Dff_8bit | Full_duplex | Software_slave
  | Nss_high | Fpclk_div_4 | Master_mode | Polarity_0 | Phase_0 | Disable_ss_output | Enable

datatype bus_event = Enable_spi_clock | Enable_io_clock | Gpio_mode pin pin_mode | Spi_set spi_setting
  | Gpio_set pin | Gpio_clear pin | Xfer u16

record SDCard =
  card_type :: u16
  card_read_only :: u8
  card_size :: u32
  card_error :: u8

text \<open>\<open>defined\<close> are the pins for which \<open>config.h\<close> defines the macro of that name.\<close>

record sd_state =
  sd_card :: SDCard
  bus :: "bus_event list"
  reply :: "bus_event list \<Rightarrow> u16"
  level :: "bus_event list \<Rightarrow> pin \<Rightarrow> bool"
  defined :: "pin \<Rightarrow> bool"

definition sd_initial_card :: SDCard where
  "sd_initial_card = \<lparr>card_type = 0, card_read_only = 0, card_size = 0, card_error = 0\<rparr>"

definition upd_card :: "(SDCard \<Rightarrow> SDCard) \<Rightarrow> (sd_state, unit) cm" where
  "upd_card f = upd (sd_card_update f)"

definition hw :: "bus_event \<Rightarrow> (sd_state, unit) cm" where
  "hw e = upd (bus_update (\<lambda>b. b @ [e]))"

definition spi_xfer :: "u16 \<Rightarrow> (sd_state, u16) cm" where
  "spi_xfer x = seq (hw (Xfer x)) (gets (\<lambda>s. reply s (bus s)))"

definition spi_send :: "u16 list \<Rightarrow> (sd_state, unit) cm" where
  "spi_send xs = for_each xs (\<lambda>x. bnd (spi_xfer x) (\<lambda>_. ret ()))"

definition spi_skip :: "nat \<Rightarrow> (sd_state, unit) cm" where
  "spi_skip n = spi_send (replicate n 0xFF)"

text \<open>\<open>do c = spi_xfer(..); while(p(c))\<close>.\<close>

primrec poll_while :: "nat \<Rightarrow> (u16 \<Rightarrow> bool) \<Rightarrow> (sd_state, u16) cm" where
  "poll_while 0 p = fail Out_of_fuel"
| "poll_while (Suc n) p = bnd (spi_xfer 0xFF) (\<lambda>c. if p c then poll_while n p else ret c)"

section \<open>Commands\<close>

text \<open>The loop that waits for the response, \<open>n\<close> rounds left; \<open>c\<close> is the byte read last.\<close>

primrec response :: "nat \<Rightarrow> u16 \<Rightarrow> (sd_state, u16) cm" where
  "response 0 c = ret c"
| "response (Suc n) c = bnd (spi_xfer 0xFF) (\<lambda>c. if c \<noteq> 0xFF then ret c else response n c)"

definition sd_command :: "nat \<Rightarrow> u8 \<Rightarrow> u32 \<Rightarrow> u8 \<Rightarrow> (sd_state, u16) cm" where
  "sd_command fuel code data chksm =
     seq (if code AND 0x80 \<noteq> 0
          then seq (spi_send [0xFF, 0x40 + 55, 0, 0, 0, 0, 1]) (bnd (poll_while fuel (\<lambda>c. c = 0xFF)) (\<lambda>_. ret ()))
          else ret ())
     (seq (spi_send [0xFF, 0x40 + ucast (code AND 0x7F), ucast (drop_bit 24 data AND 0xFF),
                     ucast (drop_bit 16 data AND 0xFF), ucast (drop_bit 8 data AND 0xFF), ucast (data AND 0xFF),
                     ucast chksm])
     (seq (if code = CMD12 then spi_skip 1 else ret ())
     (response SD_RETRIES 0xFF)))"

section \<open>Reset\<close>

definition reset_fails :: "(sd_state, int) cm" where
  "reset_fails = seq (upd_card (card_type_update (\<lambda>_. SD_CARD_ERROR))) (ret (-1))"

text \<open>\<open>while(c == 1) c = sd_command(ACMD41, 1 << 30, 1)\<close>, entered with \<open>c = 1\<close>.\<close>

primrec until_ready :: "nat \<Rightarrow> nat \<Rightarrow> (sd_state, unit) cm" where
  "until_ready fuel 0 = fail Out_of_fuel"
| "until_ready fuel (Suc n) =
     bnd (sd_command fuel ACMD41 0x40000000 1) (\<lambda>c. if c = 1 then until_ready fuel n else ret ())"

definition size_add :: "u32 \<Rightarrow> (sd_state, unit) cm" where
  "size_add n = upd_card (card_size_update (\<lambda>k. k + n))"

definition check_read_only :: "u16 \<Rightarrow> (sd_state, unit) cm" where
  "check_read_only c = (if c AND 0x30 \<noteq> 0 then upd_card (card_read_only_update (\<lambda>_. 1)) else ret ())"

text \<open>The rest of the card specific data after its first byte, for the two structures it can have.\<close>

definition read_csd_hc :: "(sd_state, unit) cm" where
  "read_csd_hc =
     seq (upd_card (card_type_update (\<lambda>_. SD_CARD_HC)))
     (seq (spi_skip 6)
     (bnd (spi_xfer 0xFF) (\<lambda>c.
     seq (upd_card (card_size_update (\<lambda>_. push_bit 16 (ucast (c AND 0xF)))))
     (bnd (spi_xfer 0xFF) (\<lambda>c.
     seq (size_add (push_bit 8 (ucast c)))
     (bnd (spi_xfer 0xFF) (\<lambda>c.
     seq (size_add (ucast c))
     (seq (size_add 1)
     (seq (upd_card (card_size_update (push_bit 10)))
     (seq (spi_skip 4)
     (bnd (spi_xfer 0xFF) (\<lambda>c.
     seq (check_read_only c)
     (spi_skip 1)))))))))))))"

text \<open>\<open>1 << ((c & 0x7) + 2)\<close> and \<open>(c << 1) + (.. >> 7)\<close> are cut to the 16 bits of \<open>c\<close>; the last
  shift is by \<open>i - 9\<close>, which is undefined for a read block length below 9.\<close>

definition read_csd_sc :: "(sd_state, unit) cm" where
  "read_csd_sc =
     seq (upd_card (card_type_update (\<lambda>_. SD_CARD_SC)))
     (seq (spi_skip 4)
     (bnd (spi_xfer 0xFF) (\<lambda>c.
     let i = unat (c AND 0xF) in
     bnd (spi_xfer 0xFF) (\<lambda>c.
     seq (upd_card (card_size_update (\<lambda>_. push_bit 10 (ucast (c AND 0x03)))))
     (bnd (spi_xfer 0xFF) (\<lambda>c.
     seq (size_add (push_bit 2 (ucast c)))
     (bnd (spi_xfer 0xFF) (\<lambda>c.
     seq (size_add (ucast (drop_bit 6 (c AND 0xC0))))
     (bnd (spi_xfer 0xFF) (\<lambda>c.
     bnd (spi_xfer 0xFF) (\<lambda>d.
     let c = push_bit 1 c + drop_bit 7 d; c = push_bit (unat (c AND 0x7) + 2) 1 :: u16 in
     seq (size_add 1)
     (seq (upd_card (card_size_update (\<lambda>k. k * ucast c)))
     (seq (require Bad_shift (9 \<le> i))
     (seq (upd_card (card_size_update (push_bit (i - 9))))
     (seq (spi_skip 3)
     (bnd (spi_xfer 0xFF) (\<lambda>c.
     seq (check_read_only c)
     (spi_skip 1))))))))))))))))))"

text \<open>\<open>CMD8\<close>: a card that does not know it is a standard capacity card; one that does must echo the
  voltage and the check pattern. The result is false where the code sets \<open>SD_CARD_ERROR\<close>.\<close>

definition identify_card :: "nat \<Rightarrow> (sd_state, bool) cm" where
  "identify_card fuel =
     bnd (sd_command fuel CMD8 0x000001AA 0x87) (\<lambda>c.
     if c = 5 then seq (upd_card (card_type_update (\<lambda>_. SD_CARD_SC))) (ret True)
     else if c = 1 then
       bnd (spi_xfer 0xFF) (\<lambda>e0. if e0 \<noteq> 0 then ret False else
       bnd (spi_xfer 0xFF) (\<lambda>e1. if e1 \<noteq> 0 then ret False else
       bnd (spi_xfer 0xFF) (\<lambda>e2. if e2 \<noteq> 1 then ret False else
       bnd (spi_xfer 0xFF) (\<lambda>e3. if e3 \<noteq> 0xAA then ret False else
       seq (upd_card (card_type_update (\<lambda>_. SD_CARD_HC))) (ret True)))))
     else ret False)"

definition read_csd :: "nat \<Rightarrow> (sd_state, int) cm" where
  "read_csd fuel =
     bnd (sd_command fuel CMD9 0 1) (\<lambda>c.
     if c \<noteq> 0 then reset_fails else
     bnd (poll_while fuel (\<lambda>c. c = 0xFF)) (\<lambda>_.
     bnd (spi_xfer 0xFF) (\<lambda>c.
     seq (if c AND 0x40 \<noteq> 0 then read_csd_hc else read_csd_sc) (ret 0))))"

definition sd_card_reset :: "nat \<Rightarrow> (sd_state, int) cm" where
  "sd_card_reset fuel =
     bnd (gets (\<lambda>s. defined s SD_CP \<and> level s (bus s) SD_CP)) (\<lambda>absent.
     if absent then seq (upd_card (card_error_update (\<lambda>_. SD_ERR_NOT_PRESENT))) (ret (-1)) else
     seq (hw (Gpio_set SD_CS_PIN))
     (seq (spi_skip 20)
     (seq (hw (Gpio_clear SD_CS_PIN))
     (bnd (sd_command fuel CMD0 0 0x95) (\<lambda>c.
     if c = 0xFF then
       seq (upd_card (\<lambda>k. k\<lparr>card_type := SD_CARD_ERROR, card_error := SD_ERR_NOT_PRESENT\<rparr>)) (ret (-1))
     else
     bnd (identify_card fuel) (\<lambda>good.
     if \<not> good then reset_fails else
     seq (until_ready fuel fuel) (read_csd fuel)))))))"

section \<open>The block interface\<close>

definition sd_block_init :: "nat \<Rightarrow> (sd_state, int) cm" where
  "sd_block_init fuel =
     seq (for_each [Enable_spi_clock, Enable_io_clock, Gpio_mode SD_CS_PIN OUTPUT_PUSHPULL,
            Gpio_mode SD_MOSI_PIN OUTPUT_ALTFN_PUSHPULL, Gpio_mode SD_SCK_PIN OUTPUT_ALTFN_PUSHPULL,
            Gpio_mode SD_MISO_PIN INPUT_FLOAT] hw)
     (bnd (gets (\<lambda>s. filter (defined s) [SD_WP_PIN, SD_CP_PIN])) (\<lambda>pins.
     seq (for_each pins (\<lambda>p. hw (Gpio_mode p INPUT_FLOAT)))
     (seq (for_each [Unidirectional, Disable_crc, Dff_8bit, Full_duplex, Software_slave, Nss_high,
            Fpclk_div_4, Master_mode, Polarity_0, Phase_0, Disable_ss_output, Enable] (\<lambda>x. hw (Spi_set x)))
     (sd_card_reset fuel))))"

text \<open>A standard capacity card is addressed in bytes.\<close>

definition sd_address :: "u32 \<Rightarrow> (sd_state, u32) cm" where
  "sd_address block = gets (\<lambda>s. if card_type (sd_card s) = SD_CARD_SC then push_bit 9 block else block)"

primrec read_bytes :: "nat \<Rightarrow> (sd_state, u8 list) cm" where
  "read_bytes 0 = ret []"
| "read_bytes (Suc n) = bnd (spi_xfer 0xFF) (\<lambda>c. bnd (read_bytes n) (\<lambda>bs. ret (ucast c # bs)))"

definition sd_block_read :: "nat \<Rightarrow> u32 \<Rightarrow> u8 list \<Rightarrow> (sd_state, int \<times> u8 list) cm" where
  "sd_block_read fuel block buf =
     bnd (sd_address block) (\<lambda>addr.
     bnd (sd_command fuel CMD17 addr 1) (\<lambda>c.
     if c \<noteq> 0 then ret (uint c, buf) else
     bnd (poll_while fuel (\<lambda>c. c \<noteq> 0xFE)) (\<lambda>_.
     seq (require Overrun (512 \<le> length buf))
     (bnd (read_bytes 512) (\<lambda>bs.
     seq (spi_skip 2) (ret (0, patch 0 bs buf)))))))"

definition sd_block_write :: "nat \<Rightarrow> u32 \<Rightarrow> u8 list \<Rightarrow> (sd_state, int) cm" where
  "sd_block_write fuel block buf =
     bnd (sd_address block) (\<lambda>addr.
     bnd (sd_command fuel CMD24 addr 1) (\<lambda>c.
     if c \<noteq> 0 then ret (uint c) else
     seq (spi_skip 2)
     (seq (spi_send [0xFE])
     (seq (require Overrun (512 \<le> length buf))
     (seq (spi_send (map ucast (take 512 buf)))
     (seq (spi_skip 2)
     (bnd (spi_xfer 0xFF) (\<lambda>c.
     bnd (poll_while fuel (\<lambda>c. c \<noteq> 0xFF)) (\<lambda>_. ret 0)))))))))"

definition sd_block_get_volume_size :: "sd_state \<Rightarrow> u32" where
  "sd_block_get_volume_size s = card_size (sd_card s)"

definition sd_block_get_block_size :: int where
  "sd_block_get_block_size = int BLOCK_SIZE"

definition sd_block_get_device_read_only :: "sd_state \<Rightarrow> int" where
  "sd_block_get_device_read_only s =
     (if defined s SD_WP \<and> level s (bus s) SD_WP then 1
      else if card_read_only (sd_card s) \<noteq> 0 then 1 else 0)"

definition sd_block_sync :: "(sd_state, int) cm" where "sd_block_sync = ret 0"

definition sd_block_halt :: "(sd_state, int) cm" where "sd_block_halt = ret 0"

definition sd_block_get_error :: "sd_state \<Rightarrow> int" where
  "sd_block_get_error s = uint (card_error (sd_card s))"

end
