(* ===== verification/Sd_Bus.thy ===== *)
theory Sd_Bus
  imports Block_Sd
begin

text \<open>
  What the SD card driver sends and how it takes the answers: the frames of the commands, the
  bounded wait for a response, and the transfer of a block in both directions, for every behaviour
  of the card.
\<close>

unbundle bit_operations_syntax

section \<open>What goes over the bus\<close>

text \<open>The state after transfers were sent, after \<open>n\<close> polls with \<open>0xFF\<close>, and the byte the card
  returns for the poll after \<open>k\<close> others.\<close>

definition sent :: "u16 list \<Rightarrow> sd_state \<Rightarrow> sd_state" where
  "sent xs s = s\<lparr>bus := bus s @ map Xfer xs\<rparr>"

definition polled :: "nat \<Rightarrow> sd_state \<Rightarrow> sd_state" where
  "polled n s = s\<lparr>bus := bus s @ replicate n (Xfer 0xFF)\<rparr>"

definition incoming :: "sd_state \<Rightarrow> nat \<Rightarrow> u16" where
  "incoming s k = reply s (bus s @ replicate (Suc k) (Xfer 0xFF))"

lemma sent_polled [simp]:
  "sd_card (sent xs s) = sd_card s" "sd_card (polled n s) = sd_card s" "reply (sent xs s) = reply s"
  "polled m (polled n s) = polled (n + m) s" "polled 0 s = s" "sent [] s = s"
  "sent ys (sent xs s) = sent (xs @ ys) s" "sent (replicate n 0xFF) s = polled n s"
  by (simp_all add: sent_def polled_def replicate_add)

lemma incoming_polled [simp]: "incoming (polled n s) k = incoming s (n + k)"
proof -
  have "replicate n (Xfer 0xFF) @ replicate (Suc k) (Xfer 0xFF) = replicate (Suc (n + k)) (Xfer 0xFF)"
    by (simp only: replicate_add [symmetric] add_Suc_right)
  then show ?thesis
    by (simp add: incoming_def polled_def del: replicate.simps)
qed

lemma polled_card [simp]:
  "polled n (sd_card_update f s) = sd_card_update f (polled n s)"
  "incoming (sd_card_update f s) k = incoming s k"
  by (simp_all add: incoming_def polled_def)

lemma spi_xfer_run: "spi_xfer x s = Inr (reply s (bus s @ [Xfer x]), sent [x] s)"
  by (simp add: spi_xfer_def hw_def sent_def)

lemma spi_poll_run [simp]: "spi_xfer 0xFF s = Inr (incoming s 0, polled 1 s)"
  by (simp add: spi_xfer_run incoming_def sent_def polled_def)

lemma spi_send_run [simp]: "spi_send xs s = Inr ((), sent xs s)"
proof (induction xs arbitrary: s)
  case Nil
  then show ?case by (simp add: spi_send_def)
next
  case (Cons x xs)
  then show ?case by (simp add: spi_send_def seq_def bnd_def spi_xfer_run)
qed

lemma spi_skip_run [simp]: "spi_skip n s = Inr ((), polled n s)"
  by (simp add: spi_skip_def)

lemma seq_skip [simp]: "seq (spi_skip n) m s = m (polled n s)" "seq (spi_send xs) m s = m (sent xs s)"
  "bnd (spi_xfer 0xFF) k s = k (incoming s 0) (polled 1 s)"
  by (simp_all add: seq_Inr bnd_Inr)

lemma poll_while_run:
  assumes "\<forall>k<n. p (incoming s k)" "\<not> p (incoming s n)" "n < fuel"
  shows "poll_while fuel p s = Inr (incoming s n, polled (Suc n) s)"
  using assms
proof (induction fuel arbitrary: n s)
  case (Suc fuel)
  show ?case
  proof (cases n)
    case (Suc m)
    have "\<forall>k<m. p (incoming (polled 1 s) k)"
      using Suc.prems(1) Suc by auto
    then show ?thesis
      using Suc.IH [of m "polled 1 s"] Suc.prems Suc by auto
  qed (use Suc.prems in simp)
qed simp

lemma poll_while_forever: "\<forall>k. p (incoming s k) \<Longrightarrow> poll_while fuel p s = Inl Out_of_fuel"
  by (induction fuel arbitrary: s) simp_all

lemma response_run:
  assumes "\<forall>k<n. incoming s k = 0xFF" "incoming s n \<noteq> 0xFF" "n < fuel"
  shows "response fuel c s = Inr (incoming s n, polled (Suc n) s)"
  using assms
proof (induction fuel arbitrary: n s c)
  case (Suc fuel)
  show ?case
  proof (cases n)
    case (Suc m)
    have "\<forall>k<m. incoming (polled 1 s) k = 0xFF"
      using Suc.prems(1) Suc by auto
    then show ?thesis
      using Suc.IH [of m "polled 1 s"] Suc.prems Suc by auto
  qed (use Suc.prems in simp)
qed simp


lemma read_bytes_run: "read_bytes n s = Inr (map (\<lambda>k. ucast (incoming s k)) [0..<n], polled n s)"
proof (induction n arbitrary: s)
  case (Suc n)
  have "[0..<Suc n] = 0 # map Suc [0..<n]"
    by (simp add: upt_conv_Cons map_Suc_upt del: upt_Suc)
  then show ?case
    using Suc [of "polled 1 s"] by (simp add: bnd_Inr del: upt_Suc)
qed simp

section \<open>Commands\<close>

text \<open>The bytes of a command.\<close>

definition frame_of :: "u8 \<Rightarrow> u32 \<Rightarrow> u8 \<Rightarrow> u16 list" where
  "frame_of code data chksm = [0xFF, 0x40 + ucast (code AND 0x7F)] @ rev (map ucast (le4 data)) @ [ucast chksm]
     @ (if code = CMD12 then [0xFF] else [])"

lemma ucast_mask8: "(ucast (w AND 0xFF :: u32) :: u16) = ucast (ucast w :: u8)"
proof -
  have "w AND 0xFF = take_bit 8 w"
    by (simp add: take_bit_eq_mask mask_eq_exp_minus_1)
  then show ?thesis
    by (simp only:) (intro bit_word_eqI, auto simp: bit_simps)
qed

lemma sd_command_simple:
  assumes "code AND 0x80 = 0"
  shows "sd_command fuel code data chksm s = response SD_RETRIES 0xFF (sent (frame_of code data chksm) s)"
proof -
  have "polled 1 (sent xs s) = sent (xs @ [0xFF]) s" for xs
    by (simp add: sent_def polled_def)
  then show ?thesis
    using assms by (simp add: sd_command_def frame_of_def le4_def ucast_mask8)
qed


lemma ordinary_commands [simp]:
  "CMD0 AND 0x80 = 0" "CMD8 AND 0x80 = 0" "CMD9 AND 0x80 = 0" "CMD12 AND 0x80 = 0" "CMD17 AND 0x80 = 0"
  "CMD24 AND 0x80 = 0"
  by (simp_all add: cmd_defs)

section \<open>Blocks\<close>

lemma byte_of_wide [simp]: "ucast (ucast (b :: u8) :: u16) = b"
  by (intro bit_word_eqI) (simp add: bit_simps)

definition block_address :: "sd_state \<Rightarrow> u32 \<Rightarrow> u32" where
  "block_address s block = (if card_type (sd_card s) = SD_CARD_SC then push_bit 9 block else block)"

lemma sd_address_run [simp]: "bnd (sd_address b) k s = k (block_address s b) s"
  by (simp add: sd_address_def block_address_def)

text \<open>The card takes a command with response 0 after \<open>a\<close> idle bytes.\<close>

definition accepts :: "sd_state \<Rightarrow> nat \<Rightarrow> bool" where
  "accepts s a \<longleftrightarrow> a < SD_RETRIES \<and> (\<forall>k<a. incoming s k = 0xFF) \<and> incoming s a = 0"

lemma sd_command_accepted:
  assumes "code AND 0x80 = 0" "accepts (sent (frame_of code data chksm) s) a"
  shows "sd_command fuel code data chksm s = Inr (0, polled (Suc a) (sent (frame_of code data chksm) s))"
  using assms response_run [of a "sent (frame_of code data chksm) s" SD_RETRIES]
  by (simp add: sd_command_simple accepts_def)

section \<open>A card for the witnesses\<close>

text \<open>It answers by the number of \<open>0xFF\<close> bytes it was sent last: response, start token, one byte of
  data (or the data response that rejects a written block), then idle.\<close>

definition trailing :: "bus_event list \<Rightarrow> nat" where
  "trailing b = length (takeWhile (\<lambda>e. e = Xfer 0xFF) (rev b))"

definition demo_sd :: sd_state where
  "demo_sd = \<lparr>sd_card = sd_initial_card\<lparr>card_type := SD_CARD_SC\<rparr>, bus = [],
     reply = (\<lambda>b. [0xFF, 0, 0xFE, 0x0D, 0xFF] ! min 4 (trailing b)), level = (\<lambda>_ _. False), defined = (\<lambda>_. False)\<rparr>"

lemma trailing_polls:
  assumes "x \<noteq> 0xFF"
  shows "trailing (b @ Xfer x # replicate n (Xfer 0xFF)) = n"
  using assms by (simp add: trailing_def takeWhile_append)

lemma demo_incoming:
  assumes "reply s = reply demo_sd" "x \<noteq> 0xFF"
  shows "incoming (sent (ys @ [x]) s) k = [0, 0xFE, 0x0D, 0xFF] ! min 3 k"
proof -
  have "trailing ((bus s @ map Xfer ys) @ Xfer x # replicate (Suc k) (Xfer 0xFF)) = Suc k"
    by (rule trailing_polls) (rule assms)
  then show ?thesis
    by (simp add: incoming_def sent_def assms(1)) (simp add: demo_sd_def)
qed

section \<open>The properties\<close>



text \<open>C35: \<open>block_read\<close> addresses a standard capacity card in bytes and any other in blocks; when the card
  accepts the command and sends, after any delay, the start token and 512 bytes, these bytes are the
  caller's and the two checksum bytes behind them are read and dropped.\<close>

theorem sd_block_read_returns_the_data:
  assumes t: "t = sent (frame_of CMD17 (block_address s b) 1) s" and acc: "accepts t a"
    and start: "\<forall>k<w. incoming t (a + 1 + k) \<noteq> 0xFE" "incoming t (a + 1 + w) = 0xFE" "w < fuel"
    and data: "length bs = 512" "\<forall>k<512. incoming t (a + w + 2 + k) = ucast (bs ! k)" and buf: "length buf = 512"
  shows "sd_block_read fuel b buf s = Inr ((0, bs), polled (a + w + 516) t)"
proof -
  have c: "sd_command fuel CMD17 (block_address s b) 1 s = Inr (0, polled (Suc a) t)"
    using sd_command_accepted [of CMD17 "block_address s b" 1 s a fuel] acc t by simp
  have p: "poll_while fuel (\<lambda>c. c \<noteq> 0xFE) (polled (Suc a) t) = Inr (0xFE, polled (a + w + 2) t)"
    using poll_while_run [of w "\<lambda>c. c \<noteq> 0xFE" "polled (Suc a) t" fuel] start by simp
  have "map (\<lambda>k. ucast (incoming (polled (a + w + 2) t) k)) [0..<512] = bs"
    using data by (intro nth_equalityI) simp_all
  then have "read_bytes 512 (polled (a + w + 2) t) = Inr (bs, polled (a + w + 514) t)"
    using read_bytes_run [of 512 "polled (a + w + 2) t"] by (simp add: add.commute)
  then show ?thesis
    using data(1) buf by (simp add: sd_block_read_def bnd_Inr c p patch_def add.commute [of 516])
qed

lemma demo_sd_type [simp]: "card_type (sd_card demo_sd) = SD_CARD_SC"
  by (simp add: demo_sd_def)

lemma demo_read_frame: "frame_of CMD17 (block_address demo_sd 3) 1 = [0xFF, 0x51, 0, 0, 6, 0] @ [1]"
  "frame_of CMD24 (block_address demo_sd 3) 1 = [0xFF, 0x58, 0, 0, 6, 0] @ [1]"
  by (simp_all add: frame_of_def cmd_defs le4_def block_address_def)

lemma demo_accepts:
  "incoming (sent (frame_of CMD17 (block_address demo_sd 3) 1) demo_sd) k = [0, 0xFE, 0x0D, 0xFF] ! min 3 k"
  "incoming (sent (frame_of CMD24 (block_address demo_sd 3) 1) demo_sd) k = [0, 0xFE, 0x0D, 0xFF] ! min 3 k"
  unfolding demo_read_frame by (rule demo_incoming; simp)+

lemma sd_block_read_returns_the_data_witness:
  "\<exists>t. sd_block_read 1 3 (replicate 512 0) demo_sd = Inr ((0, 0x0D # replicate 511 0xFF), t)"
proof -
  have "(0x0D # replicate 511 0xFF) ! k = (if k = 0 then 0x0D else 0xFF :: u8)" if "k < 512" for k
    using that by (cases k) simp_all
  then show ?thesis
    using sd_block_read_returns_the_data [OF refl, of demo_sd 3 0 0 1 "0x0D # replicate 511 0xFF" "replicate 512 0"]
    by (auto simp: accepts_def SD_RETRIES_def demo_accepts min_def numeral_3_eq_3)
qed

text \<open>C36: \<open>block_write\<close> sends two idle bytes, the start token, the 512 bytes and a dummy checksum, reads
  the card's data response, and waits until the card is no longer busy. The result is 0 whatever the
  data response is: a block the card rejects is reported as written.\<close>

theorem sd_block_write_ignores_the_response:
  assumes t: "t = sent (frame_of CMD24 (block_address s b) 1) s" and acc: "accepts t a"
    and u: "u = sent ([0xFF, 0xFF, 0xFE] @ map ucast buf @ [0xFF, 0xFF]) (polled (Suc a) t)" "length buf = 512"
    and busy: "\<forall>k<w. incoming u (Suc k) \<noteq> 0xFF" "incoming u (Suc w) = 0xFF" "w < fuel"
  shows "sd_block_write fuel b buf s = Inr (0, polled (w + 2) u)"
proof -
  have c: "sd_command fuel CMD24 (block_address s b) 1 s = Inr (0, polled (Suc a) t)"
    using sd_command_accepted [of CMD24 "block_address s b" 1 s a fuel] acc t by simp
  have "polled 2 (sent (map ucast buf) (sent [0xFE] (polled 2 (polled (Suc a) t)))) = u"
    by (simp add: u sent_def polled_def numeral_2_eq_2)
  moreover have "poll_while fuel (\<lambda>c. c \<noteq> 0xFF) (polled 1 u) = Inr (0xFF, polled (w + 2) u)"
    using poll_while_run [of w "\<lambda>c. c \<noteq> 0xFF" "polled 1 u" fuel] busy by simp
  ultimately show ?thesis
    using u(2) by (simp add: sd_block_write_def bnd_Inr c del: sent_polled(4))
qed

lemma sd_block_write_ignores_the_response_witness:
  "\<exists>u. sd_block_write 1 3 (replicate 512 5) demo_sd = Inr (0, polled 2 u) \<and> incoming u 0 = 0x0D"
proof -
  let ?t = "sent (frame_of CMD24 (block_address demo_sd 3) 1) demo_sd"
  let ?u = "sent ([0xFF, 0xFF, 0xFE] @ map ucast (replicate 512 (5 :: u8)) @ [0xFF, 0xFF]) (polled (Suc 0) ?t)"
  have r: "map ucast (replicate 512 (5 :: u8)) = replicate 511 5 @ [5 :: u16]"
    using replicate_add [of 511 1 "5 :: u16"] by simp
  have "sent (xs @ ys @ [0xFF, 0xFF]) s = polled 2 (sent ys (sent xs s))" for xs ys s
    by (simp add: sent_def polled_def numeral_2_eq_2)
  then have inc: "incoming ?u k = [0, 0xFE, 0x0D, 0xFF] ! min 3 (2 + k)" for k
    unfolding r using demo_incoming [of "sent [0xFF, 0xFF, 0xFE] (polled (Suc 0) ?t)" 5 "replicate 511 5" "2 + k"]
    by (simp only: incoming_polled) (simp add: sent_def polled_def)
  have acc: "accepts ?t 0"
    by (simp add: accepts_def SD_RETRIES_def demo_accepts)
  have idle: "incoming ?u (Suc 0) = 0xFF" "incoming ?u 0 = 0x0D"
    using inc [of "Suc 0"] inc [of 0] by simp_all
  have "sd_block_write 1 3 (replicate 512 5) demo_sd = Inr (0, polled (0 + 2) ?u)"
    using idle(1) by (intro sd_block_write_ignores_the_response [OF refl acc refl]) simp_all
  then show ?thesis
    using idle(2) by (intro exI [of _ ?u] conjI) (simp only: add_0)
qed

text \<open>C37: a card that accepts a read command but answers it with an error token instead of the start token
  keeps \<open>block_read\<close> polling: no number of rounds is enough.\<close>

theorem sd_block_read_waits_forever:
  assumes t: "t = sent (frame_of CMD17 (block_address s b) 1) s" and acc: "accepts t a"
    and never: "\<forall>k>a. incoming t k \<noteq> 0xFE"
  shows "sd_block_read fuel b buf s = Inl Out_of_fuel"
proof -
  have "poll_while fuel (\<lambda>c. c \<noteq> 0xFE) (polled (Suc a) t) = Inl Out_of_fuel"
    using never by (intro poll_while_forever) simp
  then show ?thesis
    using sd_command_accepted [of CMD17 "block_address s b" 1 s a fuel] acc t
    by (simp add: sd_block_read_def bnd_Inr bnd_Inl)
qed

lemma sd_block_read_waits_forever_witness:
  "sd_block_read 1000000 0 [] (demo_sd\<lparr>reply := (\<lambda>b. if trailing b = 1 then 0 else 0x08)\<rparr>) = Inl Out_of_fuel"
proof -
  let ?s = "demo_sd\<lparr>reply := (\<lambda>b. if trailing b = 1 then 0 else 0x08)\<rparr>"
  let ?f = "frame_of CMD17 (block_address ?s 0) 1"
  have "?f = [0xFF, 0x51, 0, 0, 0, 0] @ [1]"
    by (simp add: frame_of_def cmd_defs le4_def block_address_def)
  then have "incoming (sent ?f ?s) k = (if k = 0 then 0 else 0x08)" for k
    using trailing_polls [of 1 "map Xfer [0xFF, 0x51, 0, 0, 0, 0]" "Suc k"] by (simp add: incoming_def sent_def demo_sd_def)
  then show ?thesis
    using sd_block_read_waits_forever [OF refl, of ?s 0 0 1000000 "[]"] by (simp add: accepts_def SD_RETRIES_def)
qed

end
