(* ===== verification/Sd_Csd.thy ===== *)
theory Sd_Csd
  imports Sd_Bus
begin

text \<open>
  The card specific data register: the size the driver computes from its bytes against the fields of
  the 128-bit register.
\<close>

unbundle bit_operations_syntax

section \<open>The card specific data\<close>

text \<open>The reference: the register is a 128-bit number, sent from its highest byte down.\<close>

definition csd_number :: "u8 list \<Rightarrow> nat" where
  "csd_number bs = foldl (\<lambda>n b. 256 * n + unat b) 0 bs"

definition csd_field :: "u8 list \<Rightarrow> nat \<Rightarrow> nat \<Rightarrow> nat" where
  "csd_field bs hi lo = csd_number bs div 2 ^ lo mod 2 ^ (hi - lo + 1)"

lemma csd_number_append1: "csd_number (bs @ [b]) = 256 * csd_number bs + unat b"
  by (simp add: csd_number_def)

lemma csd_number_prefix: "csd_number (bs @ cs) div 256 ^ length cs = csd_number bs"
proof (induction cs rule: rev_induct)
  case (snoc c cs)
  have "csd_number (bs @ cs @ [c]) div 256 = csd_number (bs @ cs)"
    using unat_byte [of c] csd_number_append1 [of "bs @ cs" c] by simp
  then show ?case
    using snoc by (simp add: div_mult2_eq)
qed simp

lemma csd_number_bytes:
  "256 ^ k = m \<Longrightarrow> length cs = k \<Longrightarrow> csd_number (bs @ cs) div (m * d) = csd_number bs div d"
  using csd_number_prefix [of bs cs] by (simp add: div_mult2_eq)

lemma sixteen_bytes:
  assumes "length (bs :: u8 list) = 16"
  shows "bs = [bs ! 0, bs ! 1, bs ! 2, bs ! 3, bs ! 4, bs ! 5, bs ! 6, bs ! 7, bs ! 8, bs ! 9, bs ! 10,
    bs ! 11, bs ! 12, bs ! 13, bs ! 14, bs ! 15]"
  using assms by (intro nth_equalityI) (auto simp: less_Suc_eq numeral_eq_Suc)

text \<open>The fields the driver uses, by bytes.\<close>

lemma take_csd:
  assumes "length bs = 16" "k \<le> 16"
  shows "csd_number bs div (256 ^ (16 - k) * d) = csd_number (take k bs) div d"
  using csd_number_bytes [of "16 - k" "256 ^ (16 - k)" "drop k bs" "take k bs" d] assms by simp

lemma csd_number_take_Suc: "k < length bs \<Longrightarrow> csd_number (take (Suc k) bs) = 256 * csd_number (take k bs) + unat (bs ! k)"
  by (simp add: take_Suc_conv_app_nth csd_number_append1)

lemma digits_of:
  assumes "x < (256 :: nat)" "0 < m"
  obtains q r where "x = m * q + r" "r < m" "x div m = q" "x mod m = r" "m * q < 256"
proof -
  have "x = m * (x div m) + x mod m" "x mod m < m"
    using assms(2) by simp_all
  then show ?thesis
    using that assms(1) by (metis le_add1 order_le_less_trans)
qed

lemma field_of_sum:
  assumes "n = (a * (m * q + r) + c :: nat)" "c < a" "r < m"
  shows "n div a mod m = r"
  using assms by simp

lemma csd_fields:
  assumes bs: "length bs = 16"
  shows "csd_field bs 83 80 = unat (bs ! 5) mod 16"
    "csd_field bs 73 62 = 1024 * (unat (bs ! 6) mod 4) + 4 * unat (bs ! 7) + unat (bs ! 8) div 64"
    "csd_field bs 49 47 = 2 * (unat (bs ! 9) mod 4) + unat (bs ! 10) div 128"
    "csd_field bs 69 48 = 65536 * (unat (bs ! 7) mod 64) + 256 * unat (bs ! 8) + unat (bs ! 9)"
proof -
  let ?n = "\<lambda>k. csd_number (take k bs)" and ?b = "\<lambda>k. unat (bs ! k)"
  note s = csd_number_take_Suc [of _ bs]
  have lt: "?b k < 256" for k
    by (rule unat_byte)
  have "csd_field bs 83 80 = ?n 6 mod 16"
    using take_csd [of bs 6 1] bs by (simp add: csd_field_def)
  also have "?n 6 = 256 * ?n 5 + ?b 5"
    using s [of 5] bs by simp
  finally have n: "csd_field bs 83 80 = (256 * ?n 5 + ?b 5) div 1 mod 16"
    by simp
  obtain p q where p: "?b 5 = 16 * p + q" "q < 16" "?b 5 mod 16 = q"
    by (rule digits_of [OF lt [of 5], of 16]) (simp, rule that)
  show "csd_field bs 83 80 = ?b 5 mod 16"
    unfolding n p(3) by (rule field_of_sum [of _ 1 _ "16 * ?n 5 + p" _ 0]) (simp_all add: p(1,2))
  have "csd_field bs 73 62 = ?n 9 div 64 mod 4096"
    using take_csd [of bs 9 64] bs by (simp add: csd_field_def)
  also have "?n 9 = 16777216 * ?n 6 + (65536 * ?b 6 + 256 * ?b 7 + ?b 8)"
    using s [of 6] s [of 7] s [of 8] bs by simp
  finally have n: "csd_field bs 73 62 = (16777216 * ?n 6 + (65536 * ?b 6 + 256 * ?b 7 + ?b 8)) div 64 mod 4096" .
  obtain p q where p: "?b 6 = 4 * p + q" "q < 4" "?b 6 mod 4 = q"
    by (rule digits_of [OF lt [of 6], of 4]) (simp, rule that)
  obtain u v where u: "?b 8 = 64 * u + v" "v < 64" "?b 8 div 64 = u" "64 * u < 256"
    by (rule digits_of [OF lt [of 8], of 64]) (simp, rule that)
  show "csd_field bs 73 62 = 1024 * (?b 6 mod 4) + 4 * ?b 7 + ?b 8 div 64"
    unfolding n p(3) u(3)
    by (rule field_of_sum [of _ 64 _ "64 * ?n 6 + p" _ v]) (simp_all only: p(1) u(1), insert p(2) u(2,4) lt [of 7], simp_all)
  have "csd_field bs 49 47 = ?n 11 div 128 mod 8"
    using take_csd [of bs 11 128] bs by (simp add: csd_field_def)
  also have "?n 11 = 65536 * ?n 9 + (256 * ?b 9 + ?b 10)"
    using s [of 9] s [of 10] bs by simp
  finally have n: "csd_field bs 49 47 = (65536 * ?n 9 + (256 * ?b 9 + ?b 10)) div 128 mod 8" .
  obtain p q where p: "?b 9 = 4 * p + q" "q < 4" "?b 9 mod 4 = q"
    by (rule digits_of [OF lt [of 9], of 4]) (simp, rule that)
  obtain u v where u: "?b 10 = 128 * u + v" "v < 128" "?b 10 div 128 = u" "128 * u < 256"
    by (rule digits_of [OF lt [of 10], of 128]) (simp, rule that)
  show "csd_field bs 49 47 = 2 * (?b 9 mod 4) + ?b 10 div 128"
    unfolding n p(3) u(3)
    by (rule field_of_sum [of _ 128 _ "64 * ?n 9 + p" _ v]) (simp_all only: p(1) u(1), insert p(2) u(2,4), simp_all)
  have "csd_field bs 69 48 = ?n 10 mod 4194304"
    using take_csd [of bs 10 1] bs by (simp add: csd_field_def)
  also have "?n 10 = 16777216 * ?n 7 + (65536 * ?b 7 + 256 * ?b 8 + ?b 9)"
    using s [of 7] s [of 8] s [of 9] bs by simp
  finally have n: "csd_field bs 69 48 = (16777216 * ?n 7 + (65536 * ?b 7 + 256 * ?b 8 + ?b 9)) div 1 mod 4194304"
    by simp
  obtain p q where p: "?b 7 = 64 * p + q" "q < 64" "?b 7 mod 64 = q"
    by (rule digits_of [OF lt [of 7], of 64]) (simp, rule that)
  show "csd_field bs 69 48 = 65536 * (?b 7 mod 64) + 256 * ?b 8 + ?b 9"
    unfolding n p(3)
    by (rule field_of_sum [of _ 1 _ "4 * ?n 7 + p" _ 0]) (simp_all only: p(1), insert p(2) lt [of 8] lt [of 9], simp_all)
qed


definition with_card :: "SDCard \<Rightarrow> sd_state \<Rightarrow> sd_state" where
  "with_card c s = s\<lparr>sd_card := c\<rparr>"

lemma with_card_simps [simp]:
  "sd_card (with_card c s) = c" "incoming (with_card c s) = incoming s" "polled n (with_card c s) = with_card c (polled n s)"
  "with_card d (with_card c s) = with_card d s" "bus (with_card c s) = bus s"
  by (simp_all add: with_card_def incoming_def polled_def fun_eq_iff)

lemma upd_card_run [simp]:
  "upd_card f s = Inr ((), with_card (f (sd_card s)) s)"
  "seq (upd_card f) m s = m (with_card (f (sd_card s)) s)"
  by (cases s, simp add: upd_card_def with_card_def)+

lemma check_read_only_run [simp]:
  "seq (check_read_only c) m s
   = m (with_card ((sd_card s)\<lparr>card_read_only := if c AND 0x30 \<noteq> 0 then 1 else card_read_only (sd_card s)\<rparr>) s)"
  by (simp add: check_read_only_def with_card_def)

lemma read_csd_hc_run:
  "read_csd_hc s = Inr ((), with_card ((sd_card s)\<lparr>card_type := SD_CARD_HC,
     card_read_only := (if incoming s 13 AND 0x30 \<noteq> 0 then 1 else card_read_only (sd_card s)),
     card_size := push_bit 10 (push_bit 16 (ucast (incoming s 6 AND 0xF)) + push_bit 8 (ucast (incoming s 7))
       + ucast (incoming s 8) + 1)\<rparr>) (polled 15 s))"
  by (cases "sd_card s") (simp add: read_csd_hc_def size_add_def)

lemma read_csd_sc_run:
  assumes "9 \<le> unat (incoming s 4 AND 0xF)"
  shows "read_csd_sc s = Inr ((), with_card ((sd_card s)\<lparr>card_type := SD_CARD_SC,
     card_read_only := (if incoming s 13 AND 0x30 \<noteq> 0 then 1 else card_read_only (sd_card s)),
     card_size := push_bit (unat (incoming s 4 AND 0xF) - 9)
       ((push_bit 10 (ucast (incoming s 5 AND 0x03)) + push_bit 2 (ucast (incoming s 6))
         + ucast (drop_bit 6 (incoming s 7 AND 0xC0)) + 1)
        * ucast (push_bit (unat (push_bit 1 (incoming s 8) + drop_bit 7 (incoming s 9) AND 0x7) + 2) 1 :: u16))\<rparr>)
     (polled 15 s))"
  using assms by (cases "sd_card s") (simp add: read_csd_sc_def size_add_def Let_def)

lemma read_csd_sc_fault: "unat (incoming s 4 AND 0xF) < 9 \<Longrightarrow> read_csd_sc s = Inl Bad_shift"
  by (simp add: read_csd_sc_def size_add_def Let_def)


lemma unat_ucast_byte [simp]: "unat (ucast (b :: u8) :: u16) = unat b"
  by (simp only: unsigned_ucast_eq) (simp add: take_bit_nat_eq_self less_le_trans [OF unsigned_less])

lemma unat_low [simp]: "unat ((x :: u16) AND 0xF) = unat x mod 16" "unat (x AND 3) = unat x mod 4"
  "unat (x AND 7) = unat x mod 8"
proof -
  have m: "x AND 0xF = take_bit 4 x" "x AND 3 = take_bit 2 x" "x AND 7 = take_bit 3 x"
    by (simp_all add: take_bit_eq_mask mask_eq_exp_minus_1)
  show "unat (x AND 0xF) = unat x mod 16" "unat (x AND 3) = unat x mod 4" "unat (x AND 7) = unat x mod 8"
    by (simp_all only: m unsigned_take_bit_eq take_bit_eq_mod) (simp_all add: unat_mod)
qed

lemma high_bits: "unat (drop_bit 6 ((ucast (b :: u8) :: u16) AND 0xC0)) = unat b div 64"
proof -
  have "(mask 2 :: u16) = 3"
    by (simp add: mask_eq_exp_minus_1)
  then have c: "(0xC0 :: u16) = push_bit 6 (mask 2)"
    by simp
  have "drop_bit 6 ((ucast b :: u16) AND 0xC0) = drop_bit 6 (ucast b)"
    unfolding c by (intro bit_word_eqI) (auto simp: bit_simps dest: bit_imp_le_length)
  then show ?thesis
    by (simp only: unat_drop_bit_eq) (simp add: drop_bit_eq_div)
qed


text \<open>The card answers the polls from \<open>s\<close> on with the rest of the register.\<close>

definition csd_follows :: "sd_state \<Rightarrow> u8 list \<Rightarrow> bool" where
  "csd_follows s bs \<longleftrightarrow> length bs = 16 \<and> (\<forall>k<15. incoming s k = ucast (bs ! Suc k))"

lemma csd_followsD: "csd_follows s bs \<Longrightarrow> k < 15 \<Longrightarrow> incoming s k = ucast (bs ! Suc k)"
  by (simp add: csd_follows_def)

lemma size_word_hc:
  assumes "x = ucast (a :: u8)" "y = ucast (b :: u8)" "z = ucast (c :: u8)"
  shows "unat (push_bit 10 (push_bit 16 (ucast ((x :: u16) AND 0xF)) + push_bit 8 (ucast (y :: u16))
      + ucast (z :: u16) + 1) :: u32) = (65536 * (unat a mod 16) + 256 * unat b + unat c + 1) * 1024"
proof -
  let ?p = "push_bit 16 (ucast (x AND 0xF)) :: u32" and ?q = "push_bit 8 (ucast y) :: u32"
  let ?r = "ucast z :: u32"
  have lt: "unat a mod 16 < 16" "unat b < 256" "unat c < 256"
    by (simp_all add: unat_byte)
  have p: "unat ?p = 65536 * (unat a mod 16)"
    using lt by (subst unat_shift32) (simp_all add: assms unat_ucast16)
  have q: "unat ?q = 256 * unat b"
    using lt by (subst unat_shift32) (simp_all add: assms unat_ucast16)
  have r: "unat ?r = unat c"
    by (simp add: assms unat_ucast16)
  have "unat (?p + ?q) = unat ?p + unat ?q"
    using p q lt by (intro unat_add32) simp
  then have "unat (?p + ?q + ?r) = unat ?p + unat ?q + unat ?r"
    using p q r lt by (subst unat_add32) simp_all
  then have u: "unat (?p + ?q + ?r + 1) = 65536 * (unat a mod 16) + 256 * unat b + unat c + 1"
    using p q r lt by (subst unat_add32) simp_all
  show ?thesis
    using lt by (subst unat_shift32) (simp_all only: u, simp_all)
qed

lemma size_word_sc:
  assumes "x = ucast (a :: u8)" "y = ucast (b :: u8)" "z = ucast (c :: u8)" and "m \<le> 9" "i \<le> 6"
  shows "unat (push_bit i ((push_bit 10 (ucast ((x :: u16) AND 3)) + push_bit 2 (ucast (y :: u16))
      + ucast (drop_bit 6 ((z :: u16) AND 0xC0)) + 1) * ucast (push_bit m 1 :: u16)) :: u32)
    = (1024 * (unat a mod 4) + 4 * unat b + unat c div 64 + 1) * 2 ^ m * 2 ^ i"
proof -
  let ?p = "push_bit 10 (ucast (x AND 3)) :: u32" and ?q = "push_bit 2 (ucast y) :: u32"
  let ?r = "ucast (drop_bit 6 (z AND 0xC0)) :: u32"
  have lt: "unat a mod 4 < 4" "unat b < 256" "unat c div 64 < 4"
    using unat_byte [of c] by (simp_all add: unat_byte less_mult_imp_div_less)
  have p: "unat ?p = 1024 * (unat a mod 4)"
    using lt by (subst unat_shift32) (simp_all add: assms unat_ucast16)
  have q: "unat ?q = 4 * unat b"
    using lt by (subst unat_shift32) (simp_all add: assms unat_ucast16)
  have r: "unat ?r = unat c div 64"
    by (simp only: assms unat_ucast16 high_bits)
  have "unat (?p + ?q) = unat ?p + unat ?q"
    using p q lt by (intro unat_add32) simp
  then have "unat (?p + ?q + ?r) = unat ?p + unat ?q + unat ?r"
    using p q r lt by (subst unat_add32) simp_all
  then have u: "unat (?p + ?q + ?r + 1) = 1024 * (unat a mod 4) + 4 * unat b + unat c div 64 + 1" (is "_ = ?n")
    using p q r lt by (subst unat_add32) simp_all
  have n: "?n \<le> 4096"
    using lt by simp
  have "(2 :: nat) ^ m \<le> 2 ^ 9" "(2 :: nat) ^ i \<le> 2 ^ 6"
    using assms(4,5) by (intro power_increasing; simp)+
  then have le: "?n * 2 ^ m \<le> 4096 * 2 ^ 9" "?n * 2 ^ m * 2 ^ i \<le> 4096 * 2 ^ 9 * 2 ^ 6"
    using n by (intro mult_le_mono; simp)+
  have "unat (push_bit m 1 :: u16) = 2 ^ m"
    using assms(4) by (simp only: unsigned_push_bit_eq) (simp add: push_bit_eq_mult take_bit_nat_eq_self less_le_trans [OF power_strict_increasing [of m 10]])
  then have "unat ((?p + ?q + ?r + 1) * ucast (push_bit m 1 :: u16)) = ?n * 2 ^ m"
    using le(1) by (simp only: unat_word_ariths(2) u unat_ucast16) simp
  with le(2) show ?thesis
    by (subst unat_shift32) (simp_all only:, simp_all)
qed


lemma mult_word:
  assumes "c = ucast (a :: u8)" "d = ucast (b :: u8)"
  shows "unat (push_bit 1 (c :: u16) + drop_bit 7 (d :: u16) AND 0x7) = 2 * (unat a mod 4) + unat b div 128"
proof -
  have lt: "unat a < 256" "unat b < 256"
    by (simp_all add: unat_byte)
  have "unat (push_bit 1 c) = 2 * unat a"
    using lt by (simp only: unsigned_push_bit_eq assms unat_ucast_byte) (simp add: push_bit_eq_mult take_bit_nat_eq_self)
  moreover have "unat (drop_bit 7 d) = unat b div 128"
    by (simp only: unat_drop_bit_eq assms unat_ucast_byte) (simp add: drop_bit_eq_div)
  ultimately have u: "unat (push_bit 1 c + drop_bit 7 d) = 2 * unat a + unat b div 128"
    using lt by (simp only: unat_word_ariths(1)) simp
  obtain p q where p: "unat a = 4 * p + q" "q < 4" "unat a mod 4 = q"
    by (rule digits_of [OF lt(1), of 4]) (simp, rule that)
  have "unat b div 128 < 2"
    using lt by (simp add: less_mult_imp_div_less)
  then have "(2 * unat a + unat b div 128) div 1 mod 8 = 2 * (unat a mod 4) + unat b div 128"
    unfolding p(3) using p(2) by (intro field_of_sum [of _ 1 _ p _ 0]) (simp_all add: p(1))
  then show ?thesis
    by (simp only: unat_low u div_by_1)
qed

section \<open>Which outcomes a reset has\<close>
















section \<open>The properties\<close>

text \<open>C38: for a register of structure version 2 whose size field has at most 20 bits, the driver's size is
  the one the register states, \<open>C_SIZE + 1\<close> units of 1024 blocks, and the card is a high capacity
  card.\<close>

theorem csd_structure_2:
  assumes "csd_follows s bs" "csd_field bs 69 48 < 2 ^ 20"
  shows "\<exists>t. read_csd_hc s = Inr ((), t) \<and> card_type (sd_card t) = SD_CARD_HC
     \<and> unat (card_size (sd_card t)) = (csd_field bs 69 48 + 1) * 1024"
proof -
  have len: "length bs = 16"
    using assms(1) by (simp add: csd_follows_def)
  have "unat (bs ! 7) mod 64 < 16"
    using assms(2) unfolding csd_fields(4) [OF len] by simp
  then have "unat (bs ! 7) mod 64 = unat (bs ! 7) mod 16"
    using mod_mod_cancel [of 16 64 "unat (bs ! 7)"] by simp
  then show ?thesis
    using size_word_hc [OF csd_followsD [OF assms(1), of 6] csd_followsD [OF assms(1), of 7]
        csd_followsD [OF assms(1), of 8]]
    by (simp only: read_csd_hc_run csd_fields(4) [OF len]) simp
qed

text \<open>A register of an 8 GB card, and one of a 1 GB card of structure version 1.\<close>

definition demo_csd_2 :: "u8 list" where
  "demo_csd_2 = [0x40, 0x0E, 0x00, 0x32, 0x5B, 0x59, 0x00, 0x00, 0x3B, 0x37, 0x7F, 0x80, 0x0A, 0x40, 0x00, 0x01]"

definition demo_csd_1 :: "u8 list" where
  "demo_csd_1 = [0x00, 0x2E, 0x00, 0x32, 0x5B, 0x5A, 0xA3, 0xD7, 0xFF, 0x83, 0xBF, 0x80, 0x16, 0x80, 0x00, 0x01]"

definition demo_csd_card :: "u8 list \<Rightarrow> sd_state" where
  "demo_csd_card bs = demo_sd\<lparr>reply := (\<lambda>b. ucast (bs ! trailing b))\<rparr>"

lemma demo_csd_follows: "length bs = 16 \<Longrightarrow> csd_follows (demo_csd_card bs) bs"
proof -
  have "trailing (replicate (Suc k) (Xfer 0xFF)) = Suc k" for k
    unfolding trailing_def rev_replicate by (simp del: replicate.simps)
  then show "length bs = 16 \<Longrightarrow> csd_follows (demo_csd_card bs) bs"
    by (simp add: csd_follows_def incoming_def demo_csd_card_def demo_sd_def del: replicate.simps)
qed

lemma csd_structure_2_witness:
  "\<exists>t. read_csd_hc (demo_csd_card demo_csd_2) = Inr ((), t) \<and> unat (card_size (sd_card t)) = 15523840"
proof -
  have "csd_field demo_csd_2 69 48 = 15159"
    by (simp add: csd_field_def csd_number_def demo_csd_2_def)
  then show ?thesis
    using csd_structure_2 [of "demo_csd_card demo_csd_2" demo_csd_2] demo_csd_follows [of demo_csd_2]
    by (auto simp: demo_csd_2_def)
qed

text \<open>For a register of structure version 1 the size is \<open>(C_SIZE + 1) * 2 ^ (C_SIZE_MULT + 2)\<close> blocks
  of \<open>2 ^ READ_BL_LEN\<close> bytes, counted in blocks of 512; a register with a read block length below 512
  bytes makes the driver shift by a negative amount.\<close>

theorem csd_structure_1:
  assumes "csd_follows s bs"
  shows "if csd_field bs 83 80 < 9 then read_csd_sc s = Inl Bad_shift
     else \<exists>t. read_csd_sc s = Inr ((), t) \<and> card_type (sd_card t) = SD_CARD_SC
     \<and> unat (card_size (sd_card t))
       = (csd_field bs 73 62 + 1) * 2 ^ (csd_field bs 49 47 + 2) * 2 ^ csd_field bs 83 80 div 512"
proof -
  have len: "length bs = 16"
    using assms(1) by (simp add: csd_follows_def)
  note f = csd_fields [OF len] and in_k = csd_followsD [OF assms(1)]
  have i: "unat (incoming s 4 AND 0xF) = csd_field bs 83 80"
    using in_k [of 4] by (simp add: f)
  have m: "unat (push_bit 1 (incoming s 8) + drop_bit 7 (incoming s 9) AND 0x7) = csd_field bs 49 47"
    using mult_word [OF in_k [of 8] in_k [of 9]] by (simp add: f)
  have b: "csd_field bs 83 80 - 9 \<le> 6" "csd_field bs 49 47 + 2 \<le> 9"
    by (simp_all add: csd_field_def)
  show ?thesis
  proof (cases "csd_field bs 83 80 < 9")
    case True
    then show ?thesis
      using read_csd_sc_fault [of s] unfolding i by simp
  next
    case False
    then have "2 ^ csd_field bs 83 80 = (512 :: nat) * 2 ^ (csd_field bs 83 80 - 9)"
      using power_add [of "2 :: nat" 9 "csd_field bs 83 80 - 9"] by simp
    then show ?thesis
      using read_csd_sc_run [of s] size_word_sc [OF in_k [of 5] in_k [of 6] in_k [of 7] b(2,1)] False
      unfolding i m f(2) by simp
  qed
qed

lemma csd_structure_1_witness:
  "\<exists>t. read_csd_sc (demo_csd_card demo_csd_1) = Inr ((), t) \<and> unat (card_size (sd_card t)) = 4030464"
proof -
  have "csd_field demo_csd_1 83 80 = 10" "csd_field demo_csd_1 73 62 = 3935" "csd_field demo_csd_1 49 47 = 7"
    by (simp_all add: csd_field_def csd_number_def demo_csd_1_def)
  then show ?thesis
    using csd_structure_1 [of "demo_csd_card demo_csd_1" demo_csd_1] demo_csd_follows [of demo_csd_1]
    by (auto simp: demo_csd_1_def)
qed



end
